theory Spec2Isabelle
  imports Complex_Main "HOL-Library.Monad_Syntax"
begin

section \<open>Floating-point values\<close>

text \<open>
  The kernels of \<^verbatim>\<open>cupy_reconstruction.pyx\<close> compute on IEEE-754 binary64 numbers
  (\<^verbatim>\<open>T\<close> is \<^verbatim>\<open>float64\<close>).  A value is a finite real, an infinity or a NaN.  The
  result of an operation on finite values is rounded and may overflow: \<open>rnd\<close> is
  the rounding to the nearest number of the format were its exponent range
  unbounded above, and a rounded result beyond \<open>maxf\<close>, the largest finite number,
  is an infinity.  The format is a parameter of every operation; the kernels run
  at \<open>binary64\<close>, defined below.  A division by zero gives an infinity or a
  NaN, and these propagate through the arithmetic and the comparisons the way
  IEEE-754 prescribes.  The sign of a zero is not represented (a zero is \<open>+0\<close>).
\<close>

datatype fp = Fin real | PInf | NInf | NaN

record arith =
  rnd :: "real \<Rightarrow> real"
  maxf :: real

definition fin :: "arith \<Rightarrow> real \<Rightarrow> fp" where
  "fin ar x =
     (if maxf ar < rnd ar x then PInf
      else if rnd ar x < - maxf ar then NInf
      else Fin (rnd ar x))"

definition inf_of :: "bool \<Rightarrow> fp" where
  "inf_of negative = (if negative then NInf else PInf)"

fun is_neg :: "fp \<Rightarrow> bool" where
  "is_neg (Fin a) = (a < 0)"
| "is_neg NInf = True"
| "is_neg PInf = False"
| "is_neg NaN = False"

fun fneg :: "fp \<Rightarrow> fp" where
  "fneg (Fin a) = Fin (- a)"
| "fneg PInf = NInf"
| "fneg NInf = PInf"
| "fneg NaN = NaN"

fun fadd :: "arith \<Rightarrow> fp \<Rightarrow> fp \<Rightarrow> fp" where
  "fadd ar NaN y = NaN"
| "fadd ar x NaN = NaN"
| "fadd ar (Fin a) (Fin b) = fin ar (a + b)"
| "fadd ar PInf NInf = NaN"
| "fadd ar NInf PInf = NaN"
| "fadd ar PInf y = PInf"
| "fadd ar x PInf = PInf"
| "fadd ar NInf y = NInf"
| "fadd ar x NInf = NInf"

definition fsub :: "arith \<Rightarrow> fp \<Rightarrow> fp \<Rightarrow> fp" where
  "fsub ar x y = fadd ar x (fneg y)"

fun fmul :: "arith \<Rightarrow> fp \<Rightarrow> fp \<Rightarrow> fp" where
  "fmul ar NaN y = NaN"
| "fmul ar x NaN = NaN"
| "fmul ar (Fin a) (Fin b) = fin ar (a * b)"
| "fmul ar (Fin a) y = (if a = 0 then NaN else inf_of ((a < 0) \<noteq> is_neg y))"
| "fmul ar x (Fin b) = (if b = 0 then NaN else inf_of (is_neg x \<noteq> (b < 0)))"
| "fmul ar x y = inf_of (is_neg x \<noteq> is_neg y)"

fun fdiv :: "arith \<Rightarrow> fp \<Rightarrow> fp \<Rightarrow> fp" where
  "fdiv ar NaN y = NaN"
| "fdiv ar x NaN = NaN"
| "fdiv ar (Fin a) (Fin b) =
     (if b = 0 then (if a = 0 then NaN else inf_of (a < 0)) else fin ar (a / b))"
| "fdiv ar (Fin a) y = Fin 0"
| "fdiv ar x (Fin b) = inf_of (is_neg x \<noteq> (b < 0))"
| "fdiv ar x y = NaN"

text \<open>
  The comparisons \<^verbatim>\<open><\<close> and \<^verbatim>\<open><=\<close>: false as soon as an operand is a NaN.
\<close>

fun flt :: "fp \<Rightarrow> fp \<Rightarrow> bool" where
  "flt NaN y = False"
| "flt x NaN = False"
| "flt (Fin a) (Fin b) = (a < b)"
| "flt x NInf = False"
| "flt NInf y = True"
| "flt PInf y = False"
| "flt x PInf = True"

definition fle :: "fp \<Rightarrow> fp \<Rightarrow> bool" where
  "fle x y = (flt x y \<or> (x = y \<and> x \<noteq> NaN))"

text \<open>
  In device code \<^verbatim>\<open>min\<close> and \<^verbatim>\<open>max\<close> on doubles are CUDA's \<^verbatim>\<open>fmin\<close> and
  \<^verbatim>\<open>fmax\<close>: when one operand is a NaN the other operand is the result.
\<close>

definition fmin :: "fp \<Rightarrow> fp \<Rightarrow> fp" where
  "fmin x y = (if x = NaN then y else if y = NaN then x else if flt y x then y else x)"

definition fmax :: "fp \<Rightarrow> fp \<Rightarrow> fp" where
  "fmax x y = (if x = NaN then y else if y = NaN then x else if flt x y then y else x)"

text \<open>
  What the theorems below use of a format, each a property of binary64 with
  rounding to nearest (lemma \<open>ieee_binary64\<close>): the largest finite number is
  positive; rounding keeps zero, is monotone, and keeps a number of the format;
  the double of a number of the format is a number of the format (before the
  check for overflow).  \<open>is_float\<close> holds of the finite numbers of the format.
\<close>

definition ieee :: "arith \<Rightarrow> bool" where
  "ieee ar =
     (0 < maxf ar \<and> rnd ar 0 = 0
      \<and> (\<forall>x y. x \<le> y \<longrightarrow> rnd ar x \<le> rnd ar y)
      \<and> (\<forall>x. rnd ar (rnd ar x) = rnd ar x)
      \<and> (\<forall>x. rnd ar x = x \<longrightarrow> rnd ar (2 * x) = 2 * x))"

definition is_float :: "arith \<Rightarrow> real \<Rightarrow> bool" where
  "is_float ar x = (rnd ar x = x \<and> \<bar>x\<bar> \<le> maxf ar)"

text \<open>
  The arithmetic of the kernels is \<open>binary64\<close>.  A number of the format is
  \<open>m * 2 ^ e\<close> with an integer \<open>m\<close> of at most 53 bits and \<open>e \<ge> -1074\<close>.  The
  numbers of the format around \<open>x\<close> are the multiples of \<open>ulp64 x\<close>, and \<open>rnd64\<close>
  rounds \<open>x\<close> to the nearest of them, to the one with the even multiplier when
  \<open>x\<close> lies halfway between two.
\<close>

definition round_even :: "real \<Rightarrow> int" where
  "round_even y =
     (let f = \<lfloor>y\<rfloor>; r = y - of_int f
      in if r < 1 / 2 then f else if 1 / 2 < r then f + 1 else if even f then f else f + 1)"

definition expo64 :: "real \<Rightarrow> int" where
  "expo64 x = (if x = 0 then - 1074 else max (\<lfloor>log 2 \<bar>x\<bar>\<rfloor> - 52) (- 1074))"

definition ulp64 :: "real \<Rightarrow> real" where
  "ulp64 x = 2 powr of_int (expo64 x)"

definition rnd64 :: "real \<Rightarrow> real" where
  "rnd64 x = of_int (round_even (x / ulp64 x)) * ulp64 x"

definition binary64_max :: real where
  "binary64_max = (2 - 1 / 2 ^ 52) * 2 ^ 1023"

definition binary64 :: arith where
  "binary64 = \<lparr>rnd = rnd64, maxf = binary64_max\<rparr>"

section \<open>The element-wise kernels\<close>

text \<open>
  Each kernel is the function of one element.  An output parameter that the body
  does not assign on some path keeps the value the output array held before the
  call, so such a kernel also takes the old value of its outputs.
\<close>

definition minmod_slope_kernel :: "arith \<Rightarrow> fp \<Rightarrow> fp \<Rightarrow> fp \<Rightarrow> fp \<Rightarrow> fp" where
  "minmod_slope_kernel ar s1 s2 s3 theta =
     (let denominator = fsub ar s3 s2;
          slp = fdiv ar (fsub ar s2 s1) denominator;
          slp = fmin (fmul ar slp theta) (fdiv ar (fadd ar (Fin 1) slp) (Fin 2));
          slp = fmin slp theta;
          slp = fmax slp (Fin 0);
          slp = fmul ar slp denominator;
          slp = fdiv ar slp (Fin 2)
      in slp)"

definition fix_rounding_err_kernel :: "fp \<Rightarrow> fp \<Rightarrow> fp \<Rightarrow> fp" where
  "fix_rounding_err_kernel depth tol ans = (if flt depth tol then Fin 0 else ans)"

definition recnstrt_face_vel_kernel :: "arith \<Rightarrow> fp \<Rightarrow> fp \<Rightarrow> fp \<Rightarrow> fp \<Rightarrow> fp \<times> fp" where
  "recnstrt_face_vel_kernel ar depth hu hv drytol =
     (if flt depth drytol then (Fin 0, Fin 0) else (fdiv ar hu depth, fdiv ar hv depth))"

definition recnstrt_face_conservatives :: "arith \<Rightarrow> fp \<Rightarrow> fp \<Rightarrow> fp \<Rightarrow> fp \<Rightarrow> fp \<times> fp \<times> fp" where
  "recnstrt_face_conservatives ar h u v b = (fadd ar h b, fmul ar h u, fmul ar h v)"

definition correct_neg_depth_internal :: "arith \<Rightarrow> fp \<Rightarrow> fp \<Rightarrow> fp \<Rightarrow> fp \<Rightarrow> fp \<Rightarrow> fp \<times> fp" where
  "correct_neg_depth_internal ar hc hl hr nhl nhr =
     (if flt hl (Fin 0) then (Fin 0, fmul ar hc (Fin 2))
      else if flt hr (Fin 0) then (fmul ar hc (Fin 2), Fin 0)
      else (nhl, nhr))"

definition correct_neg_depth_edge :: "fp \<Rightarrow> fp \<Rightarrow> fp" where
  "correct_neg_depth_edge h nh = (if flt h (Fin 0) then Fin 0 else nh)"

section \<open>Arrays, slices and views\<close>

text \<open>
  An array is its shape and its elements; an element outside the shape is never
  read below and stands for nothing.  The arrays of the solver are indexed by
  (component, row, column), a plane of one component by (row, column), and one
  row or column of a plane by a single index.  A failed operation (an index out
  of range, operands whose shapes differ) raises in Python and is \<open>None\<close> here.
  Shapes have to agree exactly: broadcasting an axis of length one is not
  represented and counts as a failure.
\<close>

record arr1 =
  len1 :: nat
  at1 :: "nat \<Rightarrow> fp"

record arr2 =
  rows2 :: nat
  cols2 :: nat
  at2 :: "nat \<Rightarrow> nat \<Rightarrow> fp"

record arr3 =
  comps3 :: nat
  rows3 :: nat
  cols3 :: nat
  at3 :: "nat \<Rightarrow> nat \<Rightarrow> nat \<Rightarrow> fp"

text \<open>
  A Python slice \<^verbatim>\<open>lo:hi\<close> of an axis of length \<open>n\<close>: a negative bound counts
  from the end, and every bound is clipped to the axis.  An integer index outside
  \<open>-n \<dots> n-1\<close> raises \<^verbatim>\<open>IndexError\<close>.
\<close>

type_synonym slice = "int option \<times> int option"

abbreviation sl_all :: slice where
  "sl_all \<equiv> (None, None)"

abbreviation sl_to :: "int \<Rightarrow> slice" where
  "sl_to hi \<equiv> (None, Some hi)"

abbreviation sl_from :: "int \<Rightarrow> slice" where
  "sl_from lo \<equiv> (Some lo, None)"

abbreviation sl_range :: "int \<Rightarrow> int \<Rightarrow> slice" where
  "sl_range lo hi \<equiv> (Some lo, Some hi)"

definition norm_bound :: "nat \<Rightarrow> int \<Rightarrow> nat" where
  "norm_bound n k = (if k < 0 then nat (max (k + int n) 0) else min (nat k) n)"

definition sl_start :: "nat \<Rightarrow> slice \<Rightarrow> nat" where
  "sl_start n s = (case fst s of None \<Rightarrow> 0 | Some k \<Rightarrow> norm_bound n k)"

definition sl_stop :: "nat \<Rightarrow> slice \<Rightarrow> nat" where
  "sl_stop n s = (case snd s of None \<Rightarrow> n | Some k \<Rightarrow> norm_bound n k)"

definition sl_len :: "nat \<Rightarrow> slice \<Rightarrow> nat" where
  "sl_len n s = sl_stop n s - sl_start n s"

definition py_index :: "nat \<Rightarrow> int \<Rightarrow> nat option" where
  "py_index n k =
     (if 0 \<le> k \<and> k < int n then Some (nat k)
      else if - int n \<le> k \<and> k < 0 then Some (nat (k + int n))
      else None)"

text \<open>The views \<^verbatim>\<open>a[:, ys, xs]\<close>, \<^verbatim>\<open>a[c, ys, xs]\<close>, \<^verbatim>\<open>a[c, :, k]\<close> and \<^verbatim>\<open>a[c, k, :]\<close>.\<close>

definition sub3 :: "slice \<Rightarrow> slice \<Rightarrow> arr3 \<Rightarrow> arr3" where
  "sub3 ys xs a =
     \<lparr>comps3 = comps3 a, rows3 = sl_len (rows3 a) ys, cols3 = sl_len (cols3 a) xs,
      at3 = (\<lambda>c j i. at3 a c (sl_start (rows3 a) ys + j) (sl_start (cols3 a) xs + i))\<rparr>"

definition sub2 :: "int \<Rightarrow> slice \<Rightarrow> slice \<Rightarrow> arr3 \<Rightarrow> arr2 option" where
  "sub2 c ys xs a =
     (case py_index (comps3 a) c of
        None \<Rightarrow> None
      | Some c' \<Rightarrow>
          Some \<lparr>rows2 = sl_len (rows3 a) ys, cols2 = sl_len (cols3 a) xs,
                at2 = (\<lambda>j i. at3 a c' (sl_start (rows3 a) ys + j) (sl_start (cols3 a) xs + i))\<rparr>)"

definition col1 :: "int \<Rightarrow> int \<Rightarrow> arr3 \<Rightarrow> arr1 option" where
  "col1 c k a =
     (case (py_index (comps3 a) c, py_index (cols3 a) k) of
        (Some c', Some k') \<Rightarrow> Some \<lparr>len1 = rows3 a, at1 = (\<lambda>j. at3 a c' j k')\<rparr>
      | _ \<Rightarrow> None)"

definition row1 :: "int \<Rightarrow> int \<Rightarrow> arr3 \<Rightarrow> arr1 option" where
  "row1 c k a =
     (case (py_index (comps3 a) c, py_index (rows3 a) k) of
        (Some c', Some k') \<Rightarrow> Some \<lparr>len1 = cols3 a, at1 = (\<lambda>i. at3 a c' k' i)\<rparr>
      | _ \<Rightarrow> None)"

text \<open>
  Writing through a view: the elements of the view take the values of \<open>src\<close>,
  every other element of the array keeps its value.  \<open>out3\<close> and \<open>out2\<close> are a
  whole array given as \<^verbatim>\<open>out=\<close>.
\<close>

definition out3 :: "arr3 \<Rightarrow> arr3 \<Rightarrow> arr3 option" where
  "out3 dst src =
     (if comps3 dst = comps3 src \<and> rows3 dst = rows3 src \<and> cols3 dst = cols3 src
      then Some src else None)"

definition out2 :: "arr2 \<Rightarrow> arr2 \<Rightarrow> arr2 option" where
  "out2 dst src =
     (if rows2 dst = rows2 src \<and> cols2 dst = cols2 src then Some src else None)"

definition put_sub2 :: "int \<Rightarrow> slice \<Rightarrow> slice \<Rightarrow> arr3 \<Rightarrow> arr2 \<Rightarrow> arr3 option" where
  "put_sub2 c ys xs a src =
     (case py_index (comps3 a) c of
        None \<Rightarrow> None
      | Some c' \<Rightarrow>
          if rows2 src = sl_len (rows3 a) ys \<and> cols2 src = sl_len (cols3 a) xs
          then Some (a\<lparr>at3 := (\<lambda>d j i.
                 if d = c' \<and> sl_start (rows3 a) ys \<le> j \<and> j < sl_start (rows3 a) ys + rows2 src
                    \<and> sl_start (cols3 a) xs \<le> i \<and> i < sl_start (cols3 a) xs + cols2 src
                 then at2 src (j - sl_start (rows3 a) ys) (i - sl_start (cols3 a) xs)
                 else at3 a d j i)\<rparr>)
          else None)"

definition put_col1 :: "int \<Rightarrow> int \<Rightarrow> arr3 \<Rightarrow> arr1 \<Rightarrow> arr3 option" where
  "put_col1 c k a src =
     (case (py_index (comps3 a) c, py_index (cols3 a) k) of
        (Some c', Some k') \<Rightarrow>
          if len1 src = rows3 a
          then Some (a\<lparr>at3 := (\<lambda>d j i.
                 if d = c' \<and> j < rows3 a \<and> i = k' then at1 src j else at3 a d j i)\<rparr>)
          else None
      | _ \<Rightarrow> None)"

definition put_row1 :: "int \<Rightarrow> int \<Rightarrow> arr3 \<Rightarrow> arr1 \<Rightarrow> arr3 option" where
  "put_row1 c k a src =
     (case (py_index (comps3 a) c, py_index (rows3 a) k) of
        (Some c', Some k') \<Rightarrow>
          if len1 src = cols3 a
          then Some (a\<lparr>at3 := (\<lambda>d j i.
                 if d = c' \<and> j = k' \<and> i < cols3 a then at1 src i else at3 a d j i)\<rparr>)
          else None
      | _ \<Rightarrow> None)"

text \<open>Applying a function element by element to arrays of one shape.\<close>

definition ew1_1 :: "(fp \<Rightarrow> fp) \<Rightarrow> arr1 \<Rightarrow> arr1" where
  "ew1_1 f a = \<lparr>len1 = len1 a, at1 = (\<lambda>j. f (at1 a j))\<rparr>"

definition ew1_2 :: "(fp \<Rightarrow> fp) \<Rightarrow> arr2 \<Rightarrow> arr2" where
  "ew1_2 f a = \<lparr>rows2 = rows2 a, cols2 = cols2 a, at2 = (\<lambda>j i. f (at2 a j i))\<rparr>"

definition same2 :: "arr2 \<Rightarrow> arr2 \<Rightarrow> bool" where
  "same2 a b = (rows2 a = rows2 b \<and> cols2 a = cols2 b)"

definition same3 :: "arr3 \<Rightarrow> arr3 \<Rightarrow> bool" where
  "same3 a b = (comps3 a = comps3 b \<and> rows3 a = rows3 b \<and> cols3 a = cols3 b)"

definition ew2_2 :: "(fp \<Rightarrow> fp \<Rightarrow> fp) \<Rightarrow> arr2 \<Rightarrow> arr2 \<Rightarrow> arr2 option" where
  "ew2_2 f a b =
     (if same2 a b
      then Some \<lparr>rows2 = rows2 a, cols2 = cols2 a, at2 = (\<lambda>j i. f (at2 a j i) (at2 b j i))\<rparr>
      else None)"

definition ew3_2 :: "(fp \<Rightarrow> fp \<Rightarrow> fp \<Rightarrow> fp) \<Rightarrow> arr2 \<Rightarrow> arr2 \<Rightarrow> arr2 \<Rightarrow> arr2 option" where
  "ew3_2 f a b c =
     (if same2 a b \<and> same2 a c
      then Some \<lparr>rows2 = rows2 a, cols2 = cols2 a,
                 at2 = (\<lambda>j i. f (at2 a j i) (at2 b j i) (at2 c j i))\<rparr>
      else None)"

definition ew4_2 ::
  "(fp \<Rightarrow> fp \<Rightarrow> fp \<Rightarrow> fp \<Rightarrow> fp) \<Rightarrow> arr2 \<Rightarrow> arr2 \<Rightarrow> arr2 \<Rightarrow> arr2 \<Rightarrow> arr2 option" where
  "ew4_2 f a b c d =
     (if same2 a b \<and> same2 a c \<and> same2 a d
      then Some \<lparr>rows2 = rows2 a, cols2 = cols2 a,
                 at2 = (\<lambda>j i. f (at2 a j i) (at2 b j i) (at2 c j i) (at2 d j i))\<rparr>
      else None)"

definition ew2_3 :: "(fp \<Rightarrow> fp \<Rightarrow> fp) \<Rightarrow> arr3 \<Rightarrow> arr3 \<Rightarrow> arr3 option" where
  "ew2_3 f a b =
     (if same3 a b
      then Some \<lparr>comps3 = comps3 a, rows3 = rows3 a, cols3 = cols3 a,
                 at3 = (\<lambda>c j i. f (at3 a c j i) (at3 b c j i))\<rparr>
      else None)"

definition ew3_3 :: "(fp \<Rightarrow> fp \<Rightarrow> fp \<Rightarrow> fp) \<Rightarrow> arr3 \<Rightarrow> arr3 \<Rightarrow> arr3 \<Rightarrow> arr3 option" where
  "ew3_3 f a b c =
     (if same3 a b \<and> same3 a c
      then Some \<lparr>comps3 = comps3 a, rows3 = rows3 a, cols3 = cols3 a,
                 at3 = (\<lambda>d j i. f (at3 a d j i) (at3 b d j i) (at3 c d j i))\<rparr>
      else None)"

section \<open>The solver state\<close>

text \<open>
  \<open>states\<close> holds the arrays \<^verbatim>\<open>reconstruct\<close> reads and writes, under the names of
  its local aliases: \<open>xmQ\<close> is \<^verbatim>\<open>states.face.x.minus.Q\<close>, \<open>ypU\<close> is
  \<^verbatim>\<open>states.face.y.plus.U\<close>, and so on.  \<open>U\<close> is \<^verbatim>\<open>states.U\<close>, which the docstring of
  \<^verbatim>\<open>reconstruct\<close> names as updated and which its body never mentions.  The arrays
  are distinct buffers: no array of the state is a view of another.
\<close>

record states =
  Q :: arr3
  H :: arr2
  U :: arr3
  xmQ :: arr3
  xpQ :: arr3
  ymQ :: arr3
  ypQ :: arr3
  xmU :: arr3
  xpU :: arr3
  ymU :: arr3
  ypU :: arr3
  ngh :: int

record topography =
  centers :: arr2
  xfcenters :: arr2
  yfcenters :: arr2

record runtime =
  topo :: topography
  tol :: fp

record parameters =
  theta :: fp
  drytol :: fp

record config =
  params :: parameters

definition ny :: "states \<Rightarrow> int" where
  "ny st = int (rows3 (Q st)) - 2 * ngh st"

definition nx :: "states \<Rightarrow> int" where
  "nx st = int (cols3 (Q st)) - 2 * ngh st"

definition xbg :: "states \<Rightarrow> int" where
  "xbg st = ngh st"

definition xed :: "states \<Rightarrow> int" where
  "xed st = nx st + ngh st"

definition ybg :: "states \<Rightarrow> int" where
  "ybg st = ngh st"

definition yed :: "states \<Rightarrow> int" where
  "yed st = ny st + ngh st"

section \<open>The stages of reconstruct\<close>

text \<open>Lines 147-151: the limited slopes \<open>slpx\<close> and \<open>slpy\<close>.\<close>

definition get_slopes :: "arith \<Rightarrow> states \<Rightarrow> config \<Rightarrow> (arr3 \<times> arr3) option" where
  "get_slopes ar st cfg =
     do {
       slpx \<leftarrow> ew3_3 (\<lambda>s1 s2 s3. minmod_slope_kernel ar s1 s2 s3 (theta (params cfg)))
                 (sub3 (sl_range (ybg st) (yed st)) (sl_range (xbg st - 2) (xed st)) (Q st))
                 (sub3 (sl_range (ybg st) (yed st)) (sl_range (xbg st - 1) (xed st + 1)) (Q st))
                 (sub3 (sl_range (ybg st) (yed st)) (sl_range (xbg st) (xed st + 2)) (Q st));
       slpy \<leftarrow> ew3_3 (\<lambda>s1 s2 s3. minmod_slope_kernel ar s1 s2 s3 (theta (params cfg)))
                 (sub3 (sl_range (ybg st - 2) (yed st)) (sl_range (xbg st) (xed st)) (Q st))
                 (sub3 (sl_range (ybg st - 1) (yed st + 1)) (sl_range (xbg st) (xed st)) (Q st))
                 (sub3 (sl_range (ybg st) (yed st + 2)) (sl_range (xbg st) (xed st)) (Q st));
       Some (slpx, slpy)
     }"

text \<open>Lines 153-157: the discontinuous conservative quantities at the cell faces.\<close>

definition get_face_Q :: "arith \<Rightarrow> states \<Rightarrow> arr3 \<Rightarrow> arr3 \<Rightarrow> states option" where
  "get_face_Q ar st slpx slpy =
     do {
       r \<leftarrow> ew2_3 (fadd ar) (sub3 (sl_range (ybg st) (yed st)) (sl_range (xbg st - 1) (xed st)) (Q st))
                       (sub3 sl_all (sl_to (nx st + 1)) slpx);
       xmQ' \<leftarrow> out3 (xmQ st) r;
       r \<leftarrow> ew2_3 (fsub ar) (sub3 (sl_range (ybg st) (yed st)) (sl_range (xbg st) (xed st + 1)) (Q st))
                       (sub3 sl_all (sl_from 1) slpx);
       xpQ' \<leftarrow> out3 (xpQ st) r;
       r \<leftarrow> ew2_3 (fadd ar) (sub3 (sl_range (ybg st - 1) (yed st)) (sl_range (xbg st) (xed st)) (Q st))
                       (sub3 (sl_to (ny st + 1)) sl_all slpy);
       ymQ' \<leftarrow> out3 (ymQ st) r;
       r \<leftarrow> ew2_3 (fsub ar) (sub3 (sl_range (ybg st) (yed st + 1)) (sl_range (xbg st) (xed st)) (Q st))
                       (sub3 (sl_from 1) sl_all slpy);
       ypQ' \<leftarrow> out3 (ypQ st) r;
       Some (st\<lparr>xmQ := xmQ', xpQ := xpQ', ymQ := ymQ', ypQ := ypQ'\<rparr>)
     }"

text \<open>Lines 159-164: the depth at the cell centers and at the faces.\<close>

definition face_depth :: "arith \<Rightarrow> arr3 \<Rightarrow> arr2 \<Rightarrow> arr3 \<Rightarrow> arr3 option" where
  "face_depth ar faceQ b faceU =
     do {
       w \<leftarrow> sub2 0 sl_all sl_all faceQ;
       h \<leftarrow> ew2_2 (fsub ar) w b;
       put_sub2 0 sl_all sl_all faceU h
     }"

definition calc_depth :: "arith \<Rightarrow> states \<Rightarrow> runtime \<Rightarrow> states option" where
  "calc_depth ar st rt =
     do {
       w \<leftarrow> sub2 0 (sl_range (ybg st) (yed st)) (sl_range (xbg st) (xed st)) (Q st);
       h \<leftarrow> ew2_2 (fsub ar) w (centers (topo rt));
       H' \<leftarrow> out2 (H st) h;
       xmU' \<leftarrow> face_depth ar (xmQ st) (xfcenters (topo rt)) (xmU st);
       xpU' \<leftarrow> face_depth ar (xpQ st) (xfcenters (topo rt)) (xpU st);
       ymU' \<leftarrow> face_depth ar (ymQ st) (yfcenters (topo rt)) (ymU st);
       ypU' \<leftarrow> face_depth ar (ypQ st) (yfcenters (topo rt)) (ypU st);
       Some (st\<lparr>H := H', xmU := xmU', xpU := xpU', ymU := ymU', ypU := ypU'\<rparr>)
     }"

text \<open>
  Lines 166-169: negative depths in the x direction.  The corrector for the
  interior cells reads and writes the same two views, so the old value of each
  output is the input at that element; likewise for the edge corrector.
\<close>

definition edge_col :: "int \<Rightarrow> arr3 \<Rightarrow> arr3 option" where
  "edge_col k a =
     do {
       h \<leftarrow> col1 0 k a;
       put_col1 0 k a (ew1_1 (\<lambda>x. correct_neg_depth_edge x x) h)
     }"

definition edge_row :: "int \<Rightarrow> arr3 \<Rightarrow> arr3 option" where
  "edge_row k a =
     do {
       h \<leftarrow> row1 0 k a;
       put_row1 0 k a (ew1_1 (\<lambda>x. correct_neg_depth_edge x x) h)
     }"

definition fix_neg_depth_x :: "arith \<Rightarrow> states \<Rightarrow> states option" where
  "fix_neg_depth_x ar st =
     do {
       hl \<leftarrow> sub2 0 sl_all (sl_to (nx st)) (xpU st);
       hr \<leftarrow> sub2 0 sl_all (sl_from 1) (xmU st);
       nhl \<leftarrow> ew3_2 (\<lambda>hc l r. fst (correct_neg_depth_internal ar hc l r l r)) (H st) hl hr;
       nhr \<leftarrow> ew3_2 (\<lambda>hc l r. snd (correct_neg_depth_internal ar hc l r l r)) (H st) hl hr;
       xpU' \<leftarrow> put_sub2 0 sl_all (sl_to (nx st)) (xpU st) nhl;
       xmU' \<leftarrow> put_sub2 0 sl_all (sl_from 1) (xmU st) nhr;
       xpU'' \<leftarrow> edge_col (nx st) xpU';
       xmU'' \<leftarrow> edge_col 0 xmU';
       Some (st\<lparr>xpU := xpU'', xmU := xmU''\<rparr>)
     }"

text \<open>Lines 171-174: negative depths in the y direction.\<close>

definition fix_neg_depth_y :: "arith \<Rightarrow> states \<Rightarrow> states option" where
  "fix_neg_depth_y ar st =
     do {
       hl \<leftarrow> sub2 0 (sl_to (ny st)) sl_all (ypU st);
       hr \<leftarrow> sub2 0 (sl_from 1) sl_all (ymU st);
       nhl \<leftarrow> ew3_2 (\<lambda>hc l r. fst (correct_neg_depth_internal ar hc l r l r)) (H st) hl hr;
       nhr \<leftarrow> ew3_2 (\<lambda>hc l r. snd (correct_neg_depth_internal ar hc l r l r)) (H st) hl hr;
       ypU' \<leftarrow> put_sub2 0 (sl_to (ny st)) sl_all (ypU st) nhl;
       ymU' \<leftarrow> put_sub2 0 (sl_from 1) sl_all (ymU st) nhr;
       ypU'' \<leftarrow> edge_row (ny st) ypU';
       ymU'' \<leftarrow> edge_row 0 ymU';
       Some (st\<lparr>ypU := ypU'', ymU := ymU''\<rparr>)
     }"

text \<open>Lines 176-180: rounding errors, on the depth plane of the four face arrays.\<close>

definition fix_rounding :: "fp \<Rightarrow> arr3 \<Rightarrow> arr3 option" where
  "fix_rounding t faceU =
     do {
       d \<leftarrow> sub2 0 sl_all sl_all faceU;
       put_sub2 0 sl_all sl_all faceU (ew1_2 (\<lambda>x. fix_rounding_err_kernel x t x) d)
     }"

definition fix_rounding_err :: "states \<Rightarrow> runtime \<Rightarrow> states option" where
  "fix_rounding_err st rt =
     do {
       xmU' \<leftarrow> fix_rounding (tol rt) (xmU st);
       xpU' \<leftarrow> fix_rounding (tol rt) (xpU st);
       ymU' \<leftarrow> fix_rounding (tol rt) (ymU st);
       ypU' \<leftarrow> fix_rounding (tol rt) (ypU st);
       Some (st\<lparr>xmU := xmU', xpU := xpU', ymU := ymU', ypU := ypU'\<rparr>)
     }"

text \<open>Lines 182-186: the velocities at the cell faces.\<close>

definition face_vel :: "arith \<Rightarrow> fp \<Rightarrow> arr3 \<Rightarrow> arr3 \<Rightarrow> arr3 option" where
  "face_vel ar dt faceQ faceU =
     do {
       d \<leftarrow> sub2 0 sl_all sl_all faceU;
       hu \<leftarrow> sub2 1 sl_all sl_all faceQ;
       hv \<leftarrow> sub2 2 sl_all sl_all faceQ;
       u \<leftarrow> ew3_2 (\<lambda>d hu hv. fst (recnstrt_face_vel_kernel ar d hu hv dt)) d hu hv;
       v \<leftarrow> ew3_2 (\<lambda>d hu hv. snd (recnstrt_face_vel_kernel ar d hu hv dt)) d hu hv;
       a \<leftarrow> put_sub2 1 sl_all sl_all faceU u;
       put_sub2 2 sl_all sl_all a v
     }"

definition recnstrt_face_vel :: "arith \<Rightarrow> states \<Rightarrow> config \<Rightarrow> states option" where
  "recnstrt_face_vel ar st cfg =
     do {
       xmU' \<leftarrow> face_vel ar (drytol (params cfg)) (xmQ st) (xmU st);
       xpU' \<leftarrow> face_vel ar (drytol (params cfg)) (xpQ st) (xpU st);
       ymU' \<leftarrow> face_vel ar (drytol (params cfg)) (ymQ st) (ymU st);
       ypU' \<leftarrow> face_vel ar (drytol (params cfg)) (ypQ st) (ypU st);
       Some (st\<lparr>xmU := xmU', xpU := xpU', ymU := ymU', ypU := ypU'\<rparr>)
     }"

text \<open>Lines 188-192: the conservative quantities at the cell faces.\<close>

definition face_cons :: "arith \<Rightarrow> arr3 \<Rightarrow> arr2 \<Rightarrow> arr3 \<Rightarrow> arr3 option" where
  "face_cons ar faceU b faceQ =
     do {
       h \<leftarrow> sub2 0 sl_all sl_all faceU;
       u \<leftarrow> sub2 1 sl_all sl_all faceU;
       v \<leftarrow> sub2 2 sl_all sl_all faceU;
       w' \<leftarrow> ew4_2 (\<lambda>h u v b. fst (recnstrt_face_conservatives ar h u v b)) h u v b;
       hu' \<leftarrow> ew4_2 (\<lambda>h u v b. fst (snd (recnstrt_face_conservatives ar h u v b))) h u v b;
       hv' \<leftarrow> ew4_2 (\<lambda>h u v b. snd (snd (recnstrt_face_conservatives ar h u v b))) h u v b;
       a \<leftarrow> put_sub2 0 sl_all sl_all faceQ w';
       a \<leftarrow> put_sub2 1 sl_all sl_all a hu';
       put_sub2 2 sl_all sl_all a hv'
     }"

definition recnstrt_face_cons :: "arith \<Rightarrow> states \<Rightarrow> runtime \<Rightarrow> states option" where
  "recnstrt_face_cons ar st rt =
     do {
       xmQ' \<leftarrow> face_cons ar (xmU st) (xfcenters (topo rt)) (xmQ st);
       xpQ' \<leftarrow> face_cons ar (xpU st) (xfcenters (topo rt)) (xpQ st);
       ymQ' \<leftarrow> face_cons ar (ymU st) (yfcenters (topo rt)) (ymQ st);
       ypQ' \<leftarrow> face_cons ar (ypU st) (yfcenters (topo rt)) (ypQ st);
       Some (st\<lparr>xmQ := xmQ', xpQ := xpQ', ymQ := ymQ', ypQ := ypQ'\<rparr>)
     }"

section \<open>reconstruct\<close>

text \<open>
  \<open>uncorrected_depths\<close> is \<^verbatim>\<open>reconstruct\<close> up to and including line 164 (slopes,
  face values, depths), \<open>corrected_depths\<close> up to and including line 174 (the
  correction of negative depths in both directions).  \<open>reconstruct\<close> returns the
  state and, beside it, the runtime object it was given: the store the caller
  sees after the call.
\<close>

definition uncorrected_depths :: "arith \<Rightarrow> states \<Rightarrow> runtime \<Rightarrow> config \<Rightarrow> states option" where
  "uncorrected_depths ar st rt cfg =
     do {
       (slpx, slpy) \<leftarrow> get_slopes ar st cfg;
       st \<leftarrow> get_face_Q ar st slpx slpy;
       calc_depth ar st rt
     }"

definition corrected_depths :: "arith \<Rightarrow> states \<Rightarrow> runtime \<Rightarrow> config \<Rightarrow> states option" where
  "corrected_depths ar st rt cfg =
     do {
       st \<leftarrow> uncorrected_depths ar st rt cfg;
       st \<leftarrow> fix_neg_depth_x ar st;
       fix_neg_depth_y ar st
     }"

definition reconstruct :: "arith \<Rightarrow> states \<Rightarrow> runtime \<Rightarrow> config \<Rightarrow> (states \<times> runtime) option" where
  "reconstruct ar st rt cfg =
     do {
       st \<leftarrow> corrected_depths ar st rt cfg;
       st \<leftarrow> fix_rounding_err st rt;
       st \<leftarrow> recnstrt_face_vel ar st cfg;
       st \<leftarrow> recnstrt_face_cons ar st rt;
       Some (st, rt)
     }"

section \<open>Well-shaped states\<close>

text \<open>
  The shapes the caller has to provide: \<open>Q\<close> has three components and at least
  two ghost cells on every side of its \<open>ny \<times> nx\<close> interior; the x-face arrays
  have one column more than the interior, the y-face arrays one row more; the
  topography has the shapes of the centers and of the faces.
\<close>

definition shape2 :: "arr2 \<Rightarrow> nat \<times> nat" where
  "shape2 a = (rows2 a, cols2 a)"

definition shape3 :: "arr3 \<Rightarrow> nat \<times> nat \<times> nat" where
  "shape3 a = (comps3 a, rows3 a, cols3 a)"

definition shapes_ok :: "states \<Rightarrow> runtime \<Rightarrow> bool" where
  "shapes_ok st rt =
     (let n = nat (ny st); m = nat (nx st) in
      2 \<le> ngh st \<and> 0 \<le> ny st \<and> 0 \<le> nx st \<and> comps3 (Q st) = 3 \<and>
      shape2 (H st) = (n, m) \<and>
      shape3 (xmQ st) = (3, n, m + 1) \<and> shape3 (xpQ st) = (3, n, m + 1) \<and>
      shape3 (xmU st) = (3, n, m + 1) \<and> shape3 (xpU st) = (3, n, m + 1) \<and>
      shape3 (ymQ st) = (3, n + 1, m) \<and> shape3 (ypQ st) = (3, n + 1, m) \<and>
      shape3 (ymU st) = (3, n + 1, m) \<and> shape3 (ypU st) = (3, n + 1, m) \<and>
      shape2 (centers (topo rt)) = (n, m) \<and>
      shape2 (xfcenters (topo rt)) = (n, m + 1) \<and>
      shape2 (yfcenters (topo rt)) = (n + 1, m))"

section \<open>Example states\<close>

text \<open>
  A grid with one row of two interior cells and two ghost cells on every side.
  In \<open>ex_st\<close> the surface elevation rises by one per column, so every limited
  slope in x is one half; the output buffers hold NaN and \<open>U\<close> holds 7 before the
  call.  \<open>ex_depths\<close> is a state as the depth computation may leave it, with a
  negative face depth at the left face of the first cell in both directions;
  \<open>big_depths\<close> is the same with the center depth \<open>2 ^ 1023\<close>, a number of
  binary64 whose double is not.
  \<open>flat_st\<close> is a flat field at elevation 0, over a bed at elevation 1 in
  \<open>dry_rt\<close> and at elevation -1 in \<open>wet_rt\<close>.
\<close>

definition const2 :: "nat \<Rightarrow> nat \<Rightarrow> fp \<Rightarrow> arr2" where
  "const2 r c v = \<lparr>rows2 = r, cols2 = c, at2 = (\<lambda>j i. v)\<rparr>"

definition const3 :: "nat \<Rightarrow> nat \<Rightarrow> fp \<Rightarrow> arr3" where
  "const3 r c v = \<lparr>comps3 = 3, rows3 = r, cols3 = c, at3 = (\<lambda>d j i. v)\<rparr>"

definition ex_st :: states where
  "ex_st =
     \<lparr>Q = \<lparr>comps3 = 3, rows3 = 5, cols3 = 6,
            at3 = (\<lambda>d j i. if d = 0 then Fin (real i) else if d = 1 then Fin 3 else Fin (real j))\<rparr>,
      H = const2 1 2 NaN, U = const3 1 2 (Fin 7),
      xmQ = const3 1 3 NaN, xpQ = const3 1 3 NaN, ymQ = const3 2 2 NaN, ypQ = const3 2 2 NaN,
      xmU = const3 1 3 NaN, xpU = const3 1 3 NaN, ymU = const3 2 2 NaN, ypU = const3 2 2 NaN,
      ngh = 2\<rparr>"

definition ex_rt :: runtime where
  "ex_rt =
     \<lparr>topo = \<lparr>centers = const2 1 2 (Fin (7 / 4)), xfcenters = const2 1 3 (Fin 2),
               yfcenters = const2 2 2 (Fin 1)\<rparr>,
      tol = Fin (1 / 1024)\<rparr>"

definition ex_cfg :: config where
  "ex_cfg = \<lparr>params = \<lparr>theta = Fin (5 / 4), drytol = Fin (1 / 128)\<rparr>\<rparr>"

definition ex_depths :: states where
  "ex_depths =
     ex_st\<lparr>H := \<lparr>rows2 = 1, cols2 = 2, at2 = (\<lambda>j i. Fin (real i + 1 / 4))\<rparr>,
           xpU := \<lparr>comps3 = 3, rows3 = 1, cols3 = 3, at3 = (\<lambda>d j i. Fin (real i - 1 / 2))\<rparr>,
           xmU := \<lparr>comps3 = 3, rows3 = 1, cols3 = 3, at3 = (\<lambda>d j i. Fin (real i - 1 / 2))\<rparr>,
           ypU := \<lparr>comps3 = 3, rows3 = 2, cols3 = 2,
                   at3 = (\<lambda>d j i. if i = 0 then Fin (- 1) else Fin 2)\<rparr>,
           ymU := const3 2 2 (Fin 3)\<rparr>"

definition big_depths :: states where
  "big_depths = ex_depths\<lparr>H := const2 1 2 (Fin (2 ^ 1023))\<rparr>"

definition flat_st :: states where
  "flat_st = ex_st\<lparr>Q := \<lparr>comps3 = 3, rows3 = 5, cols3 = 6, at3 = (\<lambda>d j i. Fin 0)\<rparr>\<rparr>"

definition dry_rt :: runtime where
  "dry_rt =
     \<lparr>topo = \<lparr>centers = const2 1 2 (Fin 1), xfcenters = const2 1 3 (Fin 1),
               yfcenters = const2 2 2 (Fin 1)\<rparr>,
      tol = Fin (1 / 1024)\<rparr>"

definition wet_rt :: runtime where
  "wet_rt =
     \<lparr>topo = \<lparr>centers = const2 1 2 (Fin (- 1)), xfcenters = const2 1 3 (Fin (- 1)),
               yfcenters = const2 2 2 (Fin (- 1))\<rparr>,
      tol = Fin (1 / 1024)\<rparr>"

section \<open>Facts about the arithmetic\<close>

lemma ieeeD:
  assumes "ieee ar"
  shows "0 < maxf ar" "rnd ar 0 = 0" "x \<le> y \<Longrightarrow> rnd ar x \<le> rnd ar y"
    "rnd ar (rnd ar x) = rnd ar x" "rnd ar x = x \<Longrightarrow> rnd ar (2 * x) = 2 * x"
  using assms by (simp_all add: ieee_def)


lemma fin_0: "ieee ar \<Longrightarrow> fin ar 0 = Fin 0"
  using ieeeD(1)[of ar] by (simp add: fin_def ieeeD(2))

lemma fin_float: "is_float ar x \<Longrightarrow> fin ar x = Fin x"
  by (auto simp: fin_def is_float_def)

lemma fin_is_float: "ieee ar \<Longrightarrow> fin ar x = Fin y \<Longrightarrow> is_float ar y"
  by (auto simp: fin_def is_float_def ieeeD(4) split: if_splits)

lemma binary64_max_bounds: "2 ^ 1023 \<le> binary64_max" "binary64_max < 2 ^ 1024"
  by (simp_all add: binary64_max_def)

lemma binary64_max_ge: "1024 \<le> binary64_max"
  using binary64_max_bounds(1) by simp

section \<open>Rounding to binary64\<close>

lemma round_even_int: "round_even (of_int n) = n"
  by (simp add: round_even_def)

lemma round_even_range: "\<lfloor>y\<rfloor> \<le> round_even y" "round_even y \<le> \<lfloor>y\<rfloor> + 1"
  by (simp_all add: round_even_def Let_def)

lemma round_even_mono:
  assumes "x \<le> y"
  shows "round_even x \<le> round_even y"
proof (cases "\<lfloor>x\<rfloor> = \<lfloor>y\<rfloor>")
  case True
  then show ?thesis using assms by (auto simp: round_even_def Let_def)
next
  case False
  then have "\<lfloor>x\<rfloor> < \<lfloor>y\<rfloor>" using floor_mono[OF assms] by simp
  then show ?thesis using round_even_range(2)[of x] round_even_range(1)[of y] by linarith
qed

lemma round_even_ge: "of_int n \<le> y \<Longrightarrow> n \<le> round_even y"
  using round_even_mono[of "of_int n" y] by (simp add: round_even_int)

lemma round_even_le: "y \<le> of_int n \<Longrightarrow> round_even y \<le> n"
  using round_even_mono[of y "of_int n"] by (simp add: round_even_int)

lemma round_even_minus: "round_even (- y) = - round_even y"
proof (cases "y \<in> \<int>")
  case True
  then obtain n where "y = of_int n" by (auto elim: Ints_cases)
  then show ?thesis using round_even_int[of "- n"] by (simp add: round_even_int)
next
  case False
  have n: "y \<noteq> of_int \<lfloor>y\<rfloor>" using False by (metis Ints_of_int)
  then have f: "\<lfloor>- y\<rfloor> = - \<lfloor>y\<rfloor> - 1" by (simp add: floor_minus ceiling_altdef)
  have "of_int \<lfloor>y\<rfloor> < y" using n of_int_floor_le[of y] by linarith
  then show ?thesis unfolding round_even_def Let_def f by auto
qed

lemma ulp64_pos: "0 < ulp64 x"
  by (simp add: ulp64_def)

lemma expo64_minus: "expo64 (- x) = expo64 x"
  by (simp add: expo64_def)

lemma rnd64_minus: "rnd64 (- x) = - rnd64 x"
  by (simp add: rnd64_def ulp64_def expo64_minus round_even_minus)

lemma rnd64_0: "rnd64 0 = 0"
  by (simp add: rnd64_def round_even_def)

lemma rnd64_nonneg: "0 \<le> x \<Longrightarrow> 0 \<le> rnd64 x"
  using round_even_ge[of 0 "x / ulp64 x"] ulp64_pos[of x] by (simp add: rnd64_def)

lemma log_bounds:
  assumes "x \<noteq> 0"
  shows "2 powr of_int \<lfloor>log 2 \<bar>x\<bar>\<rfloor> \<le> \<bar>x\<bar>" "\<bar>x\<bar> < 2 powr of_int (\<lfloor>log 2 \<bar>x\<bar>\<rfloor> + 1)"
  using floor_log_eq_powr_iff[of "\<bar>x\<bar>" 2 "\<lfloor>log 2 \<bar>x\<bar>\<rfloor>"] assms by simp_all

text \<open>The scaled value is below \<open>2 ^ 53\<close> in absolute value.\<close>

lemma scaled_less:
  assumes "x \<noteq> 0"
  shows "\<bar>x\<bar> / ulp64 x < 2 ^ 53"
proof -
  have "\<lfloor>log 2 \<bar>x\<bar>\<rfloor> + 1 \<le> expo64 x + 53" using assms by (simp add: expo64_def)
  then have "(2::real) powr of_int (\<lfloor>log 2 \<bar>x\<bar>\<rfloor> + 1) \<le> 2 powr of_int (expo64 x + 53)"
    by (intro powr_mono) simp_all
  also have "\<dots> = ulp64 x * 2 ^ 53"
    by (simp add: ulp64_def powr_add powr_realpow[symmetric])
  finally have "\<bar>x\<bar> < ulp64 x * 2 ^ 53" using log_bounds(2)[OF assms] by simp
  then show ?thesis using ulp64_pos[of x] by (simp add: field_simps)
qed

lemma round_scaled_le: "\<bar>round_even (x / ulp64 x)\<bar> \<le> 2 ^ 53"
proof (cases "x = 0")
  case True
  then show ?thesis by (simp add: round_even_def)
next
  case False
  have "\<bar>x / ulp64 x\<bar> = \<bar>x\<bar> / ulp64 x" using ulp64_pos[of x] by simp
  with scaled_less[OF False] have "x / ulp64 x \<le> 2 ^ 53" "- (2 ^ 53) \<le> x / ulp64 x"
    by linarith+
  then have "x / ulp64 x \<le> of_int (2 ^ 53)" "of_int (- (2 ^ 53)) \<le> x / ulp64 x" by simp_all
  from round_even_le[OF this(1)] round_even_ge[OF this(2)] show ?thesis by simp
qed

text \<open>A number \<open>m * 2 ^ e\<close> with \<open>\<bar>m\<bar> \<le> 2 ^ 53\<close> and \<open>e \<ge> -1074\<close> is kept.\<close>

lemma rnd64_repr:
  assumes x: "x = of_int m * 2 powr of_int e" and m: "\<bar>m\<bar> \<le> 2 ^ 53" and e: "- 1074 \<le> e"
  shows "rnd64 x = x"
proof (cases "x = 0")
  case True
  then show ?thesis by (simp add: rnd64_0)
next
  case False
  define u where "u = ulp64 x"
  define p where "p = (2::real) powr of_int e"
  have u: "0 < u" "u = 2 powr of_int (expo64 x)" by (simp_all add: u_def ulp64_def)
  have p: "0 < p" by (simp add: p_def)
  have xp: "x = of_int m * p" by (simp add: x p_def)
  have ax: "\<bar>x\<bar> = of_int \<bar>m\<bar> * p" using p by (simp add: xp abs_mult)
  have "\<exists>k::int. x = of_int k * u"
  proof (cases "expo64 x \<le> e")
    case True
    then obtain n where n: "e - expo64 x = int n" using nonneg_int_cases[of "e - expo64 x"] by auto
    have "p = 2 powr of_int (expo64 x) * (2::real) powr of_int (e - expo64 x)"
      unfolding p_def by (simp add: powr_add[symmetric])
    also have "(2::real) powr of_int (e - expo64 x) = 2 ^ n" by (simp add: n powr_realpow)
    finally have "p = u * 2 ^ n" by (simp add: u(2))
    then have "x = of_int (m * 2 ^ n) * u" unfolding xp by simp
    then show ?thesis by blast
  next
    case g: False
    then have "e + 53 \<le> \<lfloor>log 2 \<bar>x\<bar>\<rfloor>" using False e by (simp add: expo64_def split: if_splits)
    then have "(2::real) powr of_int (e + 53) \<le> 2 powr of_int \<lfloor>log 2 \<bar>x\<bar>\<rfloor>"
      by (intro powr_mono) simp_all
    also have "\<dots> \<le> \<bar>x\<bar>" by (rule log_bounds(1)[OF False])
    also have "\<dots> = of_int \<bar>m\<bar> * p" by (rule ax)
    finally have "p * (2::real) ^ 53 \<le> of_int \<bar>m\<bar> * p"
      by (simp add: p_def powr_add powr_realpow[symmetric])
    then have "(2::real) ^ 53 \<le> of_int \<bar>m\<bar>" using p by simp
    then have "(2::int) ^ 53 \<le> \<bar>m\<bar>" using of_int_le_iff[of "2 ^ 53" "\<bar>m\<bar>", where ?'a = real] by simp
    then have am: "\<bar>m\<bar> = 2 ^ 53" using m by simp
    have "\<bar>x\<bar> = 2 powr of_int (e + 53)"
      unfolding ax am by (simp add: p_def powr_add powr_realpow[symmetric])
    then have "log 2 \<bar>x\<bar> = of_int (e + 53)" by simp
    then have "\<lfloor>log 2 \<bar>x\<bar>\<rfloor> = e + 53" by (simp del: of_int_add)
    then have ex: "expo64 x = e + 1" using False e by (simp add: expo64_def)
    have "u = p * 2" unfolding u(2) ex p_def by (simp add: powr_add)
    moreover from am have "m = 2 ^ 53 \<or> m = - (2 ^ 53)" by auto
    ultimately have "x = of_int (2 ^ 52) * u \<or> x = of_int (- (2 ^ 52)) * u"
      unfolding xp by auto
    then show ?thesis by blast
  qed
  then obtain k :: int where k: "x = of_int k * u" by blast
  then have "x / u = of_int k" using u(1) by simp
  then show ?thesis unfolding rnd64_def u_def[symmetric] using k by (simp add: round_even_int)
qed

lemma rnd64_is_repr:
  "\<exists>m e. rnd64 x = of_int m * 2 powr of_int e \<and> \<bar>m\<bar> \<le> 2 ^ 53 \<and> - 1074 \<le> e"
proof -
  have "- 1074 \<le> expo64 x" by (simp add: expo64_def)
  then show ?thesis using round_scaled_le[of x] unfolding rnd64_def ulp64_def by blast
qed

lemma rnd64_idem: "rnd64 (rnd64 x) = rnd64 x"
proof -
  from rnd64_is_repr[of x] obtain m e where
    "rnd64 x = of_int m * 2 powr of_int e" "\<bar>m\<bar> \<le> 2 ^ 53" "- 1074 \<le> e" by blast
  then show ?thesis by (rule rnd64_repr)
qed

lemma rnd64_double:
  assumes "rnd64 x = x"
  shows "rnd64 (2 * x) = 2 * x"
proof -
  from rnd64_is_repr[of x] assms obtain m e where
    r: "x = of_int m * 2 powr of_int e" "\<bar>m\<bar> \<le> 2 ^ 53" "- 1074 \<le> e" by auto
  have a: "2 * x = of_int m * 2 powr of_int (e + 1)" by (simp add: r(1) powr_add)
  have b: "- 1074 \<le> e + 1" using r(3) by simp
  show ?thesis by (rule rnd64_repr[OF a r(2) b])
qed

lemma expo64_mono:
  assumes "0 < x" "x \<le> y"
  shows "expo64 x \<le> expo64 y"
proof -
  have "log 2 x \<le> log 2 y" using assms by simp
  then have "\<lfloor>log 2 x\<rfloor> \<le> \<lfloor>log 2 y\<rfloor>" by (rule floor_mono)
  then show ?thesis using assms by (simp add: expo64_def)
qed

lemma rnd64_mono_pos:
  assumes "0 < x" "x \<le> y"
  shows "rnd64 x \<le> rnd64 y"
proof (cases "expo64 x = expo64 y")
  case True
  then have u: "ulp64 y = ulp64 x" by (simp add: ulp64_def)
  have "x / ulp64 x \<le> y / ulp64 x" using assms ulp64_pos[of x] by (simp add: divide_right_mono)
  from round_even_mono[OF this] show ?thesis
    unfolding rnd64_def u using ulp64_pos[of x] by (simp add: mult_right_mono)
next
  case False
  then have lt: "expo64 x < expo64 y" using expo64_mono[OF assms] by simp
  have y: "0 < y" "y \<noteq> 0" "x \<noteq> 0" using assms by simp_all
  have "- 1074 \<le> expo64 x" by (simp add: expo64_def)
  then have "- 1074 < expo64 y" using lt by simp
  then have ey: "expo64 y = \<lfloor>log 2 \<bar>y\<bar>\<rfloor> - 52" using y(2) by (auto simp: expo64_def max_def split: if_splits)
  have "ulp64 y * 2 ^ 52 = 2 powr of_int (expo64 y + 52)"
    by (simp add: ulp64_def powr_add powr_realpow[symmetric])
  also have "\<dots> = 2 powr of_int \<lfloor>log 2 \<bar>y\<bar>\<rfloor>" by (simp add: ey)
  also have "\<dots> \<le> \<bar>y\<bar>" by (rule log_bounds(1)[OF y(2)])
  finally have "of_int (2 ^ 52) \<le> y / ulp64 y" using ulp64_pos[of y] y by (simp add: field_simps)
  from round_even_ge[OF this] have "2 ^ 52 * ulp64 y \<le> rnd64 y"
    unfolding rnd64_def using ulp64_pos[of y]
    by (metis mult_right_mono less_imp_le of_int_le_iff of_int_numeral of_int_power)
  moreover have "2 * ulp64 x \<le> ulp64 y"
  proof -
    have "expo64 x + 1 \<le> expo64 y" using lt by simp
    then have "(2::real) powr of_int (expo64 x + 1) \<le> 2 powr of_int (expo64 y)"
      by (intro powr_mono) simp_all
    then show ?thesis by (simp add: ulp64_def powr_add)
  qed
  moreover have "rnd64 x \<le> 2 ^ 53 * ulp64 x"
  proof -
    from scaled_less[OF y(3)] have "x / ulp64 x \<le> of_int (2 ^ 53)" using assms(1) by simp
    from round_even_le[OF this] show ?thesis
      unfolding rnd64_def using ulp64_pos[of x]
      by (metis mult_right_mono less_imp_le of_int_le_iff of_int_numeral of_int_power)
  qed
  ultimately show ?thesis by simp
qed

lemma rnd64_mono:
  assumes "x \<le> y"
  shows "rnd64 x \<le> rnd64 y"
proof -
  consider "0 < x" | "x \<le> 0" "0 \<le> y" | "y < 0" by linarith
  then show ?thesis
  proof cases
    case 1
    then show ?thesis using assms by (rule rnd64_mono_pos)
  next
    case 2
    have "rnd64 x \<le> 0" using rnd64_nonneg[of "- x"] 2(1) by (simp add: rnd64_minus)
    then show ?thesis using rnd64_nonneg[OF 2(2)] by simp
  next
    case 3
    have "rnd64 (- y) \<le> rnd64 (- x)" using 3 assms by (intro rnd64_mono_pos) simp_all
    then show ?thesis by (simp add: rnd64_minus)
  qed
qed

lemma rnd64_dyadic:
  assumes "\<bar>x\<bar> \<le> 2 ^ 32" "x * 2 ^ 20 \<in> \<int>"
  shows "rnd64 x = x"
proof -
  from assms(2) obtain m :: int where m: "x * 2 ^ 20 = of_int m" by (auto elim: Ints_cases)
  have "\<bar>x\<bar> * 2 ^ 20 \<le> 2 ^ 32 * 2 ^ 20" using assms(1) by (intro mult_right_mono) simp_all
  then have "\<bar>of_int m :: real\<bar> \<le> 2 ^ 52" using m[symmetric] by (simp add: abs_mult)
  then have "\<bar>m\<bar> \<le> 2 ^ 52" using of_int_le_iff[of "\<bar>m\<bar>" "2 ^ 52", where ?'a = real] by simp
  then have b: "\<bar>m\<bar> \<le> 2 ^ 53" by simp
  have "(2::real) powr of_int (- 20) = 1 / 2 ^ 20"
    using powr_realpow[of 2 20] by (simp add: powr_minus field_simps)
  then have "x = of_int m * 2 powr of_int (- 20)" using m[symmetric] by simp
  then show ?thesis using b by (rule rnd64_repr) simp
qed

lemma rnd64_pow2: "rnd64 (2 ^ n) = 2 ^ n" "rnd64 (- (2 ^ n)) = - (2 ^ n)"
proof -
  have "(2::real) ^ n = of_int 1 * 2 powr of_int (int n)" by (simp add: powr_realpow)
  then show "rnd64 (2 ^ n) = 2 ^ n" by (rule rnd64_repr) simp_all
  then show "rnd64 (- (2 ^ n)) = - (2 ^ n)" by (simp add: rnd64_minus)
qed

lemma binary64_sel [simp]: "rnd binary64 = rnd64" "maxf binary64 = binary64_max"
  by (simp_all add: binary64_def)

lemma ieee_binary64: "ieee binary64"
  unfolding ieee_def binary64_sel
  using binary64_max_ge rnd64_0 rnd64_mono rnd64_idem rnd64_double by auto

text \<open>
  The numbers of the examples are multiples of \<open>2 ^ -20\<close> of small magnitude, or
  powers of two: numbers of binary64.
\<close>

lemma float_binary64:
  assumes "\<bar>x\<bar> \<le> 1024" "x * 2 ^ 20 \<in> \<int>"
  shows "is_float binary64 x"
proof -
  have "\<bar>x\<bar> \<le> 2 ^ 32" using assms(1) by simp
  then have "rnd64 x = x" using assms(2) by (rule rnd64_dyadic)
  then show ?thesis using assms(1) binary64_max_ge by (simp add: is_float_def)
qed

lemma fin_binary64: "\<bar>x\<bar> \<le> 1024 \<Longrightarrow> x * 2 ^ 20 \<in> \<int> \<Longrightarrow> fin binary64 x = Fin x"
  by (rule fin_float) (rule float_binary64)

lemma float_pow2: "is_float binary64 (2 ^ 1023)" "is_float binary64 (- (2 ^ 1023))"
  using binary64_max_bounds(1) by (simp_all add: is_float_def rnd64_pow2 del: power_numeral)

lemma fin_overflow: "fin binary64 (2 ^ 1024) = PInf"
  using binary64_max_bounds(2) by (simp add: fin_def rnd64_pow2 del: power_numeral)

section \<open>Facts about the kernels\<close>

lemma fmin_Fin: "fmin (Fin a) (Fin b) = Fin (min a b)"
  by (simp add: fmin_def min_def)

lemma fmax_Fin: "fmax (Fin a) (Fin b) = Fin (max a b)"
  by (simp add: fmax_def max_def)

lemma correct_idle:
  assumes "\<not> flt hl (Fin 0)" "\<not> flt hr (Fin 0)"
  shows "correct_neg_depth_internal ar hc hl hr hl hr = (hl, hr)"
  using assms by (simp add: correct_neg_depth_internal_def)

lemma correct_fires:
  assumes "flt hl (Fin 0) \<or> flt hr (Fin 0)"
  shows "fst (correct_neg_depth_internal ar hc hl hr hl hr) = Fin 0
            \<and> snd (correct_neg_depth_internal ar hc hl hr hl hr) = fmul ar hc (Fin 2)
          \<or> snd (correct_neg_depth_internal ar hc hl hr hl hr) = Fin 0
            \<and> fst (correct_neg_depth_internal ar hc hl hr hl hr) = fmul ar hc (Fin 2)"
  using assms by (auto simp: correct_neg_depth_internal_def)

lemma minmod_flat:
  assumes "ieee ar"
  shows "minmod_slope_kernel ar (Fin c) (Fin c) (Fin c) (Fin t) = Fin 0"
  using assms ieeeD(1)[OF assms]
  by (simp add: minmod_slope_kernel_def fsub_def fmin_def fmax_def Let_def fin_0)

section \<open>Facts about slices, views and the array helpers\<close>

lemma py_index_0 [simp]: "py_index n 0 = (if 0 < n then Some 0 else None)"
  by (simp add: py_index_def)

lemma py_index_1 [simp]: "py_index n 1 = (if 1 < n then Some 1 else None)"
  by (simp add: py_index_def)

lemma py_index_2 [simp]: "py_index n 2 = (if 2 < n then Some 2 else None)"
  by (simp add: py_index_def)

lemma py_index_lt: "py_index n k = Some k' \<Longrightarrow> k' < n"
  by (auto simp: py_index_def split: if_splits)

lemma sl_all_simps [simp]: "sl_start n sl_all = 0" "sl_len n sl_all = n"
  by (simp_all add: sl_start_def sl_len_def sl_stop_def)

lemma sl_to_start [simp]: "sl_start n (sl_to k) = 0"
  by (simp add: sl_start_def)

lemma sl_from1: "i < sl_len n (sl_from 1) \<Longrightarrow> sl_start n (sl_from 1) = 1 \<and> Suc i < n"
  by (auto simp: sl_start_def sl_len_def sl_stop_def norm_bound_def)

lemma sl_in_range: "i < sl_len n s \<Longrightarrow> sl_start n s + i < n"
  by (auto simp: sl_len_def sl_stop_def norm_bound_def split: option.splits if_splits)

lemma sl_to_len_le: "sl_len n (sl_to k) \<le> n"
  by (auto simp: sl_len_def sl_stop_def sl_start_def norm_bound_def)

lemma sl_to_not_index:
  "i < sl_len n (sl_to k) \<Longrightarrow> py_index n k = Some k' \<Longrightarrow> i < k'"
  by (auto simp: sl_len_def sl_stop_def sl_start_def norm_bound_def py_index_def split: if_splits)

lemma fix_rounding_SomeD:
  assumes "fix_rounding t a = Some a'"
  shows "comps3 a' = comps3 a" "rows3 a' = rows3 a" "cols3 a' = cols3 a" "0 < comps3 a"
    "at3 a' = (\<lambda>d j i. if d = 0 \<and> j < rows3 a \<and> i < cols3 a
                then fix_rounding_err_kernel (at3 a 0 j i) t (at3 a 0 j i) else at3 a d j i)"
  using assms
  by (auto simp: fix_rounding_def sub2_def put_sub2_def ew1_2_def fun_eq_iff split: if_splits)

lemma face_depth_SomeD:
  assumes "face_depth ar q b u = Some u'"
  shows "comps3 u' = comps3 u" "rows3 u' = rows3 u" "cols3 u' = cols3 u" "0 < comps3 u" "0 < comps3 q"
    "rows3 q = rows3 u" "cols3 q = cols3 u" "rows2 b = rows3 u" "cols2 b = cols3 u"
    "at3 u' = (\<lambda>d j i. if d = 0 \<and> j < rows3 u \<and> i < cols3 u
                then fsub ar (at3 q 0 j i) (at2 b j i) else at3 u d j i)"
  using assms
  by (auto simp: face_depth_def sub2_def put_sub2_def ew2_2_def same2_def bind_eq_Some_conv fun_eq_iff split: if_splits)

lemma face_vel_SomeD:
  assumes "face_vel ar dt q u = Some u'"
  shows "comps3 u' = comps3 u" "rows3 u' = rows3 u" "cols3 u' = cols3 u" "2 < comps3 u" "2 < comps3 q"
    "rows3 q = rows3 u" "cols3 q = cols3 u"
    "at3 u' = (\<lambda>d j i. if j < rows3 u \<and> i < cols3 u \<and> d = 1
                then fst (recnstrt_face_vel_kernel ar (at3 u 0 j i) (at3 q 1 j i) (at3 q 2 j i) dt)
                else if j < rows3 u \<and> i < cols3 u \<and> d = 2
                then snd (recnstrt_face_vel_kernel ar (at3 u 0 j i) (at3 q 1 j i) (at3 q 2 j i) dt)
                else at3 u d j i)"
  using assms
  by (auto simp: face_vel_def sub2_def put_sub2_def ew3_2_def same2_def bind_eq_Some_conv fun_eq_iff split: if_splits)

lemma face_cons_SomeD:
  assumes "face_cons ar u b q = Some q'"
  shows "comps3 q' = comps3 q" "rows3 q' = rows3 q" "cols3 q' = cols3 q" "2 < comps3 u" "2 < comps3 q"
    "rows3 q = rows3 u" "cols3 q = cols3 u" "rows2 b = rows3 u" "cols2 b = cols3 u"
    "at3 q' = (\<lambda>d j i. if j < rows3 u \<and> i < cols3 u \<and> d = 0
                then fadd ar (at3 u 0 j i) (at2 b j i)
                else if j < rows3 u \<and> i < cols3 u \<and> d = 1
                then fmul ar (at3 u 0 j i) (at3 u 1 j i)
                else if j < rows3 u \<and> i < cols3 u \<and> d = 2
                then fmul ar (at3 u 0 j i) (at3 u 2 j i)
                else at3 q d j i)"
  using assms
  by (auto simp: face_cons_def sub2_def put_sub2_def ew4_2_def same2_def bind_eq_Some_conv fun_eq_iff
      recnstrt_face_conservatives_def split: if_splits)

lemma edge_col_SomeD:
  assumes "edge_col k a = Some a'"
  shows "comps3 a' = comps3 a" "rows3 a' = rows3 a" "cols3 a' = cols3 a" "0 < comps3 a"
    "\<exists>k'. py_index (cols3 a) k = Some k' \<and>
       at3 a' = (\<lambda>d j i. if d = 0 \<and> j < rows3 a \<and> i = k'
                then correct_neg_depth_edge (at3 a 0 j k') (at3 a 0 j k') else at3 a d j i)"
  using assms
  by (auto simp: edge_col_def col1_def put_col1_def ew1_1_def bind_eq_Some_conv fun_eq_iff split: if_splits option.splits)

lemma edge_row_SomeD:
  assumes "edge_row k a = Some a'"
  shows "comps3 a' = comps3 a" "rows3 a' = rows3 a" "cols3 a' = cols3 a" "0 < comps3 a"
    "\<exists>k'. py_index (rows3 a) k = Some k' \<and>
       at3 a' = (\<lambda>d j i. if d = 0 \<and> j = k' \<and> i < cols3 a
                then correct_neg_depth_edge (at3 a 0 k' i) (at3 a 0 k' i) else at3 a d j i)"
  using assms
  by (auto simp: edge_row_def row1_def put_row1_def ew1_1_def bind_eq_Some_conv fun_eq_iff split: if_splits option.splits)

section \<open>What each stage computes\<close>

lemma face_pipeline:
  assumes "fix_rounding t u = Some u1" "face_vel ar dt q u1 = Some u2" "face_cons ar u2 b q = Some q2"
    and "j < rows3 u2" "i < cols3 u2"
  shows "at3 u2 0 j i = fix_rounding_err_kernel (at3 u 0 j i) t (at3 u 0 j i)"
    "at3 u2 (Suc 0) j i = fst (recnstrt_face_vel_kernel ar (at3 u2 0 j i) (at3 q 1 j i) (at3 q 2 j i) dt)"
    "at3 u2 2 j i = snd (recnstrt_face_vel_kernel ar (at3 u2 0 j i) (at3 q 1 j i) (at3 q 2 j i) dt)"
    "at3 q2 0 j i = fadd ar (at3 u2 0 j i) (at2 b j i)"
    "at3 q2 (Suc 0) j i = fmul ar (at3 u2 0 j i) (at3 u2 1 j i)"
    "at3 q2 2 j i = fmul ar (at3 u2 0 j i) (at3 u2 2 j i)"
  using assms fix_rounding_SomeD[OF assms(1)] face_vel_SomeD[OF assms(2)] face_cons_SomeD[OF assms(3)]
  by simp_all

lemma face_pipeline_shape:
  assumes "fix_rounding t u = Some u1" "face_vel ar dt q u1 = Some u2" "face_cons ar u2 b q = Some q2"
  shows "rows3 u2 = rows3 u" "cols3 u2 = cols3 u" "rows3 q2 = rows3 u" "cols3 q2 = cols3 u"
    "rows2 b = rows3 u" "cols2 b = cols3 u" "rows3 q = rows3 u" "cols3 q = cols3 u"
  using fix_rounding_SomeD[OF assms(1)] face_vel_SomeD[OF assms(2)] face_cons_SomeD[OF assms(3)]
  by simp_all

lemma fix_rounding_err_SomeD:
  assumes "fix_rounding_err st rt = Some st'"
  shows "\<exists>a b c d. st' = st\<lparr>xmU := a, xpU := b, ymU := c, ypU := d\<rparr>
    \<and> fix_rounding (tol rt) (xmU st) = Some a \<and> fix_rounding (tol rt) (xpU st) = Some b
    \<and> fix_rounding (tol rt) (ymU st) = Some c \<and> fix_rounding (tol rt) (ypU st) = Some d"
  using assms by (auto simp: fix_rounding_err_def bind_eq_Some_conv)

lemma recnstrt_face_vel_SomeD:
  assumes "recnstrt_face_vel ar st cfg = Some st'"
  shows "\<exists>a b c d. st' = st\<lparr>xmU := a, xpU := b, ymU := c, ypU := d\<rparr>
    \<and> face_vel ar (drytol (params cfg)) (xmQ st) (xmU st) = Some a
    \<and> face_vel ar (drytol (params cfg)) (xpQ st) (xpU st) = Some b
    \<and> face_vel ar (drytol (params cfg)) (ymQ st) (ymU st) = Some c
    \<and> face_vel ar (drytol (params cfg)) (ypQ st) (ypU st) = Some d"
  using assms by (auto simp: recnstrt_face_vel_def bind_eq_Some_conv)

lemma recnstrt_face_cons_SomeD:
  assumes "recnstrt_face_cons ar st rt = Some st'"
  shows "\<exists>a b c d. st' = st\<lparr>xmQ := a, xpQ := b, ymQ := c, ypQ := d\<rparr>
    \<and> face_cons ar (xmU st) (xfcenters (topo rt)) (xmQ st) = Some a
    \<and> face_cons ar (xpU st) (xfcenters (topo rt)) (xpQ st) = Some b
    \<and> face_cons ar (ymU st) (yfcenters (topo rt)) (ymQ st) = Some c
    \<and> face_cons ar (ypU st) (yfcenters (topo rt)) (ypQ st) = Some d"
  using assms by (auto simp: recnstrt_face_cons_def bind_eq_Some_conv)

lemma reconstruct_faces:
  assumes "reconstruct ar st rt cfg = Some (st', rt')"
  shows "\<exists>c. corrected_depths ar st rt cfg = Some c \<and> rt' = rt
      \<and> Q st' = Q c \<and> H st' = H c \<and> U st' = U c \<and> ngh st' = ngh c
      \<and> (\<exists>u1. fix_rounding (tol rt) (xmU c) = Some u1
            \<and> face_vel ar (drytol (params cfg)) (xmQ c) u1 = Some (xmU st')
            \<and> face_cons ar (xmU st') (xfcenters (topo rt)) (xmQ c) = Some (xmQ st'))
      \<and> (\<exists>u1. fix_rounding (tol rt) (xpU c) = Some u1
            \<and> face_vel ar (drytol (params cfg)) (xpQ c) u1 = Some (xpU st')
            \<and> face_cons ar (xpU st') (xfcenters (topo rt)) (xpQ c) = Some (xpQ st'))
      \<and> (\<exists>u1. fix_rounding (tol rt) (ymU c) = Some u1
            \<and> face_vel ar (drytol (params cfg)) (ymQ c) u1 = Some (ymU st')
            \<and> face_cons ar (ymU st') (yfcenters (topo rt)) (ymQ c) = Some (ymQ st'))
      \<and> (\<exists>u1. fix_rounding (tol rt) (ypU c) = Some u1
            \<and> face_vel ar (drytol (params cfg)) (ypQ c) u1 = Some (ypU st')
            \<and> face_cons ar (ypU st') (yfcenters (topo rt)) (ypQ c) = Some (ypQ st'))"
proof -
  from assms obtain c s5 s6 where c: "corrected_depths ar st rt cfg = Some c"
    and s5: "fix_rounding_err c rt = Some s5" and s6: "recnstrt_face_vel ar s5 cfg = Some s6"
    and s7: "recnstrt_face_cons ar s6 rt = Some st'" and rt: "rt' = rt"
    by (auto simp: reconstruct_def bind_eq_Some_conv)
  from fix_rounding_err_SomeD[OF s5] recnstrt_face_vel_SomeD[OF s6] recnstrt_face_cons_SomeD[OF s7]
  show ?thesis using c rt by auto
qed

lemma fix_neg_depth_x_frame:
  assumes "fix_neg_depth_x ar st = Some st'"
  shows "\<exists>a b. st' = st\<lparr>xpU := a, xmU := b\<rparr>"
  using assms by (auto simp: fix_neg_depth_x_def bind_eq_Some_conv)

lemma fix_neg_depth_y_frame:
  assumes "fix_neg_depth_y ar st = Some st'"
  shows "\<exists>a b. st' = st\<lparr>ypU := a, ymU := b\<rparr>"
  using assms by (auto simp: fix_neg_depth_y_def bind_eq_Some_conv)

lemma fix_neg_depth_x_cell:
  assumes "fix_neg_depth_x ar st = Some st'" and j: "j < rows2 (H st)" and i: "i < cols2 (H st)"
  shows "at3 (xpU st') 0 j i =
           fst (correct_neg_depth_internal ar (at2 (H st) j i) (at3 (xpU st) 0 j i)
                  (at3 (xmU st) 0 j (Suc i)) (at3 (xpU st) 0 j i) (at3 (xmU st) 0 j (Suc i)))"
    and "at3 (xmU st') 0 j (Suc i) =
           snd (correct_neg_depth_internal ar (at2 (H st) j i) (at3 (xpU st) 0 j i)
                  (at3 (xmU st) 0 j (Suc i)) (at3 (xpU st) 0 j i) (at3 (xmU st) 0 j (Suc i)))"
proof -
  from assms(1) obtain hl hr nhl nhr p m p' m' where
    hl: "sub2 0 sl_all (sl_to (nx st)) (xpU st) = Some hl"
    and hr: "sub2 0 sl_all (sl_from 1) (xmU st) = Some hr"
    and nhl: "ew3_2 (\<lambda>hc l r. fst (correct_neg_depth_internal ar hc l r l r)) (H st) hl hr = Some nhl"
    and nhr: "ew3_2 (\<lambda>hc l r. snd (correct_neg_depth_internal ar hc l r l r)) (H st) hl hr = Some nhr"
    and p: "put_sub2 0 sl_all (sl_to (nx st)) (xpU st) nhl = Some p"
    and m: "put_sub2 0 sl_all (sl_from 1) (xmU st) nhr = Some m"
    and p': "edge_col (nx st) p = Some p'"
    and m': "edge_col 0 m = Some m'"
    and st': "st' = st\<lparr>xpU := p', xmU := m'\<rparr>"
    by (auto simp: fix_neg_depth_x_def bind_eq_Some_conv)
  from hl have hl_eq: "rows2 hl = rows3 (xpU st)" "cols2 hl = sl_len (cols3 (xpU st)) (sl_to (nx st))"
    "at2 hl = (\<lambda>j i. at3 (xpU st) 0 j i)" "0 < comps3 (xpU st)"
    by (auto simp: sub2_def split: if_splits)
  from hr have hr_eq: "rows2 hr = rows3 (xmU st)" "cols2 hr = sl_len (cols3 (xmU st)) (sl_from 1)"
    "at2 hr = (\<lambda>j i. at3 (xmU st) 0 j (sl_start (cols3 (xmU st)) (sl_from 1) + i))" "0 < comps3 (xmU st)"
    by (auto simp: sub2_def split: if_splits)
  from nhl have sh: "rows2 hl = rows2 (H st)" "cols2 hl = cols2 (H st)"
    "rows2 hr = rows2 (H st)" "cols2 hr = cols2 (H st)"
    and nhl_eq: "rows2 nhl = rows2 (H st)" "cols2 nhl = cols2 (H st)"
    "at2 nhl = (\<lambda>j i. fst (correct_neg_depth_internal ar (at2 (H st) j i) (at2 hl j i) (at2 hr j i)
        (at2 hl j i) (at2 hr j i)))"
    by (auto simp: ew3_2_def same2_def split: if_splits)
  from nhr have nhr_eq: "rows2 nhr = rows2 (H st)" "cols2 nhr = cols2 (H st)"
    "at2 nhr = (\<lambda>j i. snd (correct_neg_depth_internal ar (at2 (H st) j i) (at2 hl j i) (at2 hr j i)
        (at2 hl j i) (at2 hr j i)))"
    by (auto simp: ew3_2_def same2_def split: if_splits)
  have i1: "sl_start (cols3 (xmU st)) (sl_from 1) = 1" "Suc i < cols3 (xmU st)"
    using sl_from1[of i "cols3 (xmU st)"] i hr_eq sh by simp_all
  from p have p_eq: "comps3 p = comps3 (xpU st)" "rows3 p = rows3 (xpU st)" "cols3 p = cols3 (xpU st)"
    "at3 p 0 j i = at2 nhl j i"
    using j i hl_eq sh nhl_eq by (auto simp: put_sub2_def split: if_splits)
  from m have m_eq: "comps3 m = comps3 (xmU st)" "rows3 m = rows3 (xmU st)" "cols3 m = cols3 (xmU st)"
    "at3 m 0 j (Suc i) = at2 nhr j i"
    using j i hr_eq sh nhr_eq i1 by (auto simp: put_sub2_def split: if_splits)
  from edge_col_SomeD(5)[OF p'] obtain k' where k': "py_index (cols3 p) (nx st) = Some k'"
    and p'_eq: "at3 p' = (\<lambda>d j i. if d = 0 \<and> j < rows3 p \<and> i = k'
                then correct_neg_depth_edge (at3 p 0 j k') (at3 p 0 j k') else at3 p d j i)"
    by blast
  have "i < k'" using sl_to_not_index[of i "cols3 (xpU st)" "nx st" k'] k' i hl_eq sh p_eq by simp
  then have "at3 p' 0 j i = at3 p 0 j i" using p'_eq by simp
  moreover from edge_col_SomeD(5)[OF m'] have "at3 m' 0 j (Suc i) = at3 m 0 j (Suc i)"
    by (auto split: if_splits)
  ultimately show "at3 (xpU st') 0 j i =
           fst (correct_neg_depth_internal ar (at2 (H st) j i) (at3 (xpU st) 0 j i)
                  (at3 (xmU st) 0 j (Suc i)) (at3 (xpU st) 0 j i) (at3 (xmU st) 0 j (Suc i)))"
    and "at3 (xmU st') 0 j (Suc i) =
           snd (correct_neg_depth_internal ar (at2 (H st) j i) (at3 (xpU st) 0 j i)
                  (at3 (xmU st) 0 j (Suc i)) (at3 (xpU st) 0 j i) (at3 (xmU st) 0 j (Suc i)))"
    using st' p_eq m_eq nhl_eq nhr_eq hl_eq hr_eq i1 by simp_all
qed

lemma fix_neg_depth_y_cell:
  assumes "fix_neg_depth_y ar st = Some st'" and j: "j < rows2 (H st)" and i: "i < cols2 (H st)"
  shows "at3 (ypU st') 0 j i =
           fst (correct_neg_depth_internal ar (at2 (H st) j i) (at3 (ypU st) 0 j i)
                  (at3 (ymU st) 0 (Suc j) i) (at3 (ypU st) 0 j i) (at3 (ymU st) 0 (Suc j) i))"
    and "at3 (ymU st') 0 (Suc j) i =
           snd (correct_neg_depth_internal ar (at2 (H st) j i) (at3 (ypU st) 0 j i)
                  (at3 (ymU st) 0 (Suc j) i) (at3 (ypU st) 0 j i) (at3 (ymU st) 0 (Suc j) i))"
proof -
  from assms(1) obtain hl hr nhl nhr p m p' m' where
    hl: "sub2 0 (sl_to (ny st)) sl_all (ypU st) = Some hl"
    and hr: "sub2 0 (sl_from 1) sl_all (ymU st) = Some hr"
    and nhl: "ew3_2 (\<lambda>hc l r. fst (correct_neg_depth_internal ar hc l r l r)) (H st) hl hr = Some nhl"
    and nhr: "ew3_2 (\<lambda>hc l r. snd (correct_neg_depth_internal ar hc l r l r)) (H st) hl hr = Some nhr"
    and p: "put_sub2 0 (sl_to (ny st)) sl_all (ypU st) nhl = Some p"
    and m: "put_sub2 0 (sl_from 1) sl_all (ymU st) nhr = Some m"
    and p': "edge_row (ny st) p = Some p'"
    and m': "edge_row 0 m = Some m'"
    and st': "st' = st\<lparr>ypU := p', ymU := m'\<rparr>"
    by (auto simp: fix_neg_depth_y_def bind_eq_Some_conv)
  from hl have hl_eq: "cols2 hl = cols3 (ypU st)" "rows2 hl = sl_len (rows3 (ypU st)) (sl_to (ny st))"
    "at2 hl = (\<lambda>j i. at3 (ypU st) 0 j i)" "0 < comps3 (ypU st)"
    by (auto simp: sub2_def split: if_splits)
  from hr have hr_eq: "cols2 hr = cols3 (ymU st)" "rows2 hr = sl_len (rows3 (ymU st)) (sl_from 1)"
    "at2 hr = (\<lambda>j i. at3 (ymU st) 0 (sl_start (rows3 (ymU st)) (sl_from 1) + j) i)" "0 < comps3 (ymU st)"
    by (auto simp: sub2_def split: if_splits)
  from nhl have sh: "rows2 hl = rows2 (H st)" "cols2 hl = cols2 (H st)"
    "rows2 hr = rows2 (H st)" "cols2 hr = cols2 (H st)"
    and nhl_eq: "rows2 nhl = rows2 (H st)" "cols2 nhl = cols2 (H st)"
    "at2 nhl = (\<lambda>j i. fst (correct_neg_depth_internal ar (at2 (H st) j i) (at2 hl j i) (at2 hr j i)
        (at2 hl j i) (at2 hr j i)))"
    by (auto simp: ew3_2_def same2_def split: if_splits)
  from nhr have nhr_eq: "rows2 nhr = rows2 (H st)" "cols2 nhr = cols2 (H st)"
    "at2 nhr = (\<lambda>j i. snd (correct_neg_depth_internal ar (at2 (H st) j i) (at2 hl j i) (at2 hr j i)
        (at2 hl j i) (at2 hr j i)))"
    by (auto simp: ew3_2_def same2_def split: if_splits)
  have j1: "sl_start (rows3 (ymU st)) (sl_from 1) = 1" "Suc j < rows3 (ymU st)"
    using sl_from1[of j "rows3 (ymU st)"] j hr_eq sh by simp_all
  from p have p_eq: "comps3 p = comps3 (ypU st)" "rows3 p = rows3 (ypU st)" "cols3 p = cols3 (ypU st)"
    "at3 p 0 j i = at2 nhl j i"
    using j i hl_eq sh nhl_eq by (auto simp: put_sub2_def split: if_splits)
  from m have m_eq: "comps3 m = comps3 (ymU st)" "rows3 m = rows3 (ymU st)" "cols3 m = cols3 (ymU st)"
    "at3 m 0 (Suc j) i = at2 nhr j i"
    using j i hr_eq sh nhr_eq j1 by (auto simp: put_sub2_def split: if_splits)
  from edge_row_SomeD(5)[OF p'] obtain k' where k': "py_index (rows3 p) (ny st) = Some k'"
    and p'_eq: "at3 p' = (\<lambda>d j i. if d = 0 \<and> j = k' \<and> i < cols3 p
                then correct_neg_depth_edge (at3 p 0 k' i) (at3 p 0 k' i) else at3 p d j i)"
    by blast
  have "j < k'" using sl_to_not_index[of j "rows3 (ypU st)" "ny st" k'] k' j hl_eq sh p_eq by simp
  then have "at3 p' 0 j i = at3 p 0 j i" using p'_eq by simp
  moreover from edge_row_SomeD(5)[OF m'] have "at3 m' 0 (Suc j) i = at3 m 0 (Suc j) i"
    by (auto split: if_splits)
  ultimately show "at3 (ypU st') 0 j i =
           fst (correct_neg_depth_internal ar (at2 (H st) j i) (at3 (ypU st) 0 j i)
                  (at3 (ymU st) 0 (Suc j) i) (at3 (ypU st) 0 j i) (at3 (ymU st) 0 (Suc j) i))"
    and "at3 (ymU st') 0 (Suc j) i =
           snd (correct_neg_depth_internal ar (at2 (H st) j i) (at3 (ypU st) 0 j i)
                  (at3 (ymU st) 0 (Suc j) i) (at3 (ypU st) 0 j i) (at3 (ymU st) 0 (Suc j) i))"
    using st' p_eq m_eq nhl_eq nhr_eq hl_eq hr_eq j1 by simp_all
qed

lemma get_slopes_SomeD:
  assumes "get_slopes ar st cfg = Some (slpx, slpy)"
  shows "rows3 slpx = sl_len (rows3 (Q st)) (sl_range (ybg st) (yed st))"
    "cols3 slpx = sl_len (cols3 (Q st)) (sl_range (xbg st - 2) (xed st))"
    "cols3 slpx = sl_len (cols3 (Q st)) (sl_range (xbg st - 1) (xed st + 1))"
    "cols3 slpx = sl_len (cols3 (Q st)) (sl_range (xbg st) (xed st + 2))"
    "at3 slpx = (\<lambda>d j i. minmod_slope_kernel ar
        (at3 (Q st) d (sl_start (rows3 (Q st)) (sl_range (ybg st) (yed st)) + j)
                      (sl_start (cols3 (Q st)) (sl_range (xbg st - 2) (xed st)) + i))
        (at3 (Q st) d (sl_start (rows3 (Q st)) (sl_range (ybg st) (yed st)) + j)
                      (sl_start (cols3 (Q st)) (sl_range (xbg st - 1) (xed st + 1)) + i))
        (at3 (Q st) d (sl_start (rows3 (Q st)) (sl_range (ybg st) (yed st)) + j)
                      (sl_start (cols3 (Q st)) (sl_range (xbg st) (xed st + 2)) + i))
        (theta (params cfg)))"
    "cols3 slpy = sl_len (cols3 (Q st)) (sl_range (xbg st) (xed st))"
    "rows3 slpy = sl_len (rows3 (Q st)) (sl_range (ybg st - 2) (yed st))"
    "rows3 slpy = sl_len (rows3 (Q st)) (sl_range (ybg st - 1) (yed st + 1))"
    "rows3 slpy = sl_len (rows3 (Q st)) (sl_range (ybg st) (yed st + 2))"
    "at3 slpy = (\<lambda>d j i. minmod_slope_kernel ar
        (at3 (Q st) d (sl_start (rows3 (Q st)) (sl_range (ybg st - 2) (yed st)) + j)
                      (sl_start (cols3 (Q st)) (sl_range (xbg st) (xed st)) + i))
        (at3 (Q st) d (sl_start (rows3 (Q st)) (sl_range (ybg st - 1) (yed st + 1)) + j)
                      (sl_start (cols3 (Q st)) (sl_range (xbg st) (xed st)) + i))
        (at3 (Q st) d (sl_start (rows3 (Q st)) (sl_range (ybg st) (yed st + 2)) + j)
                      (sl_start (cols3 (Q st)) (sl_range (xbg st) (xed st)) + i))
        (theta (params cfg)))"
  using assms
  by (auto simp: get_slopes_def ew3_3_def same3_def sub3_def bind_eq_Some_conv split: if_splits)

lemma slpx_flat:
  assumes ar: "ieee ar" and s: "get_slopes ar st cfg = Some (slpx, slpy)" and t: "theta (params cfg) = Fin t"
    and i: "i < cols3 slpx"
    and flat: "\<forall>k<cols3 (Q st).
       at3 (Q st) d (sl_start (rows3 (Q st)) (sl_range (ybg st) (yed st)) + j) k = Fin c"
  shows "at3 slpx d j i = Fin 0"
proof -
  note e = get_slopes_SomeD[OF s]
  have "sl_start (cols3 (Q st)) (sl_range (xbg st - 2) (xed st)) + i < cols3 (Q st)"
    "sl_start (cols3 (Q st)) (sl_range (xbg st - 1) (xed st + 1)) + i < cols3 (Q st)"
    "sl_start (cols3 (Q st)) (sl_range (xbg st) (xed st + 2)) + i < cols3 (Q st)"
    using i e(2,3,4) by (simp_all add: sl_in_range)
  then show ?thesis using flat by (simp add: e(5) t minmod_flat[OF ar])
qed

lemma slpy_flat:
  assumes ar: "ieee ar" and s: "get_slopes ar st cfg = Some (slpx, slpy)" and t: "theta (params cfg) = Fin t"
    and j: "j < rows3 slpy"
    and flat: "\<forall>k<rows3 (Q st).
       at3 (Q st) d k (sl_start (cols3 (Q st)) (sl_range (xbg st) (xed st)) + i) = Fin c"
  shows "at3 slpy d j i = Fin 0"
proof -
  note e = get_slopes_SomeD[OF s]
  have "sl_start (rows3 (Q st)) (sl_range (ybg st - 2) (yed st)) + j < rows3 (Q st)"
    "sl_start (rows3 (Q st)) (sl_range (ybg st - 1) (yed st + 1)) + j < rows3 (Q st)"
    "sl_start (rows3 (Q st)) (sl_range (ybg st) (yed st + 2)) + j < rows3 (Q st)"
    using j e(7,8,9) by (simp_all add: sl_in_range)
  then show ?thesis using flat by (simp add: e(10) t minmod_flat[OF ar])
qed

lemma get_face_Q_SomeD:
  assumes "get_face_Q ar st slpx slpy = Some st'"
  shows "\<exists>a b c d. st' = st\<lparr>xmQ := a, xpQ := b, ymQ := c, ypQ := d\<rparr>"
    "rows3 (xmQ st') = sl_len (rows3 (Q st)) (sl_range (ybg st) (yed st))"
    "cols3 (xmQ st') = sl_len (cols3 (Q st)) (sl_range (xbg st - 1) (xed st))"
    "cols3 (xmQ st') = sl_len (cols3 slpx) (sl_to (nx st + 1))"
    "at3 (xmQ st') = (\<lambda>d j i. fadd ar
        (at3 (Q st) d (sl_start (rows3 (Q st)) (sl_range (ybg st) (yed st)) + j)
                      (sl_start (cols3 (Q st)) (sl_range (xbg st - 1) (xed st)) + i))
        (at3 slpx d j i))"
    "rows3 (xpQ st') = sl_len (rows3 (Q st)) (sl_range (ybg st) (yed st))"
    "cols3 (xpQ st') = sl_len (cols3 (Q st)) (sl_range (xbg st) (xed st + 1))"
    "cols3 (xpQ st') = sl_len (cols3 slpx) (sl_from 1)"
    "at3 (xpQ st') = (\<lambda>d j i. fsub ar
        (at3 (Q st) d (sl_start (rows3 (Q st)) (sl_range (ybg st) (yed st)) + j)
                      (sl_start (cols3 (Q st)) (sl_range (xbg st) (xed st + 1)) + i))
        (at3 slpx d j (sl_start (cols3 slpx) (sl_from 1) + i)))"
    "cols3 (ymQ st') = sl_len (cols3 (Q st)) (sl_range (xbg st) (xed st))"
    "rows3 (ymQ st') = sl_len (rows3 (Q st)) (sl_range (ybg st - 1) (yed st))"
    "rows3 (ymQ st') = sl_len (rows3 slpy) (sl_to (ny st + 1))"
    "at3 (ymQ st') = (\<lambda>d j i. fadd ar
        (at3 (Q st) d (sl_start (rows3 (Q st)) (sl_range (ybg st - 1) (yed st)) + j)
                      (sl_start (cols3 (Q st)) (sl_range (xbg st) (xed st)) + i))
        (at3 slpy d j i))"
    "cols3 (ypQ st') = sl_len (cols3 (Q st)) (sl_range (xbg st) (xed st))"
    "rows3 (ypQ st') = sl_len (rows3 (Q st)) (sl_range (ybg st) (yed st + 1))"
    "rows3 (ypQ st') = sl_len (rows3 slpy) (sl_from 1)"
    "at3 (ypQ st') = (\<lambda>d j i. fsub ar
        (at3 (Q st) d (sl_start (rows3 (Q st)) (sl_range (ybg st) (yed st + 1)) + j)
                      (sl_start (cols3 (Q st)) (sl_range (xbg st) (xed st)) + i))
        (at3 slpy d (sl_start (rows3 slpy) (sl_from 1) + j) i))"
  using assms
  by (auto simp: get_face_Q_def ew2_3_def same3_def sub3_def out3_def bind_eq_Some_conv
      split: if_splits)

lemma calc_depth_SomeD:
  assumes "calc_depth ar st rt = Some st'"
  shows "Q st' = Q st \<and> U st' = U st \<and> ngh st' = ngh st \<and> xmQ st' = xmQ st \<and> xpQ st' = xpQ st
      \<and> ymQ st' = ymQ st \<and> ypQ st' = ypQ st"
    "rows2 (H st') = rows2 (H st)" "cols2 (H st') = cols2 (H st)"
    "rows2 (H st') = sl_len (rows3 (Q st)) (sl_range (ybg st) (yed st))"
    "cols2 (H st') = sl_len (cols3 (Q st)) (sl_range (xbg st) (xed st))"
    "at2 (H st') = (\<lambda>j i. fsub ar
        (at3 (Q st) 0 (sl_start (rows3 (Q st)) (sl_range (ybg st) (yed st)) + j)
                      (sl_start (cols3 (Q st)) (sl_range (xbg st) (xed st)) + i))
        (at2 (centers (topo rt)) j i))"
    "face_depth ar (xmQ st) (xfcenters (topo rt)) (xmU st) = Some (xmU st')"
    "face_depth ar (xpQ st) (xfcenters (topo rt)) (xpU st) = Some (xpU st')"
    "face_depth ar (ymQ st) (yfcenters (topo rt)) (ymU st) = Some (ymU st')"
    "face_depth ar (ypQ st) (yfcenters (topo rt)) (ypU st) = Some (ypU st')"
  using assms
  by (auto simp: calc_depth_def sub2_def ew2_2_def same2_def out2_def bind_eq_Some_conv
      split: if_splits)

lemma uncorrected_depths_SomeD:
  assumes "uncorrected_depths ar st rt cfg = Some st'"
  shows "\<exists>slpx slpy s. get_slopes ar st cfg = Some (slpx, slpy) \<and> get_face_Q ar st slpx slpy = Some s
           \<and> calc_depth ar s rt = Some st'"
  using assms by (auto simp: uncorrected_depths_def bind_eq_Some_conv)

lemma uncorrected_depths_frame:
  assumes "uncorrected_depths ar st rt cfg = Some st'"
  shows "Q st' = Q st" "U st' = U st" "ngh st' = ngh st"
proof -
  from uncorrected_depths_SomeD[OF assms] obtain slpx slpy s where
    s: "get_face_Q ar st slpx slpy = Some s" "calc_depth ar s rt = Some st'" by blast
  from get_face_Q_SomeD(1)[OF s(1)] have "Q s = Q st" "U s = U st" "ngh s = ngh st" by auto
  moreover from calc_depth_SomeD(1)[OF s(2)] have "Q st' = Q s" "U st' = U s" "ngh st' = ngh s"
    by simp_all
  ultimately show "Q st' = Q st" "U st' = U st" "ngh st' = ngh st" by simp_all
qed

lemma uncorrected_depths_H:
  assumes "uncorrected_depths ar st rt cfg = Some st'"
  shows "at2 (H st') = (\<lambda>j i. fsub ar
        (at3 (Q st) 0 (sl_start (rows3 (Q st)) (sl_range (ybg st) (yed st)) + j)
                      (sl_start (cols3 (Q st)) (sl_range (xbg st) (xed st)) + i))
        (at2 (centers (topo rt)) j i))"
proof -
  from uncorrected_depths_SomeD[OF assms] obtain slpx slpy s where
    s: "get_face_Q ar st slpx slpy = Some s" "calc_depth ar s rt = Some st'" by blast
  from get_face_Q_SomeD(1)[OF s(1)] have "Q s = Q st" "ngh s = ngh st" by auto
  then show ?thesis using calc_depth_SomeD(6)[OF s(2)]
    by (simp add: ybg_def yed_def xbg_def xed_def nx_def ny_def)
qed

lemma corrected_depths_SomeD:
  assumes "corrected_depths ar st rt cfg = Some st'"
  shows "\<exists>s2 s3. uncorrected_depths ar st rt cfg = Some s2 \<and> fix_neg_depth_x ar s2 = Some s3
           \<and> fix_neg_depth_y ar s3 = Some st'"
  using assms by (auto simp: corrected_depths_def bind_eq_Some_conv)

lemma corrected_depths_frame:
  assumes "corrected_depths ar st rt cfg = Some st'"
  shows "Q st' = Q st" "U st' = U st" "ngh st' = ngh st"
    "\<exists>s. uncorrected_depths ar st rt cfg = Some s \<and> H st' = H s"
proof -
  from corrected_depths_SomeD[OF assms] obtain s2 s3 where
    s: "uncorrected_depths ar st rt cfg = Some s2" "fix_neg_depth_x ar s2 = Some s3"
      "fix_neg_depth_y ar s3 = Some st'" by blast
  from uncorrected_depths_frame[OF s(1)] fix_neg_depth_x_frame[OF s(2)] fix_neg_depth_y_frame[OF s(3)]
  show "Q st' = Q st" "U st' = U st" "ngh st' = ngh st" by auto
  from fix_neg_depth_x_frame[OF s(2)] fix_neg_depth_y_frame[OF s(3)]
  have "H st' = H s2" by auto
  then show "\<exists>s. uncorrected_depths ar st rt cfg = Some s \<and> H st' = H s" using s(1) by blast
qed

lemma reconstruct_frame:
  assumes "reconstruct ar st rt cfg = Some (st', rt')"
  shows "Q st' = Q st" "U st' = U st" "ngh st' = ngh st" "rt' = rt"
proof -
  from reconstruct_faces[OF assms] obtain c where
    c: "corrected_depths ar st rt cfg = Some c" "rt' = rt" "Q st' = Q c" "U st' = U c" "ngh st' = ngh c"
    by blast
  from corrected_depths_frame(1-3)[OF c(1)] c
  show "Q st' = Q st" "U st' = U st" "ngh st' = ngh st" "rt' = rt" by simp_all
qed

lemma reconstruct_H:
  assumes "reconstruct ar st rt cfg = Some (st', rt')"
  shows "at2 (H st') = (\<lambda>j i. fsub ar
        (at3 (Q st) 0 (sl_start (rows3 (Q st)) (sl_range (ybg st) (yed st)) + j)
                      (sl_start (cols3 (Q st)) (sl_range (xbg st) (xed st)) + i))
        (at2 (centers (topo rt)) j i))"
proof -
  from reconstruct_faces[OF assms] obtain c where
    c: "corrected_depths ar st rt cfg = Some c" "H st' = H c" by blast
  from corrected_depths_frame(4)[OF c(1)] obtain s where
    s: "uncorrected_depths ar st rt cfg = Some s" "H c = H s" by blast
  show ?thesis using uncorrected_depths_H[OF s(1)] c(2) s(2) by simp
qed

section \<open>A well-shaped call returns\<close>

lemma sl_range_ok:
  assumes "0 \<le> lo" "lo \<le> hi" "hi \<le> int n"
  shows "sl_start n (sl_range lo hi) = nat lo" "sl_len n (sl_range lo hi) = nat (hi - lo)"
  using assms by (auto simp: sl_start_def sl_len_def sl_stop_def norm_bound_def)

lemma sl_to_ok:
  assumes "0 \<le> hi" "hi \<le> int n"
  shows "sl_len n (sl_to hi) = nat hi"
  using assms by (auto simp: sl_start_def sl_len_def sl_stop_def norm_bound_def)

lemma sl_from1_ok: "sl_len (Suc n) (sl_from 1) = n" "sl_start (Suc n) (sl_from 1) = 1"
  by (auto simp: sl_start_def sl_len_def sl_stop_def norm_bound_def)

lemma py_index_ok: "0 \<le> k \<Longrightarrow> k < int n \<Longrightarrow> py_index n k = Some (nat k)"
  by (simp add: py_index_def)

lemma shapes_okD:
  assumes "shapes_ok st rt"
  shows "2 \<le> ngh st" "0 \<le> ny st" "0 \<le> nx st" "comps3 (Q st) = 3"
    "int (rows3 (Q st)) = ny st + 2 * ngh st" "int (cols3 (Q st)) = nx st + 2 * ngh st"
    "rows2 (H st) = nat (ny st)" "cols2 (H st) = nat (nx st)"
    "comps3 (xmQ st) = 3" "rows3 (xmQ st) = nat (ny st)" "cols3 (xmQ st) = Suc (nat (nx st))"
    "comps3 (xpQ st) = 3" "rows3 (xpQ st) = nat (ny st)" "cols3 (xpQ st) = Suc (nat (nx st))"
    "comps3 (xmU st) = 3" "rows3 (xmU st) = nat (ny st)" "cols3 (xmU st) = Suc (nat (nx st))"
    "comps3 (xpU st) = 3" "rows3 (xpU st) = nat (ny st)" "cols3 (xpU st) = Suc (nat (nx st))"
    "comps3 (ymQ st) = 3" "rows3 (ymQ st) = Suc (nat (ny st))" "cols3 (ymQ st) = nat (nx st)"
    "comps3 (ypQ st) = 3" "rows3 (ypQ st) = Suc (nat (ny st))" "cols3 (ypQ st) = nat (nx st)"
    "comps3 (ymU st) = 3" "rows3 (ymU st) = Suc (nat (ny st))" "cols3 (ymU st) = nat (nx st)"
    "comps3 (ypU st) = 3" "rows3 (ypU st) = Suc (nat (ny st))" "cols3 (ypU st) = nat (nx st)"
    "rows2 (centers (topo rt)) = nat (ny st)" "cols2 (centers (topo rt)) = nat (nx st)"
    "rows2 (xfcenters (topo rt)) = nat (ny st)" "cols2 (xfcenters (topo rt)) = Suc (nat (nx st))"
    "rows2 (yfcenters (topo rt)) = Suc (nat (ny st))" "cols2 (yfcenters (topo rt)) = nat (nx st)"
  using assms by (simp_all add: shapes_ok_def shape2_def shape3_def Let_def ny_def nx_def)

lemma shapes_ok_cong:
  assumes "shapes_ok st rt" "Q st' = Q st" "ngh st' = ngh st"
    "shape2 (H st') = shape2 (H st)"
    "shape3 (xmQ st') = shape3 (xmQ st)" "shape3 (xpQ st') = shape3 (xpQ st)"
    "shape3 (ymQ st') = shape3 (ymQ st)" "shape3 (ypQ st') = shape3 (ypQ st)"
    "shape3 (xmU st') = shape3 (xmU st)" "shape3 (xpU st') = shape3 (xpU st)"
    "shape3 (ymU st') = shape3 (ymU st)" "shape3 (ypU st') = shape3 (ypU st)"
  shows "shapes_ok st' rt"
  using assms by (simp add: shapes_ok_def Let_def ny_def nx_def)

lemma fix_rounding_ok:
  assumes "0 < comps3 a"
  shows "\<exists>a'. fix_rounding t a = Some a' \<and> shape3 a' = shape3 a"
  using assms by (simp add: fix_rounding_def sub2_def put_sub2_def ew1_2_def shape3_def)

lemma face_depth_ok:
  assumes "0 < comps3 q" "0 < comps3 u" "rows3 q = rows2 b" "cols3 q = cols2 b"
    "rows3 u = rows2 b" "cols3 u = cols2 b"
  shows "\<exists>u'. face_depth ar q b u = Some u' \<and> shape3 u' = shape3 u"
  using assms by (simp add: face_depth_def sub2_def put_sub2_def ew2_2_def same2_def shape3_def)

lemma face_vel_ok:
  assumes "2 < comps3 q" "2 < comps3 u" "rows3 q = rows3 u" "cols3 q = cols3 u"
  shows "\<exists>u'. face_vel ar dt q u = Some u' \<and> shape3 u' = shape3 u"
  using assms by (simp add: face_vel_def sub2_def put_sub2_def ew3_2_def same2_def shape3_def)

lemma face_cons_ok:
  assumes "2 < comps3 q" "2 < comps3 u" "rows3 q = rows3 u" "cols3 q = cols3 u"
    "rows2 b = rows3 u" "cols2 b = cols3 u"
  shows "\<exists>q'. face_cons ar u b q = Some q' \<and> shape3 q' = shape3 q"
  using assms by (simp add: face_cons_def sub2_def put_sub2_def ew4_2_def same2_def shape3_def)

lemma edge_col_ok:
  assumes "0 < comps3 a" "0 \<le> k" "k < int (cols3 a)"
  shows "\<exists>a'. edge_col k a = Some a' \<and> shape3 a' = shape3 a"
  using assms by (simp add: edge_col_def col1_def put_col1_def ew1_1_def shape3_def py_index_ok)

lemma edge_row_ok:
  assumes "0 < comps3 a" "0 \<le> k" "k < int (rows3 a)"
  shows "\<exists>a'. edge_row k a = Some a' \<and> shape3 a' = shape3 a"
  using assms by (simp add: edge_row_def row1_def put_row1_def ew1_1_def shape3_def py_index_ok)

lemma get_slopes_ok:
  assumes "shapes_ok st rt"
  shows "\<exists>slpx slpy. get_slopes ar st cfg = Some (slpx, slpy)
     \<and> shape3 slpx = (3, nat (ny st), nat (nx st) + 2)
     \<and> shape3 slpy = (3, nat (ny st) + 2, nat (nx st))"
proof -
  note d = shapes_okD[OF assms]
  have r: "sl_len (rows3 (Q st)) (sl_range (ybg st) (yed st)) = nat (ny st)"
    "sl_len (rows3 (Q st)) (sl_range (ybg st - 2) (yed st)) = nat (ny st) + 2"
    "sl_len (rows3 (Q st)) (sl_range (ybg st - 1) (yed st + 1)) = nat (ny st) + 2"
    "sl_len (rows3 (Q st)) (sl_range (ybg st) (yed st + 2)) = nat (ny st) + 2"
    using d(1,2,5) by (simp_all add: sl_range_ok ybg_def yed_def nat_add_distrib)
  have c: "sl_len (cols3 (Q st)) (sl_range (xbg st) (xed st)) = nat (nx st)"
    "sl_len (cols3 (Q st)) (sl_range (xbg st - 2) (xed st)) = nat (nx st) + 2"
    "sl_len (cols3 (Q st)) (sl_range (xbg st - 1) (xed st + 1)) = nat (nx st) + 2"
    "sl_len (cols3 (Q st)) (sl_range (xbg st) (xed st + 2)) = nat (nx st) + 2"
    using d(1,3,6) by (simp_all add: sl_range_ok xbg_def xed_def nat_add_distrib)
  show ?thesis
    using r c d(4) by (simp add: get_slopes_def ew3_3_def same3_def sub3_def shape3_def)
qed

lemma get_face_Q_ok:
  assumes "shapes_ok st rt" "shape3 slpx = (3, nat (ny st), nat (nx st) + 2)"
    "shape3 slpy = (3, nat (ny st) + 2, nat (nx st))"
  shows "\<exists>st'. get_face_Q ar st slpx slpy = Some st' \<and> shapes_ok st' rt"
proof -
  note d = shapes_okD[OF assms(1)]
  have r: "sl_len (rows3 (Q st)) (sl_range (ybg st) (yed st)) = nat (ny st)"
    "sl_len (rows3 (Q st)) (sl_range (ybg st - 1) (yed st)) = nat (ny st) + 1"
    "sl_len (rows3 (Q st)) (sl_range (ybg st) (yed st + 1)) = nat (ny st) + 1"
    using d(1,2,5) by (simp_all add: sl_range_ok ybg_def yed_def nat_add_distrib)
  have c: "sl_len (cols3 (Q st)) (sl_range (xbg st) (xed st)) = nat (nx st)"
    "sl_len (cols3 (Q st)) (sl_range (xbg st - 1) (xed st)) = nat (nx st) + 1"
    "sl_len (cols3 (Q st)) (sl_range (xbg st) (xed st + 1)) = nat (nx st) + 1"
    using d(1,3,6) by (simp_all add: sl_range_ok xbg_def xed_def nat_add_distrib)
  have s: "comps3 slpx = 3" "rows3 slpx = nat (ny st)" "cols3 slpx = Suc (Suc (nat (nx st)))"
    "comps3 slpy = 3" "rows3 slpy = Suc (Suc (nat (ny st)))" "cols3 slpy = nat (nx st)"
    using assms(2,3) by (simp_all add: shape3_def)
  have v: "sl_len (Suc (Suc (nat (nx st)))) (sl_to (nx st + 1)) = nat (nx st) + 1"
    "sl_len (Suc (Suc (nat (ny st)))) (sl_to (ny st + 1)) = nat (ny st) + 1"
    using d(2,3) by (simp_all add: sl_to_ok nat_add_distrib)
  obtain st' where st': "get_face_Q ar st slpx slpy = Some st'"
    and fr: "Q st' = Q st" "ngh st' = ngh st" "H st' = H st" "xmU st' = xmU st" "xpU st' = xpU st"
      "ymU st' = ymU st" "ypU st' = ypU st"
    and sh: "shape3 (xmQ st') = shape3 (xmQ st)" "shape3 (xpQ st') = shape3 (xpQ st)"
      "shape3 (ymQ st') = shape3 (ymQ st)" "shape3 (ypQ st') = shape3 (ypQ st)"
    using r c s v d(4) d(9-14) d(21-26)
    by (simp add: get_face_Q_def ew2_3_def same3_def sub3_def out3_def shape3_def sl_from1_ok)
  show ?thesis using st' shapes_ok_cong[OF assms(1) fr(1,2)] fr sh by simp
qed

lemma calc_depth_ok:
  assumes "shapes_ok st rt"
  shows "\<exists>st'. calc_depth ar st rt = Some st' \<and> shapes_ok st' rt"
proof -
  note d = shapes_okD[OF assms]
  have r: "sl_len (rows3 (Q st)) (sl_range (ybg st) (yed st)) = nat (ny st)"
    using d(1,2,5) by (simp_all add: sl_range_ok ybg_def yed_def nat_add_distrib)
  have c: "sl_len (cols3 (Q st)) (sl_range (xbg st) (xed st)) = nat (nx st)"
    using d(1,3,6) by (simp_all add: sl_range_ok xbg_def xed_def nat_add_distrib)
  obtain h where h: "(do { w \<leftarrow> sub2 0 (sl_range (ybg st) (yed st)) (sl_range (xbg st) (xed st)) (Q st);
       h \<leftarrow> ew2_2 (fsub ar) w (centers (topo rt)); out2 (H st) h }) = Some h" "shape2 h = shape2 (H st)"
    using r c d(4,7,8,33,34) by (simp add: sub2_def ew2_2_def same2_def out2_def shape2_def)
  obtain a where a: "face_depth ar (xmQ st) (xfcenters (topo rt)) (xmU st) = Some a" "shape3 a = shape3 (xmU st)"
    using face_depth_ok[of "xmQ st" "xmU st" "xfcenters (topo rt)"] d(9-11,15-17,35,36) by auto
  obtain b where b: "face_depth ar (xpQ st) (xfcenters (topo rt)) (xpU st) = Some b" "shape3 b = shape3 (xpU st)"
    using face_depth_ok[of "xpQ st" "xpU st" "xfcenters (topo rt)"] d(12-14,18-20,35,36) by auto
  obtain c where c: "face_depth ar (ymQ st) (yfcenters (topo rt)) (ymU st) = Some c" "shape3 c = shape3 (ymU st)"
    using face_depth_ok[of "ymQ st" "ymU st" "yfcenters (topo rt)"] d(21-23,27-29,37,38) by auto
  obtain e where e: "face_depth ar (ypQ st) (yfcenters (topo rt)) (ypU st) = Some e" "shape3 e = shape3 (ypU st)"
    using face_depth_ok[of "ypQ st" "ypU st" "yfcenters (topo rt)"] d(24-26,30-32,37,38) by auto
  have "calc_depth ar st rt = Some (st\<lparr>H := h, xmU := a, xpU := b, ymU := c, ypU := e\<rparr>)"
    using h(1) a(1) b(1) c(1) e(1) by (auto simp: calc_depth_def bind_eq_Some_conv)
  moreover have "shapes_ok (st\<lparr>H := h, xmU := a, xpU := b, ymU := c, ypU := e\<rparr>) rt"
    using h(2) a(2) b(2) c(2) e(2) by (intro shapes_ok_cong[OF assms]) simp_all
  ultimately show ?thesis by blast
qed

lemma fix_neg_depth_x_ok:
  assumes "shapes_ok st rt"
  shows "\<exists>st'. fix_neg_depth_x ar st = Some st' \<and> shapes_ok st' rt"
proof -
  note d = shapes_okD[OF assms]
  have v: "sl_len (Suc (nat (nx st))) (sl_to (nx st)) = nat (nx st)"
    using d(3) by (simp add: sl_to_ok)
  obtain p where p: "(do {
       hl \<leftarrow> sub2 0 sl_all (sl_to (nx st)) (xpU st);
       hr \<leftarrow> sub2 0 sl_all (sl_from 1) (xmU st);
       nhl \<leftarrow> ew3_2 (\<lambda>hc l r. fst (correct_neg_depth_internal ar hc l r l r)) (H st) hl hr;
       put_sub2 0 sl_all (sl_to (nx st)) (xpU st) nhl }) = Some p" "shape3 p = shape3 (xpU st)"
    using d(7,8,15-20) v by (simp add: sub2_def ew3_2_def same2_def put_sub2_def shape3_def sl_from1_ok)
  obtain m where m: "(do {
       hl \<leftarrow> sub2 0 sl_all (sl_to (nx st)) (xpU st);
       hr \<leftarrow> sub2 0 sl_all (sl_from 1) (xmU st);
       nhr \<leftarrow> ew3_2 (\<lambda>hc l r. snd (correct_neg_depth_internal ar hc l r l r)) (H st) hl hr;
       put_sub2 0 sl_all (sl_from 1) (xmU st) nhr }) = Some m" "shape3 m = shape3 (xmU st)"
    using d(7,8,15-20) v by (simp add: sub2_def ew3_2_def same2_def put_sub2_def shape3_def sl_from1_ok)
  obtain p' where p': "edge_col (nx st) p = Some p'" "shape3 p' = shape3 p"
    using edge_col_ok[of p "nx st"] p(2) d(3,18-20) by (auto simp: shape3_def)
  obtain m' where m': "edge_col 0 m = Some m'" "shape3 m' = shape3 m"
    using edge_col_ok[of m 0] m(2) d(15-17) by (auto simp: shape3_def)
  have "fix_neg_depth_x ar st = Some (st\<lparr>xpU := p', xmU := m'\<rparr>)"
    using p(1) m(1) p'(1) m'(1) by (auto simp: fix_neg_depth_x_def bind_eq_Some_conv)
  moreover have "shapes_ok (st\<lparr>xpU := p', xmU := m'\<rparr>) rt"
    using p(2) m(2) p'(2) m'(2) by (intro shapes_ok_cong[OF assms]) simp_all
  ultimately show ?thesis by blast
qed

lemma fix_neg_depth_y_ok:
  assumes "shapes_ok st rt"
  shows "\<exists>st'. fix_neg_depth_y ar st = Some st' \<and> shapes_ok st' rt"
proof -
  note d = shapes_okD[OF assms]
  have v: "sl_len (Suc (nat (ny st))) (sl_to (ny st)) = nat (ny st)"
    using d(2) by (simp add: sl_to_ok)
  obtain p where p: "(do {
       hl \<leftarrow> sub2 0 (sl_to (ny st)) sl_all (ypU st);
       hr \<leftarrow> sub2 0 (sl_from 1) sl_all (ymU st);
       nhl \<leftarrow> ew3_2 (\<lambda>hc l r. fst (correct_neg_depth_internal ar hc l r l r)) (H st) hl hr;
       put_sub2 0 (sl_to (ny st)) sl_all (ypU st) nhl }) = Some p" "shape3 p = shape3 (ypU st)"
    using d(7,8,27-32) v by (simp add: sub2_def ew3_2_def same2_def put_sub2_def shape3_def sl_from1_ok)
  obtain m where m: "(do {
       hl \<leftarrow> sub2 0 (sl_to (ny st)) sl_all (ypU st);
       hr \<leftarrow> sub2 0 (sl_from 1) sl_all (ymU st);
       nhr \<leftarrow> ew3_2 (\<lambda>hc l r. snd (correct_neg_depth_internal ar hc l r l r)) (H st) hl hr;
       put_sub2 0 (sl_from 1) sl_all (ymU st) nhr }) = Some m" "shape3 m = shape3 (ymU st)"
    using d(7,8,27-32) v by (simp add: sub2_def ew3_2_def same2_def put_sub2_def shape3_def sl_from1_ok)
  obtain p' where p': "edge_row (ny st) p = Some p'" "shape3 p' = shape3 p"
    using edge_row_ok[of p "ny st"] p(2) d(2,30-32) by (auto simp: shape3_def)
  obtain m' where m': "edge_row 0 m = Some m'" "shape3 m' = shape3 m"
    using edge_row_ok[of m 0] m(2) d(27-29) by (auto simp: shape3_def)
  have "fix_neg_depth_y ar st = Some (st\<lparr>ypU := p', ymU := m'\<rparr>)"
    using p(1) m(1) p'(1) m'(1) by (auto simp: fix_neg_depth_y_def bind_eq_Some_conv)
  moreover have "shapes_ok (st\<lparr>ypU := p', ymU := m'\<rparr>) rt"
    using p(2) m(2) p'(2) m'(2) by (intro shapes_ok_cong[OF assms]) simp_all
  ultimately show ?thesis by blast
qed

lemma fix_rounding_err_ok:
  assumes "shapes_ok st rt"
  shows "\<exists>st'. fix_rounding_err st rt = Some st' \<and> shapes_ok st' rt"
proof -
  note d = shapes_okD[OF assms]
  obtain a where a: "fix_rounding (tol rt) (xmU st) = Some a" "shape3 a = shape3 (xmU st)"
    using fix_rounding_ok[of "xmU st"] d(15) by auto
  obtain b where b: "fix_rounding (tol rt) (xpU st) = Some b" "shape3 b = shape3 (xpU st)"
    using fix_rounding_ok[of "xpU st"] d(18) by auto
  obtain c where c: "fix_rounding (tol rt) (ymU st) = Some c" "shape3 c = shape3 (ymU st)"
    using fix_rounding_ok[of "ymU st"] d(27) by auto
  obtain e where e: "fix_rounding (tol rt) (ypU st) = Some e" "shape3 e = shape3 (ypU st)"
    using fix_rounding_ok[of "ypU st"] d(30) by auto
  have "fix_rounding_err st rt = Some (st\<lparr>xmU := a, xpU := b, ymU := c, ypU := e\<rparr>)"
    using a(1) b(1) c(1) e(1) by (simp add: fix_rounding_err_def)
  moreover have "shapes_ok (st\<lparr>xmU := a, xpU := b, ymU := c, ypU := e\<rparr>) rt"
    using a(2) b(2) c(2) e(2) by (intro shapes_ok_cong[OF assms]) simp_all
  ultimately show ?thesis by blast
qed

lemma recnstrt_face_vel_ok:
  assumes "shapes_ok st rt"
  shows "\<exists>st'. recnstrt_face_vel ar st cfg = Some st' \<and> shapes_ok st' rt"
proof -
  note d = shapes_okD[OF assms]
  obtain a where a: "face_vel ar (drytol (params cfg)) (xmQ st) (xmU st) = Some a" "shape3 a = shape3 (xmU st)"
    using face_vel_ok[of "xmQ st" "xmU st"] d(9-11,15-17) by auto
  obtain b where b: "face_vel ar (drytol (params cfg)) (xpQ st) (xpU st) = Some b" "shape3 b = shape3 (xpU st)"
    using face_vel_ok[of "xpQ st" "xpU st"] d(12-14,18-20) by auto
  obtain c where c: "face_vel ar (drytol (params cfg)) (ymQ st) (ymU st) = Some c" "shape3 c = shape3 (ymU st)"
    using face_vel_ok[of "ymQ st" "ymU st"] d(21-23,27-29) by auto
  obtain e where e: "face_vel ar (drytol (params cfg)) (ypQ st) (ypU st) = Some e" "shape3 e = shape3 (ypU st)"
    using face_vel_ok[of "ypQ st" "ypU st"] d(24-26,30-32) by auto
  have "recnstrt_face_vel ar st cfg = Some (st\<lparr>xmU := a, xpU := b, ymU := c, ypU := e\<rparr>)"
    using a(1) b(1) c(1) e(1) by (simp add: recnstrt_face_vel_def)
  moreover have "shapes_ok (st\<lparr>xmU := a, xpU := b, ymU := c, ypU := e\<rparr>) rt"
    using a(2) b(2) c(2) e(2) by (intro shapes_ok_cong[OF assms]) simp_all
  ultimately show ?thesis by blast
qed

lemma recnstrt_face_cons_ok:
  assumes "shapes_ok st rt"
  shows "\<exists>st'. recnstrt_face_cons ar st rt = Some st' \<and> shapes_ok st' rt"
proof -
  note d = shapes_okD[OF assms]
  obtain a where a: "face_cons ar (xmU st) (xfcenters (topo rt)) (xmQ st) = Some a" "shape3 a = shape3 (xmQ st)"
    using face_cons_ok[of "xmQ st" "xmU st" "xfcenters (topo rt)"] d(9-11,15-17,35,36) by auto
  obtain b where b: "face_cons ar (xpU st) (xfcenters (topo rt)) (xpQ st) = Some b" "shape3 b = shape3 (xpQ st)"
    using face_cons_ok[of "xpQ st" "xpU st" "xfcenters (topo rt)"] d(12-14,18-20,35,36) by auto
  obtain c where c: "face_cons ar (ymU st) (yfcenters (topo rt)) (ymQ st) = Some c" "shape3 c = shape3 (ymQ st)"
    using face_cons_ok[of "ymQ st" "ymU st" "yfcenters (topo rt)"] d(21-23,27-29,37,38) by auto
  obtain e where e: "face_cons ar (ypU st) (yfcenters (topo rt)) (ypQ st) = Some e" "shape3 e = shape3 (ypQ st)"
    using face_cons_ok[of "ypQ st" "ypU st" "yfcenters (topo rt)"] d(24-26,30-32,37,38) by auto
  have "recnstrt_face_cons ar st rt = Some (st\<lparr>xmQ := a, xpQ := b, ymQ := c, ypQ := e\<rparr>)"
    using a(1) b(1) c(1) e(1) by (simp add: recnstrt_face_cons_def)
  moreover have "shapes_ok (st\<lparr>xmQ := a, xpQ := b, ymQ := c, ypQ := e\<rparr>) rt"
    using a(2) b(2) c(2) e(2) by (intro shapes_ok_cong[OF assms]) simp_all
  ultimately show ?thesis by blast
qed

lemma uncorrected_depths_ok:
  assumes "shapes_ok st rt"
  shows "\<exists>st'. uncorrected_depths ar st rt cfg = Some st' \<and> shapes_ok st' rt"
proof -
  from get_slopes_ok[OF assms, of ar cfg] obtain slpx slpy where
    s: "get_slopes ar st cfg = Some (slpx, slpy)" "shape3 slpx = (3, nat (ny st), nat (nx st) + 2)"
      "shape3 slpy = (3, nat (ny st) + 2, nat (nx st))" by blast
  from get_face_Q_ok[OF assms s(2,3)] obtain s1 where
    s1: "get_face_Q ar st slpx slpy = Some s1" "shapes_ok s1 rt" by blast
  from calc_depth_ok[OF s1(2)] obtain s2 where s2: "calc_depth ar s1 rt = Some s2" "shapes_ok s2 rt"
    by blast
  have "uncorrected_depths ar st rt cfg = Some s2"
    by (simp add: uncorrected_depths_def s(1) s1(1) s2(1))
  then show ?thesis using s2(2) by blast
qed

lemma corrected_depths_ok:
  assumes "shapes_ok st rt"
  shows "\<exists>st'. corrected_depths ar st rt cfg = Some st' \<and> shapes_ok st' rt"
proof -
  from uncorrected_depths_ok[OF assms, of ar cfg] obtain s2 where
    s2: "uncorrected_depths ar st rt cfg = Some s2" "shapes_ok s2 rt" by blast
  from fix_neg_depth_x_ok[OF s2(2)] obtain s3 where s3: "fix_neg_depth_x ar s2 = Some s3" "shapes_ok s3 rt"
    by blast
  from fix_neg_depth_y_ok[OF s3(2)] obtain s4 where s4: "fix_neg_depth_y ar s3 = Some s4" "shapes_ok s4 rt"
    by blast
  have "corrected_depths ar st rt cfg = Some s4"
    by (simp add: corrected_depths_def s2(1) s3(1) s4(1))
  then show ?thesis using s4(2) by blast
qed

lemma reconstruct_ok:
  assumes "shapes_ok st rt"
  shows "\<exists>st'. reconstruct ar st rt cfg = Some (st', rt) \<and> shapes_ok st' rt"
proof -
  from corrected_depths_ok[OF assms, of ar cfg] obtain s4 where
    s4: "corrected_depths ar st rt cfg = Some s4" "shapes_ok s4 rt" by blast
  from fix_rounding_err_ok[OF s4(2)] obtain s5 where s5: "fix_rounding_err s4 rt = Some s5" "shapes_ok s5 rt"
    by blast
  from recnstrt_face_vel_ok[OF s5(2), of ar cfg] obtain s6 where
    s6: "recnstrt_face_vel ar s5 cfg = Some s6" "shapes_ok s6 rt" by blast
  from recnstrt_face_cons_ok[OF s6(2)] obtain s7 where
    s7: "recnstrt_face_cons ar s6 rt = Some s7" "shapes_ok s7 rt" by blast
  have "reconstruct ar st rt cfg = Some (s7, rt)"
    by (simp add: reconstruct_def s4(1) s5(1) s6(1) s7(1))
  then show ?thesis using s7(2) by blast
qed

section \<open>Facts about the example states\<close>

lemma fle_not_flt: "fle (Fin 0) x \<Longrightarrow> \<not> flt x (Fin 0)"
  by (cases x) (auto simp: fle_def)

lemma not_flt_fle: "\<not> flt x (Fin 0) \<Longrightarrow> x \<noteq> NaN \<Longrightarrow> fle (Fin 0) x"
  by (cases x) (auto simp: fle_def)

lemma fix_rounding_not_neg:
  assumes "fle (Fin 0) t"
  shows "\<not> flt (fix_rounding_err_kernel x t x) (Fin 0)"
  using assms by (cases x; cases t) (auto simp: fix_rounding_err_kernel_def fle_def)

lemma reconstruct_ok_shapes:
  assumes "shapes_ok st rt"
  shows "\<exists>st'. reconstruct ar st rt cfg = Some (st', rt)
     \<and> rows2 (H st') = nat (ny st) \<and> cols2 (H st') = nat (nx st)
     \<and> rows3 (xmQ st') = nat (ny st) \<and> cols3 (xmQ st') = Suc (nat (nx st))
     \<and> rows3 (xpQ st') = nat (ny st) \<and> cols3 (xpQ st') = Suc (nat (nx st))
     \<and> rows3 (xmU st') = nat (ny st) \<and> cols3 (xmU st') = Suc (nat (nx st))
     \<and> rows3 (xpU st') = nat (ny st) \<and> cols3 (xpU st') = Suc (nat (nx st))
     \<and> rows3 (ymQ st') = Suc (nat (ny st)) \<and> cols3 (ymQ st') = nat (nx st)
     \<and> rows3 (ypQ st') = Suc (nat (ny st)) \<and> cols3 (ypQ st') = nat (nx st)
     \<and> rows3 (ymU st') = Suc (nat (ny st)) \<and> cols3 (ymU st') = nat (nx st)
     \<and> rows3 (ypU st') = Suc (nat (ny st)) \<and> cols3 (ypU st') = nat (nx st)"
proof -
  from reconstruct_ok[OF assms, of ar cfg] obtain st' where
    r: "reconstruct ar st rt cfg = Some (st', rt)" and ok: "shapes_ok st' rt" by blast
  from reconstruct_frame[OF r] have "ny st' = ny st" "nx st' = nx st"
    by (simp_all add: ny_def nx_def)
  then show ?thesis using r shapes_okD(7-32)[OF ok] by simp
qed

lemma ex_shapes:
  "shapes_ok ex_st ex_rt" "shapes_ok ex_depths ex_rt" "shapes_ok flat_st dry_rt"
  "shapes_ok flat_st wet_rt"
  by (simp_all add: shapes_ok_def shape2_def shape3_def ny_def nx_def ex_st_def ex_rt_def
      ex_depths_def flat_st_def dry_rt_def wet_rt_def const2_def const3_def)

lemma ex_extents:
  "ny ex_st = 1" "nx ex_st = 2" "ny ex_depths = 1" "nx ex_depths = 2" "ny flat_st = 1" "nx flat_st = 2"
  by (simp_all add: ny_def nx_def ex_st_def ex_depths_def flat_st_def)

section \<open>Flat fields and the depths at the faces\<close>

lemma xface_flat:
  assumes ar: "ieee ar" and cf: "is_float ar c" and s: "get_slopes ar st cfg = Some (slpx, slpy)" and f: "get_face_Q ar st slpx slpy = Some s"
    and t: "theta (params cfg) = Fin t"
    and flat: "\<forall>k<cols3 (Q st).
       at3 (Q st) d (sl_start (rows3 (Q st)) (sl_range (ybg st) (yed st)) + j) k = Fin c"
  shows "\<forall>i<cols3 (xmQ s). at3 (xmQ s) d j i = Fin c"
    and "\<forall>i<cols3 (xpQ s). at3 (xpQ s) d j i = Fin c"
proof -
  note e = get_face_Q_SomeD[OF f]
  show "\<forall>i<cols3 (xmQ s). at3 (xmQ s) d j i = Fin c"
  proof (intro allI impI)
    fix i assume i: "i < cols3 (xmQ s)"
    have "i < cols3 slpx" using i e(4) sl_to_len_le[of "cols3 slpx" "nx st + 1"] by simp
    then have sl: "at3 slpx d j i = Fin 0" by (rule slpx_flat[OF ar s t _ flat])
    have "sl_start (cols3 (Q st)) (sl_range (xbg st - 1) (xed st)) + i < cols3 (Q st)"
      using i e(3) by (simp add: sl_in_range)
    then show "at3 (xmQ s) d j i = Fin c" using flat sl cf by (simp add: e(5) fin_float)
  qed
  show "\<forall>i<cols3 (xpQ s). at3 (xpQ s) d j i = Fin c"
  proof (intro allI impI)
    fix i assume i: "i < cols3 (xpQ s)"
    have "sl_start (cols3 slpx) (sl_from 1) + i < cols3 slpx"
      using i e(8) by (simp add: sl_in_range)
    then have sl: "at3 slpx d j (sl_start (cols3 slpx) (sl_from 1) + i) = Fin 0"
      by (rule slpx_flat[OF ar s t _ flat])
    have "sl_start (cols3 (Q st)) (sl_range (xbg st) (xed st + 1)) + i < cols3 (Q st)"
      using i e(7) by (simp add: sl_in_range)
    then show "at3 (xpQ s) d j i = Fin c" using flat sl cf by (simp add: e(9) fsub_def fin_float)
  qed
qed

lemma yface_flat:
  assumes ar: "ieee ar" and cf: "is_float ar c" and s: "get_slopes ar st cfg = Some (slpx, slpy)" and f: "get_face_Q ar st slpx slpy = Some s"
    and t: "theta (params cfg) = Fin t"
    and flat: "\<forall>k<rows3 (Q st).
       at3 (Q st) d k (sl_start (cols3 (Q st)) (sl_range (xbg st) (xed st)) + i) = Fin c"
  shows "\<forall>j<rows3 (ymQ s). at3 (ymQ s) d j i = Fin c"
    and "\<forall>j<rows3 (ypQ s). at3 (ypQ s) d j i = Fin c"
proof -
  note e = get_face_Q_SomeD[OF f]
  show "\<forall>j<rows3 (ymQ s). at3 (ymQ s) d j i = Fin c"
  proof (intro allI impI)
    fix j assume j: "j < rows3 (ymQ s)"
    have "j < rows3 slpy" using j e(12) sl_to_len_le[of "rows3 slpy" "ny st + 1"] by simp
    then have sl: "at3 slpy d j i = Fin 0" by (rule slpy_flat[OF ar s t _ flat])
    have "sl_start (rows3 (Q st)) (sl_range (ybg st - 1) (yed st)) + j < rows3 (Q st)"
      using j e(11) by (simp add: sl_in_range)
    then show "at3 (ymQ s) d j i = Fin c" using flat sl cf by (simp add: e(13) fin_float)
  qed
  show "\<forall>j<rows3 (ypQ s). at3 (ypQ s) d j i = Fin c"
  proof (intro allI impI)
    fix j assume j: "j < rows3 (ypQ s)"
    have "sl_start (rows3 slpy) (sl_from 1) + j < rows3 slpy"
      using j e(16) by (simp add: sl_in_range)
    then have sl: "at3 slpy d (sl_start (rows3 slpy) (sl_from 1) + j) i = Fin 0"
      by (rule slpy_flat[OF ar s t _ flat])
    have "sl_start (rows3 (Q st)) (sl_range (ybg st) (yed st + 1)) + j < rows3 (Q st)"
      using j e(15) by (simp add: sl_in_range)
    then show "at3 (ypQ s) d j i = Fin c" using flat sl cf by (simp add: e(17) fsub_def fin_float)
  qed
qed

lemma fix_neg_depth_x_shapes:
  assumes "fix_neg_depth_x ar st = Some st'"
  shows "rows2 (H st) = rows3 (xpU st)" "rows2 (H st) = rows3 (xmU st)"
    "cols2 (H st) = sl_len (cols3 (xpU st)) (sl_to (nx st))"
    "cols2 (H st) = sl_len (cols3 (xmU st)) (sl_from 1)"
  using assms
  by (auto simp: fix_neg_depth_x_def sub2_def ew3_2_def same2_def bind_eq_Some_conv
      split: if_splits)

lemma fix_neg_depth_y_shapes:
  assumes "fix_neg_depth_y ar st = Some st'"
  shows "cols2 (H st) = cols3 (ypU st)" "cols2 (H st) = cols3 (ymU st)"
    "rows2 (H st) = sl_len (rows3 (ypU st)) (sl_to (ny st))"
    "rows2 (H st) = sl_len (rows3 (ymU st)) (sl_from 1)"
  using assms
  by (auto simp: fix_neg_depth_y_def sub2_def ew3_2_def same2_def bind_eq_Some_conv
      split: if_splits)

lemma uncorrected_face_depth:
  assumes "uncorrected_depths ar st rt cfg = Some s'"
  shows "\<exists>slpx slpy s. get_slopes ar st cfg = Some (slpx, slpy) \<and> get_face_Q ar st slpx slpy = Some s
    \<and> (\<forall>j<rows3 (xmU s'). \<forall>i<cols3 (xmU s'). i < cols3 (xmQ s) \<and>
          at3 (xmU s') 0 j i = fsub ar (at3 (xmQ s) 0 j i) (at2 (xfcenters (topo rt)) j i))
    \<and> (\<forall>j<rows3 (xpU s'). \<forall>i<cols3 (xpU s'). i < cols3 (xpQ s) \<and>
          at3 (xpU s') 0 j i = fsub ar (at3 (xpQ s) 0 j i) (at2 (xfcenters (topo rt)) j i))
    \<and> (\<forall>j<rows3 (ymU s'). \<forall>i<cols3 (ymU s'). j < rows3 (ymQ s) \<and>
          at3 (ymU s') 0 j i = fsub ar (at3 (ymQ s) 0 j i) (at2 (yfcenters (topo rt)) j i))
    \<and> (\<forall>j<rows3 (ypU s'). \<forall>i<cols3 (ypU s'). j < rows3 (ypQ s) \<and>
          at3 (ypU s') 0 j i = fsub ar (at3 (ypQ s) 0 j i) (at2 (yfcenters (topo rt)) j i))"
proof -
  from uncorrected_depths_SomeD[OF assms] obtain slpx slpy s where
    g: "get_slopes ar st cfg = Some (slpx, slpy)" "get_face_Q ar st slpx slpy = Some s"
    and c: "calc_depth ar s rt = Some s'" by blast
  note d = calc_depth_SomeD(7-10)[OF c]
  have one: "\<forall>j<rows3 u'. \<forall>i<cols3 u'. i < cols3 q \<and> j < rows3 q \<and>
          at3 u' 0 j i = fsub ar (at3 q 0 j i) (at2 b j i)"
    if "face_depth ar q b u = Some u'" for q b u u'
    using face_depth_SomeD[OF that] by simp
  show ?thesis using g one[OF d(1)] one[OF d(2)] one[OF d(3)] one[OF d(4)] by blast
qed

lemma flat_idle_x:
  assumes ar: "ieee ar" and cf: "is_float ar c" and u: "uncorrected_depths ar st rt cfg = Some u" and fx: "fix_neg_depth_x ar u = Some u'"
    and t: "theta (params cfg) = Fin t" and j: "j < rows2 (H u)" and i: "i < cols2 (H u)"
    and flat: "\<forall>k<cols3 (Q st).
       at3 (Q st) 0 (sl_start (rows3 (Q st)) (sl_range (ybg st) (yed st)) + j) k = Fin c"
    and n1: "\<not> flt (fsub ar (Fin c) (at2 (xfcenters (topo rt)) j i)) (Fin 0)"
    and n2: "\<not> flt (fsub ar (Fin c) (at2 (xfcenters (topo rt)) j (Suc i))) (Fin 0)"
  shows "at3 (xpU u') 0 j i = fsub ar (Fin c) (at2 (xfcenters (topo rt)) j i)"
    and "at3 (xmU u') 0 j (Suc i) = fsub ar (Fin c) (at2 (xfcenters (topo rt)) j (Suc i))"
proof -
  from uncorrected_face_depth[OF u] obtain slpx slpy s where
    g: "get_slopes ar st cfg = Some (slpx, slpy)" "get_face_Q ar st slpx slpy = Some s"
    and xm: "\<forall>j<rows3 (xmU u). \<forall>i<cols3 (xmU u). i < cols3 (xmQ s) \<and>
          at3 (xmU u) 0 j i = fsub ar (at3 (xmQ s) 0 j i) (at2 (xfcenters (topo rt)) j i)"
    and xp: "\<forall>j<rows3 (xpU u). \<forall>i<cols3 (xpU u). i < cols3 (xpQ s) \<and>
          at3 (xpU u) 0 j i = fsub ar (at3 (xpQ s) 0 j i) (at2 (xfcenters (topo rt)) j i)"
    by blast
  note sh = fix_neg_depth_x_shapes[OF fx]
  have jp: "j < rows3 (xpU u)" and jm: "j < rows3 (xmU u)" using j sh(1,2) by simp_all
  have ip: "i < cols3 (xpU u)"
    using i sh(3) sl_to_len_le[of "cols3 (xpU u)" "nx u"] by simp
  have im: "Suc i < cols3 (xmU u)" using i sh(4) sl_from1[of i "cols3 (xmU u)"] by simp
  have hl: "at3 (xpU u) 0 j i = fsub ar (Fin c) (at2 (xfcenters (topo rt)) j i)"
    using xp[rule_format, OF jp ip] xface_flat(2)[OF ar cf g t flat] by simp
  have hr: "at3 (xmU u) 0 j (Suc i) = fsub ar (Fin c) (at2 (xfcenters (topo rt)) j (Suc i))"
    using xm[rule_format, OF jm im] xface_flat(1)[OF ar cf g t flat] by simp
  have idle: "correct_neg_depth_internal ar (at2 (H u) j i) (at3 (xpU u) 0 j i)
      (at3 (xmU u) 0 j (Suc i)) (at3 (xpU u) 0 j i) (at3 (xmU u) 0 j (Suc i))
    = (at3 (xpU u) 0 j i, at3 (xmU u) 0 j (Suc i))"
    by (rule correct_idle) (simp_all add: hl hr n1 n2)
  show "at3 (xpU u') 0 j i = fsub ar (Fin c) (at2 (xfcenters (topo rt)) j i)"
    using fix_neg_depth_x_cell(1)[OF fx j i] idle hl by simp
  show "at3 (xmU u') 0 j (Suc i) = fsub ar (Fin c) (at2 (xfcenters (topo rt)) j (Suc i))"
    using fix_neg_depth_x_cell(2)[OF fx j i] idle hr by simp
qed

lemma flat_idle_y:
  assumes ar: "ieee ar" and cf: "is_float ar c" and u: "uncorrected_depths ar st rt cfg = Some u" and fx: "fix_neg_depth_x ar u = Some ux"
    and fy: "fix_neg_depth_y ar ux = Some u'"
    and t: "theta (params cfg) = Fin t" and j: "j < rows2 (H u)" and i: "i < cols2 (H u)"
    and flat: "\<forall>k<rows3 (Q st).
       at3 (Q st) 0 k (sl_start (cols3 (Q st)) (sl_range (xbg st) (xed st)) + i) = Fin c"
    and n1: "\<not> flt (fsub ar (Fin c) (at2 (yfcenters (topo rt)) j i)) (Fin 0)"
    and n2: "\<not> flt (fsub ar (Fin c) (at2 (yfcenters (topo rt)) (Suc j) i)) (Fin 0)"
  shows "at3 (ypU u') 0 j i = fsub ar (Fin c) (at2 (yfcenters (topo rt)) j i)"
    and "at3 (ymU u') 0 (Suc j) i = fsub ar (Fin c) (at2 (yfcenters (topo rt)) (Suc j) i)"
proof -
  from uncorrected_face_depth[OF u] obtain slpx slpy s where
    g: "get_slopes ar st cfg = Some (slpx, slpy)" "get_face_Q ar st slpx slpy = Some s"
    and ym: "\<forall>j<rows3 (ymU u). \<forall>i<cols3 (ymU u). j < rows3 (ymQ s) \<and>
          at3 (ymU u) 0 j i = fsub ar (at3 (ymQ s) 0 j i) (at2 (yfcenters (topo rt)) j i)"
    and yp: "\<forall>j<rows3 (ypU u). \<forall>i<cols3 (ypU u). j < rows3 (ypQ s) \<and>
          at3 (ypU u) 0 j i = fsub ar (at3 (ypQ s) 0 j i) (at2 (yfcenters (topo rt)) j i)"
    by blast
  from fix_neg_depth_x_frame[OF fx] have fr: "H ux = H u" "ypU ux = ypU u" "ymU ux = ymU u"
    by auto
  note sh = fix_neg_depth_y_shapes[OF fy, unfolded fr]
  have j': "j < rows2 (H ux)" and i': "i < cols2 (H ux)" using j i fr by simp_all
  have ip: "i < cols3 (ypU u)" and im: "i < cols3 (ymU u)" using i sh(1,2) by simp_all
  have jp: "j < rows3 (ypU u)"
    using j sh(3) sl_to_len_le[of "rows3 (ypU u)" "ny ux"] by simp
  have jm: "Suc j < rows3 (ymU u)" using j sh(4) sl_from1[of j "rows3 (ymU u)"] by simp
  have hl: "at3 (ypU u) 0 j i = fsub ar (Fin c) (at2 (yfcenters (topo rt)) j i)"
    using yp[rule_format, OF jp ip] yface_flat(2)[OF ar cf g t flat] by simp
  have hr: "at3 (ymU u) 0 (Suc j) i = fsub ar (Fin c) (at2 (yfcenters (topo rt)) (Suc j) i)"
    using ym[rule_format, OF jm im] yface_flat(1)[OF ar cf g t flat] by simp
  have idle: "correct_neg_depth_internal ar (at2 (H u) j i) (at3 (ypU u) 0 j i)
      (at3 (ymU u) 0 (Suc j) i) (at3 (ypU u) 0 j i) (at3 (ymU u) 0 (Suc j) i)
    = (at3 (ypU u) 0 j i, at3 (ymU u) 0 (Suc j) i)"
    by (rule correct_idle) (simp_all add: hl hr n1 n2)
  show "at3 (ypU u') 0 j i = fsub ar (Fin c) (at2 (yfcenters (topo rt)) j i)"
    using fix_neg_depth_y_cell(1)[OF fy j' i'] idle hl fr by simp
  show "at3 (ymU u') 0 (Suc j) i = fsub ar (Fin c) (at2 (yfcenters (topo rt)) (Suc j) i)"
    using fix_neg_depth_y_cell(2)[OF fy j' i'] idle hr fr by simp
qed


section \<open>The claims about the kernels and the corrector\<close>









lemma avg_zero_twice:
  assumes "ieee ar" "is_float ar h" "\<bar>2 * h\<bar> \<le> maxf ar"
  shows "fdiv ar (fadd ar (Fin 0) (fmul ar (Fin h) (Fin 2))) (Fin 2) = Fin h"
    "fdiv ar (fadd ar (fmul ar (Fin h) (Fin 2)) (Fin 0)) (Fin 2) = Fin h"
proof -
  have "rnd ar (2 * h) = 2 * h" using ieeeD(5)[OF assms(1)] assms(2) by (simp add: is_float_def)
  then have "is_float ar (h * 2)" using assms(3) by (simp add: is_float_def mult.commute)
  then have d: "fin ar (h * 2) = Fin (h * 2)" by (rule fin_float)
  have h: "fin ar h = Fin h" using assms(2) by (rule fin_float)
  show "fdiv ar (fadd ar (Fin 0) (fmul ar (Fin h) (Fin 2))) (Fin 2) = Fin h"
    "fdiv ar (fadd ar (fmul ar (Fin h) (Fin 2)) (Fin 0)) (Fin 2) = Fin h"
    by (simp_all add: d h)
qed

lemma double_overflow:
  "is_float binary64 (2 ^ 1023)" "fmul binary64 (Fin (2 ^ 1023)) (Fin 2) = PInf"
  "fdiv binary64 (fadd binary64 (Fin 0) PInf) (Fin 2) = PInf"
proof -
  show "is_float binary64 (2 ^ 1023)" by (rule float_pow2(1))
  have e: "(2::real) ^ 1023 * 2 = 2 ^ 1024" by simp
  show "fmul binary64 (Fin (2 ^ 1023)) (Fin 2) = PInf" unfolding fmul.simps e by (rule fin_overflow)
  show "fdiv binary64 (fadd binary64 (Fin 0) PInf) (Fin 2) = PInf" by (simp add: inf_of_def)
qed

lemma ex_depths_values:
  "rows2 (H ex_depths) = 1" "cols2 (H ex_depths) = 2"
  "at2 (H ex_depths) 0 0 = Fin (1 / 4)" "at2 (H ex_depths) 0 1 = Fin (5 / 4)"
  "at3 (xpU ex_depths) 0 0 0 = Fin (- 1 / 2)" "at3 (xmU ex_depths) 0 0 (Suc 0) = Fin (1 / 2)"
  "at3 (xpU ex_depths) 0 0 (Suc 0) = Fin (1 / 2)" "at3 (xmU ex_depths) 0 0 (Suc (Suc 0)) = Fin (3 / 2)"
  "at3 (ypU ex_depths) 0 0 0 = Fin (- 1)" "at3 (ymU ex_depths) 0 (Suc 0) 0 = Fin 3"
  "at3 (ypU ex_depths) 0 0 (Suc 0) = Fin 2" "at3 (ymU ex_depths) 0 (Suc 0) (Suc 0) = Fin 3"
  by (simp_all add: ex_depths_def ex_st_def const2_def const3_def)

lemma big_depths_values:
  "shapes_ok big_depths ex_rt"
  "rows2 (H big_depths) = 1" "cols2 (H big_depths) = 2"
  "at2 (H big_depths) 0 0 = Fin (2 ^ 1023)"
  "at3 (xpU big_depths) 0 0 0 = Fin (- 1 / 2)" "at3 (xmU big_depths) 0 0 (Suc 0) = Fin (1 / 2)"
  by (simp_all add: shapes_ok_def shape2_def shape3_def ny_def nx_def big_depths_def ex_depths_def
      ex_st_def ex_rt_def const2_def const3_def del: power_numeral)

text \<open>
  Claim C1, as amended.  In each direction, at every interior cell \<open>(j, i)\<close> where the
  corrector for the interior cells fires (the plus depth at the cell's left or
  lower face, or the minus depth at its right or upper face, is negative before
  the correction), lines 166-169 (x) and 171-174 (y) leave one of the two depths
  at \<open>0\<close> and the other at the product of the center depth \<open>H\<close> and \<open>2\<close>; \<open>H\<close>
  itself is not written.  When the center depth is a finite number \<open>h\<close> of the
  format whose double does not overflow, the average of the two depths is \<open>h\<close>.
  The statement is about the whole block of a direction, so it also says that the
  edge corrector that follows does not touch the pair.
\<close>

theorem internal_correction_keeps_cell_mass:
  "(fix_neg_depth_x ar st = Some st' \<and> j < rows2 (H st) \<and> i < cols2 (H st)
      \<and> (flt (at3 (xpU st) 0 j i) (Fin 0) \<or> flt (at3 (xmU st) 0 j (Suc i)) (Fin 0))
    \<longrightarrow> H st' = H st
      \<and> (at3 (xpU st') 0 j i = Fin 0
            \<and> at3 (xmU st') 0 j (Suc i) = fmul ar (at2 (H st) j i) (Fin 2)
        \<or> at3 (xmU st') 0 j (Suc i) = Fin 0
            \<and> at3 (xpU st') 0 j i = fmul ar (at2 (H st) j i) (Fin 2))
      \<and> (ieee ar \<and> at2 (H st) j i = Fin h \<and> is_float ar h \<and> \<bar>2 * h\<bar> \<le> maxf ar
          \<longrightarrow> fdiv ar (fadd ar (at3 (xpU st') 0 j i) (at3 (xmU st') 0 j (Suc i))) (Fin 2) = Fin h))
   \<and> (fix_neg_depth_y ar st = Some st' \<and> j < rows2 (H st) \<and> i < cols2 (H st)
      \<and> (flt (at3 (ypU st) 0 j i) (Fin 0) \<or> flt (at3 (ymU st) 0 (Suc j) i) (Fin 0))
    \<longrightarrow> H st' = H st
      \<and> (at3 (ypU st') 0 j i = Fin 0
            \<and> at3 (ymU st') 0 (Suc j) i = fmul ar (at2 (H st) j i) (Fin 2)
        \<or> at3 (ymU st') 0 (Suc j) i = Fin 0
            \<and> at3 (ypU st') 0 j i = fmul ar (at2 (H st) j i) (Fin 2))
      \<and> (ieee ar \<and> at2 (H st) j i = Fin h \<and> is_float ar h \<and> \<bar>2 * h\<bar> \<le> maxf ar
          \<longrightarrow> fdiv ar (fadd ar (at3 (ypU st') 0 j i) (at3 (ymU st') 0 (Suc j) i)) (Fin 2) = Fin h))"
proof (intro conjI impI)
  assume a: "fix_neg_depth_x ar st = Some st' \<and> j < rows2 (H st) \<and> i < cols2 (H st)
      \<and> (flt (at3 (xpU st) 0 j i) (Fin 0) \<or> flt (at3 (xmU st) 0 j (Suc i)) (Fin 0))"
  then have s: "fix_neg_depth_x ar st = Some st'" and j: "j < rows2 (H st)" and i: "i < cols2 (H st)"
    and f: "flt (at3 (xpU st) 0 j i) (Fin 0) \<or> flt (at3 (xmU st) 0 j (Suc i)) (Fin 0)"
    by simp_all
  show "H st' = H st" using fix_neg_depth_x_frame[OF s] by auto
  note c = fix_neg_depth_x_cell[OF s j i] correct_fires[OF f, of ar "at2 (H st) j i"]
  show p: "at3 (xpU st') 0 j i = Fin 0
            \<and> at3 (xmU st') 0 j (Suc i) = fmul ar (at2 (H st) j i) (Fin 2)
        \<or> at3 (xmU st') 0 j (Suc i) = Fin 0
            \<and> at3 (xpU st') 0 j i = fmul ar (at2 (H st) j i) (Fin 2)"
    using c by simp
  assume "ieee ar \<and> at2 (H st) j i = Fin h \<and> is_float ar h \<and> \<bar>2 * h\<bar> \<le> maxf ar"
  then have h: "at2 (H st) j i = Fin h" and e: "ieee ar" "is_float ar h" "\<bar>2 * h\<bar> \<le> maxf ar"
    by simp_all
  from p show "fdiv ar (fadd ar (at3 (xpU st') 0 j i) (at3 (xmU st') 0 j (Suc i))) (Fin 2) = Fin h"
    unfolding h by (auto simp only: avg_zero_twice[OF e])
next
  assume a: "fix_neg_depth_y ar st = Some st' \<and> j < rows2 (H st) \<and> i < cols2 (H st)
      \<and> (flt (at3 (ypU st) 0 j i) (Fin 0) \<or> flt (at3 (ymU st) 0 (Suc j) i) (Fin 0))"
  then have s: "fix_neg_depth_y ar st = Some st'" and j: "j < rows2 (H st)" and i: "i < cols2 (H st)"
    and f: "flt (at3 (ypU st) 0 j i) (Fin 0) \<or> flt (at3 (ymU st) 0 (Suc j) i) (Fin 0)"
    by simp_all
  show "H st' = H st" using fix_neg_depth_y_frame[OF s] by auto
  note c = fix_neg_depth_y_cell[OF s j i] correct_fires[OF f, of ar "at2 (H st) j i"]
  show p: "at3 (ypU st') 0 j i = Fin 0
            \<and> at3 (ymU st') 0 (Suc j) i = fmul ar (at2 (H st) j i) (Fin 2)
        \<or> at3 (ymU st') 0 (Suc j) i = Fin 0
            \<and> at3 (ypU st') 0 j i = fmul ar (at2 (H st) j i) (Fin 2)"
    using c by simp
  assume "ieee ar \<and> at2 (H st) j i = Fin h \<and> is_float ar h \<and> \<bar>2 * h\<bar> \<le> maxf ar"
  then have h: "at2 (H st) j i = Fin h" and e: "ieee ar" "is_float ar h" "\<bar>2 * h\<bar> \<le> maxf ar"
    by simp_all
  from p show "fdiv ar (fadd ar (at3 (ypU st') 0 j i) (at3 (ymU st') 0 (Suc j) i)) (Fin 2) = Fin h"
    unfolding h by (auto simp only: avg_zero_twice[OF e])
qed

text \<open>
  Claim C1 as amended on \<open>ex_depths\<close>, at the first cell, which has a negative
  depth at its left face and at its lower face and the center depth \<open>1/4\<close>: the plus depth
  becomes \<open>0\<close>, the minus depth \<open>1/2\<close>, and their average is \<open>1/4\<close>.
\<close>

theorem internal_correction_keeps_cell_mass_witness:
  "\<exists>sx sy. fix_neg_depth_x binary64 ex_depths = Some sx \<and> fix_neg_depth_y binary64 ex_depths = Some sy
     \<and> flt (at3 (xpU ex_depths) 0 0 0) (Fin 0) \<and> flt (at3 (ypU ex_depths) 0 0 0) (Fin 0)
     \<and> ieee binary64 \<and> at2 (H ex_depths) 0 0 = Fin (1 / 4) \<and> is_float binary64 (1 / 4)
     \<and> \<bar>2 * (1 / 4)\<bar> \<le> maxf binary64
     \<and> at3 (xpU sx) 0 0 0 = Fin 0 \<and> at3 (xmU sx) 0 0 (Suc 0) = Fin (1 / 2)
     \<and> at3 (ypU sy) 0 0 0 = Fin 0 \<and> at3 (ymU sy) 0 (Suc 0) 0 = Fin (1 / 2)
     \<and> fdiv binary64 (fadd binary64 (at3 (xpU sx) 0 0 0) (at3 (xmU sx) 0 0 (Suc 0))) (Fin 2) = Fin (1 / 4)
     \<and> fdiv binary64 (fadd binary64 (at3 (ypU sy) 0 0 0) (at3 (ymU sy) 0 (Suc 0) 0)) (Fin 2) = Fin (1 / 4)"
proof -
  from fix_neg_depth_x_ok[OF ex_shapes(2)] obtain sx where
    sx: "fix_neg_depth_x binary64 ex_depths = Some sx" by blast
  from fix_neg_depth_y_ok[OF ex_shapes(2)] obtain sy where
    sy: "fix_neg_depth_y binary64 ex_depths = Some sy" by blast
  have fx: "flt (at3 (xpU ex_depths) 0 0 0) (Fin 0)" and fy: "flt (at3 (ypU ex_depths) 0 0 0) (Fin 0)"
    by (simp_all add: ex_depths_values)
  have q: "is_float binary64 (1 / 4)" "\<bar>2 * (1 / 4)\<bar> \<le> maxf binary64"
    using binary64_max_ge float_binary64[of "1 / 4"] by simp_all
  have px: "at3 (xpU sx) 0 0 0 = Fin 0" "at3 (xmU sx) 0 0 (Suc 0) = Fin (1 / 2)"
    using fix_neg_depth_x_cell[OF sx, of 0 0]
    by (simp_all add: ex_depths_values correct_neg_depth_internal_def fin_binary64)
  have py: "at3 (ypU sy) 0 0 0 = Fin 0" "at3 (ymU sy) 0 (Suc 0) 0 = Fin (1 / 2)"
    using fix_neg_depth_y_cell[OF sy, of 0 0]
    by (simp_all add: ex_depths_values correct_neg_depth_internal_def fin_binary64)
  from internal_correction_keeps_cell_mass[of binary64 ex_depths sx 0 0 "1 / 4"] sx fx q
  have "fdiv binary64 (fadd binary64 (at3 (xpU sx) 0 0 0) (at3 (xmU sx) 0 0 (Suc 0))) (Fin 2) = Fin (1 / 4)"
    by (simp add: ex_depths_values ieee_binary64)
  moreover from internal_correction_keeps_cell_mass[of binary64 ex_depths sy 0 0 "1 / 4"] sy fy q
  have "fdiv binary64 (fadd binary64 (at3 (ypU sy) 0 0 0) (at3 (ymU sy) 0 (Suc 0) 0)) (Fin 2) = Fin (1 / 4)"
    by (simp add: ex_depths_values ieee_binary64)
  ultimately show ?thesis
    using sx sy fx fy q px py by (simp add: ex_depths_values ieee_binary64)
qed

text \<open>
  Claim C1 as stated fails: the average is not the center depth at every cell
  where the corrector fires.  In \<open>big_depths\<close> the center depth of the first cell is
  \<open>2 ^ 1023\<close>, a finite number of binary64, and the plus depth at its left face is
  negative.  The corrector leaves \<open>0\<close> and the double of the center depth, which
  overflows to an infinity, and the average of the two is that infinity.
\<close>

theorem internal_correction_overflow:
  "\<exists>sx. fix_neg_depth_x binary64 big_depths = Some sx
     \<and> 0 < rows2 (H big_depths) \<and> 0 < cols2 (H big_depths)
     \<and> flt (at3 (xpU big_depths) 0 0 0) (Fin 0)
     \<and> at2 (H big_depths) 0 0 = Fin (2 ^ 1023) \<and> is_float binary64 (2 ^ 1023)
     \<and> at3 (xpU sx) 0 0 0 = Fin 0 \<and> at3 (xmU sx) 0 0 (Suc 0) = PInf
     \<and> fdiv binary64 (fadd binary64 (at3 (xpU sx) 0 0 0) (at3 (xmU sx) 0 0 (Suc 0))) (Fin 2) = PInf
     \<and> fdiv binary64 (fadd binary64 (at3 (xpU sx) 0 0 0) (at3 (xmU sx) 0 0 (Suc 0))) (Fin 2)
         \<noteq> at2 (H big_depths) 0 0"
proof -
  from fix_neg_depth_x_ok[OF big_depths_values(1)] obtain sx where
    sx: "fix_neg_depth_x binary64 big_depths = Some sx" by blast
  have p: "at3 (xpU sx) 0 0 0 = Fin 0" "at3 (xmU sx) 0 0 (Suc 0) = PInf"
    using fix_neg_depth_x_cell[OF sx, of 0 0]
    by (simp_all add: big_depths_values(2-6) correct_neg_depth_internal_def double_overflow(2)
        del: power_numeral fmul.simps)
  show ?thesis
    using sx by (simp add: p big_depths_values(2-6) double_overflow del: power_numeral fmul.simps fadd.simps fdiv.simps)
qed

text \<open>
  Claim C10.  In each direction, at every interior cell \<open>(j, i)\<close> whose two
  internal-facing face depths are both not negative before the correction (in
  particular when both are \<open>\<ge> 0\<close>), the block of that direction leaves both
  depths and the center depth \<open>H\<close> as they were.
\<close>

theorem internal_correction_idle:
  "(fix_neg_depth_x ar st = Some st' \<and> j < rows2 (H st) \<and> i < cols2 (H st)
      \<and> \<not> flt (at3 (xpU st) 0 j i) (Fin 0) \<and> \<not> flt (at3 (xmU st) 0 j (Suc i)) (Fin 0)
    \<longrightarrow> at3 (xpU st') 0 j i = at3 (xpU st) 0 j i
      \<and> at3 (xmU st') 0 j (Suc i) = at3 (xmU st) 0 j (Suc i) \<and> H st' = H st)
   \<and> (fix_neg_depth_y ar st = Some st' \<and> j < rows2 (H st) \<and> i < cols2 (H st)
      \<and> \<not> flt (at3 (ypU st) 0 j i) (Fin 0) \<and> \<not> flt (at3 (ymU st) 0 (Suc j) i) (Fin 0)
    \<longrightarrow> at3 (ypU st') 0 j i = at3 (ypU st) 0 j i
      \<and> at3 (ymU st') 0 (Suc j) i = at3 (ymU st) 0 (Suc j) i \<and> H st' = H st)"
proof (intro conjI impI)
  assume a: "fix_neg_depth_x ar st = Some st' \<and> j < rows2 (H st) \<and> i < cols2 (H st)
      \<and> \<not> flt (at3 (xpU st) 0 j i) (Fin 0) \<and> \<not> flt (at3 (xmU st) 0 j (Suc i)) (Fin 0)"
  then have s: "fix_neg_depth_x ar st = Some st'" and j: "j < rows2 (H st)" and i: "i < cols2 (H st)"
    and f: "\<not> flt (at3 (xpU st) 0 j i) (Fin 0)" "\<not> flt (at3 (xmU st) 0 j (Suc i)) (Fin 0)"
    by simp_all
  show "H st' = H st" using fix_neg_depth_x_frame[OF s] by auto
  note c = fix_neg_depth_x_cell[OF s j i] correct_idle[OF f, of ar "at2 (H st) j i"]
  show "at3 (xpU st') 0 j i = at3 (xpU st) 0 j i" using c by simp
  show "at3 (xmU st') 0 j (Suc i) = at3 (xmU st) 0 j (Suc i)" using c by simp
next
  assume a: "fix_neg_depth_y ar st = Some st' \<and> j < rows2 (H st) \<and> i < cols2 (H st)
      \<and> \<not> flt (at3 (ypU st) 0 j i) (Fin 0) \<and> \<not> flt (at3 (ymU st) 0 (Suc j) i) (Fin 0)"
  then have s: "fix_neg_depth_y ar st = Some st'" and j: "j < rows2 (H st)" and i: "i < cols2 (H st)"
    and f: "\<not> flt (at3 (ypU st) 0 j i) (Fin 0)" "\<not> flt (at3 (ymU st) 0 (Suc j) i) (Fin 0)"
    by simp_all
  show "H st' = H st" using fix_neg_depth_y_frame[OF s] by auto
  note c = fix_neg_depth_y_cell[OF s j i] correct_idle[OF f, of ar "at2 (H st) j i"]
  show "at3 (ypU st') 0 j i = at3 (ypU st) 0 j i" using c by simp
  show "at3 (ymU st') 0 (Suc j) i = at3 (ymU st) 0 (Suc j) i" using c by simp
qed

text \<open>
  Claim C10 on \<open>ex_depths\<close>, at the second cell, whose face depths are \<open>1/2\<close> and
  \<open>3/2\<close> in x and \<open>2\<close> and \<open>3\<close> in y.
\<close>

theorem internal_correction_idle_witness:
  "\<exists>sx sy. fix_neg_depth_x binary64 ex_depths = Some sx \<and> fix_neg_depth_y binary64 ex_depths = Some sy
     \<and> fle (Fin 0) (at3 (xpU ex_depths) 0 0 (Suc 0))
     \<and> fle (Fin 0) (at3 (xmU ex_depths) 0 0 (Suc (Suc 0)))
     \<and> fle (Fin 0) (at3 (ypU ex_depths) 0 0 (Suc 0))
     \<and> fle (Fin 0) (at3 (ymU ex_depths) 0 (Suc 0) (Suc 0))
     \<and> at3 (xpU sx) 0 0 (Suc 0) = Fin (1 / 2) \<and> at3 (xmU sx) 0 0 (Suc (Suc 0)) = Fin (3 / 2)
     \<and> at3 (ypU sy) 0 0 (Suc 0) = Fin 2 \<and> at3 (ymU sy) 0 (Suc 0) (Suc 0) = Fin 3
     \<and> H sx = H ex_depths \<and> H sy = H ex_depths"
proof -
  from fix_neg_depth_x_ok[OF ex_shapes(2)] obtain sx where sx: "fix_neg_depth_x binary64 ex_depths = Some sx"
    by blast
  from fix_neg_depth_y_ok[OF ex_shapes(2)] obtain sy where sy: "fix_neg_depth_y binary64 ex_depths = Some sy"
    by blast
  from internal_correction_idle[of binary64 ex_depths sx 0 "Suc 0"] sx
  have "at3 (xpU sx) 0 0 (Suc 0) = Fin (1 / 2) \<and> at3 (xmU sx) 0 0 (Suc (Suc 0)) = Fin (3 / 2)
      \<and> H sx = H ex_depths"
    by (simp add: ex_depths_values)
  moreover from internal_correction_idle[of binary64 ex_depths sy 0 "Suc 0"] sy
  have "at3 (ypU sy) 0 0 (Suc 0) = Fin 2 \<and> at3 (ymU sy) 0 (Suc 0) (Suc 0) = Fin 3
      \<and> H sy = H ex_depths"
    by (simp add: ex_depths_values)
  ultimately show ?thesis using sx sy by (simp add: ex_depths_values fle_def)
qed

section \<open>The stages of a call that returns\<close>

lemma reconstruct_stages:
  assumes "reconstruct ar st rt cfg = Some (st', rt')"
  shows "\<exists>c s5 s6. corrected_depths ar st rt cfg = Some c \<and> fix_rounding_err c rt = Some s5
     \<and> recnstrt_face_vel ar s5 cfg = Some s6 \<and> recnstrt_face_cons ar s6 rt = Some st' \<and> rt' = rt"
  using assms by (auto simp: reconstruct_def bind_eq_Some_conv)

lemma reconstruct_corrected:
  assumes "reconstruct ar st rt cfg = Some (st', rt')"
  shows "\<exists>c. corrected_depths ar st rt cfg = Some c \<and> H st' = H c"
proof -
  from reconstruct_stages[OF assms] obtain c s5 s6 where
    s: "corrected_depths ar st rt cfg = Some c" "fix_rounding_err c rt = Some s5"
      "recnstrt_face_vel ar s5 cfg = Some s6" "recnstrt_face_cons ar s6 rt = Some st'" by blast
  from fix_rounding_err_SomeD[OF s(2)] recnstrt_face_vel_SomeD[OF s(3)]
    recnstrt_face_cons_SomeD[OF s(4)]
  have "H st' = H c" by auto
  then show ?thesis using s(1) by blast
qed

lemma reconstruct_face_xm:
  assumes "reconstruct ar st rt cfg = Some (st', rt')" "corrected_depths ar st rt cfg = Some c"
  shows "\<exists>u1. fix_rounding (tol rt) (xmU c) = Some u1
            \<and> face_vel ar (drytol (params cfg)) (xmQ c) u1 = Some (xmU st')
            \<and> face_cons ar (xmU st') (xfcenters (topo rt)) (xmQ c) = Some (xmQ st')"
proof -
  from reconstruct_stages[OF assms(1)] assms(2) obtain s5 s6 where
    s: "fix_rounding_err c rt = Some s5"
      "recnstrt_face_vel ar s5 cfg = Some s6" "recnstrt_face_cons ar s6 rt = Some st'" by auto
  from fix_rounding_err_SomeD[OF s(1)] recnstrt_face_vel_SomeD[OF s(2)]
    recnstrt_face_cons_SomeD[OF s(3)]
  show ?thesis by auto
qed

lemma reconstruct_face_xp:
  assumes "reconstruct ar st rt cfg = Some (st', rt')" "corrected_depths ar st rt cfg = Some c"
  shows "\<exists>u1. fix_rounding (tol rt) (xpU c) = Some u1
            \<and> face_vel ar (drytol (params cfg)) (xpQ c) u1 = Some (xpU st')
            \<and> face_cons ar (xpU st') (xfcenters (topo rt)) (xpQ c) = Some (xpQ st')"
proof -
  from reconstruct_stages[OF assms(1)] assms(2) obtain s5 s6 where
    s: "fix_rounding_err c rt = Some s5"
      "recnstrt_face_vel ar s5 cfg = Some s6" "recnstrt_face_cons ar s6 rt = Some st'" by auto
  from fix_rounding_err_SomeD[OF s(1)] recnstrt_face_vel_SomeD[OF s(2)]
    recnstrt_face_cons_SomeD[OF s(3)]
  show ?thesis by auto
qed

lemma reconstruct_face_ym:
  assumes "reconstruct ar st rt cfg = Some (st', rt')" "corrected_depths ar st rt cfg = Some c"
  shows "\<exists>u1. fix_rounding (tol rt) (ymU c) = Some u1
            \<and> face_vel ar (drytol (params cfg)) (ymQ c) u1 = Some (ymU st')
            \<and> face_cons ar (ymU st') (yfcenters (topo rt)) (ymQ c) = Some (ymQ st')"
proof -
  from reconstruct_stages[OF assms(1)] assms(2) obtain s5 s6 where
    s: "fix_rounding_err c rt = Some s5"
      "recnstrt_face_vel ar s5 cfg = Some s6" "recnstrt_face_cons ar s6 rt = Some st'" by auto
  from fix_rounding_err_SomeD[OF s(1)] recnstrt_face_vel_SomeD[OF s(2)]
    recnstrt_face_cons_SomeD[OF s(3)]
  show ?thesis by auto
qed

lemma reconstruct_face_yp:
  assumes "reconstruct ar st rt cfg = Some (st', rt')" "corrected_depths ar st rt cfg = Some c"
  shows "\<exists>u1. fix_rounding (tol rt) (ypU c) = Some u1
            \<and> face_vel ar (drytol (params cfg)) (ypQ c) u1 = Some (ypU st')
            \<and> face_cons ar (ypU st') (yfcenters (topo rt)) (ypQ c) = Some (ypQ st')"
proof -
  from reconstruct_stages[OF assms(1)] assms(2) obtain s5 s6 where
    s: "fix_rounding_err c rt = Some s5"
      "recnstrt_face_vel ar s5 cfg = Some s6" "recnstrt_face_cons ar s6 rt = Some st'" by auto
  from fix_rounding_err_SomeD[OF s(1)] recnstrt_face_vel_SomeD[OF s(2)]
    recnstrt_face_cons_SomeD[OF s(3)]
  show ?thesis by auto
qed

section \<open>The example states, stage by stage\<close>

lemma ex_slices:
  "sl_start (rows3 (Q ex_st)) (sl_range (ybg ex_st) (yed ex_st)) = 2"
  "sl_start (cols3 (Q ex_st)) (sl_range (xbg ex_st - 2) (xed ex_st)) = 0"
  "sl_start (cols3 (Q ex_st)) (sl_range (xbg ex_st - 1) (xed ex_st + 1)) = 1"
  "sl_start (cols3 (Q ex_st)) (sl_range (xbg ex_st) (xed ex_st + 2)) = 2"
  "sl_start (cols3 (Q ex_st)) (sl_range (xbg ex_st - 1) (xed ex_st)) = 1"
  "sl_start (cols3 (Q ex_st)) (sl_range (xbg ex_st) (xed ex_st + 1)) = 2"
  "sl_start (cols3 (Q ex_st)) (sl_range (xbg ex_st) (xed ex_st)) = 2"
  "sl_len (cols3 (Q ex_st)) (sl_range (xbg ex_st - 2) (xed ex_st)) = 4"
  "sl_start (rows3 (Q ex_st)) (sl_range (ybg ex_st - 2) (yed ex_st)) = 0"
  "sl_start (rows3 (Q ex_st)) (sl_range (ybg ex_st - 1) (yed ex_st + 1)) = 1"
  "sl_start (rows3 (Q ex_st)) (sl_range (ybg ex_st) (yed ex_st + 2)) = 2"
  "sl_start (rows3 (Q ex_st)) (sl_range (ybg ex_st - 1) (yed ex_st)) = 1"
  "sl_start (rows3 (Q ex_st)) (sl_range (ybg ex_st) (yed ex_st + 1)) = 2"
  "sl_len (rows3 (Q ex_st)) (sl_range (ybg ex_st - 2) (yed ex_st)) = 3"
  by (simp_all add: sl_start_def sl_stop_def sl_len_def norm_bound_def ybg_def yed_def xbg_def xed_def ny_def nx_def
      ex_st_def)

lemma ex_minmod:
  "minmod_slope_kernel binary64 (Fin 1) (Fin 2) (Fin 3) (Fin (5 / 4)) = Fin (1 / 2)"
  "minmod_slope_kernel binary64 (Fin 3) (Fin 3) (Fin 3) (Fin (5 / 4)) = Fin 0"
  "minmod_slope_kernel binary64 (Fin 2) (Fin 2) (Fin 2) (Fin (5 / 4)) = Fin 0"
  by (simp_all add: minmod_slope_kernel_def Let_def fsub_def fin_binary64 fmin_Fin fmax_Fin
      fmin_def fmax_def)

lemma ex_Q:
  "at3 (Q ex_st) 0 j i = Fin (real i)" "at3 (Q ex_st) (Suc 0) j i = Fin 3"
  "at3 (Q ex_st) 2 j i = Fin (real j)" "theta (params ex_cfg) = Fin (5 / 4)"
  "at2 (centers (topo ex_rt)) j i = Fin (7 / 4)" "at2 (xfcenters (topo ex_rt)) j i = Fin 2"
  "tol ex_rt = Fin (1 / 1024)" "drytol (params ex_cfg) = Fin (1 / 128)"
  "at2 (yfcenters (topo ex_rt)) j i = Fin 1"
  by (simp_all add: ex_st_def ex_cfg_def ex_rt_def const2_def)

lemma ex_corrected:
  assumes "corrected_depths binary64 ex_st ex_rt ex_cfg = Some c"
  shows "at3 (xpU c) 0 0 0 = Fin 0" "at3 (xpQ c) (Suc 0) 0 0 = Fin 3" "at3 (xpQ c) 2 0 0 = Fin 2"
    "at3 (xmU c) 0 0 (Suc 0) = Fin (1 / 2)" "at3 (xmQ c) (Suc 0) 0 (Suc 0) = Fin 3"
    "at3 (xmQ c) 2 0 (Suc 0) = Fin 2"
    "at3 (ypU c) 0 0 0 = Fin 1" "at3 (ypQ c) (Suc 0) 0 0 = Fin 3" "at3 (ypQ c) 2 0 0 = Fin (3 / 2)"
proof -
  from corrected_depths_SomeD[OF assms] obtain u ux where
    u: "uncorrected_depths binary64 ex_st ex_rt ex_cfg = Some u"
    and ux: "fix_neg_depth_x binary64 u = Some ux" and c: "fix_neg_depth_y binary64 ux = Some c"
    by blast
  from uncorrected_depths_SomeD[OF u] obtain slpx slpy s where
    g: "get_slopes binary64 ex_st ex_cfg = Some (slpx, slpy)"
    and f: "get_face_Q binary64 ex_st slpx slpy = Some s"
    and d: "calc_depth binary64 s ex_rt = Some u" by blast
  have uo: "shapes_ok u ex_rt" using uncorrected_depths_ok[OF ex_shapes(1), of binary64 ex_cfg] u by auto
  from uncorrected_depths_frame[OF u] have e: "ny u = 1" "nx u = 2"
    by (simp_all add: ny_def nx_def ex_extents[unfolded ny_def nx_def])
  have sh: "rows2 (H u) = 1" "cols2 (H u) = 2" "rows3 (xpU u) = 1" "cols3 (xpU u) = 3"
    "rows3 (xmU u) = 1" "cols3 (xmU u) = 3"
    using shapes_okD(7,8,16,17,19,20)[OF uo] e by simp_all
  have c2: "sl_start (rows3 slpy) (sl_from 1) = 1"
    using get_slopes_SomeD(7)[OF g] by (simp add: ex_slices sl_start_def norm_bound_def)
  have sly: "at3 slpy 0 (Suc 0) 0 = Fin 0" "at3 slpy (Suc 0) (Suc 0) 0 = Fin 0"
    "at3 slpy 2 (Suc 0) 0 = Fin (1 / 2)" "at3 slpy 0 (Suc 0) 0 = Fin 0"
    by (simp_all add: get_slopes_SomeD(10)[OF g] ex_slices ex_Q ex_minmod)
  have c1: "sl_start (cols3 slpx) (sl_from 1) = 1"
    using get_slopes_SomeD(2)[OF g] by (simp add: ex_slices sl_start_def norm_bound_def)
  have sl: "at3 slpx 0 0 (Suc 0) = Fin (1 / 2)" "at3 slpx (Suc 0) 0 (Suc 0) = Fin 0"
    "at3 slpx 2 0 (Suc 0) = Fin 0"
    by (simp_all add: get_slopes_SomeD(5)[OF g] ex_slices ex_Q ex_minmod)
  have q: "at3 (xmQ s) 0 0 (Suc 0) = Fin (5 / 2)" "at3 (xmQ s) (Suc 0) 0 (Suc 0) = Fin 3"
    "at3 (xmQ s) 2 0 (Suc 0) = Fin 2"
    "at3 (xpQ s) 0 0 0 = Fin (3 / 2)" "at3 (xpQ s) (Suc 0) 0 0 = Fin 3" "at3 (xpQ s) 2 0 0 = Fin 2"
    by (simp_all add: get_face_Q_SomeD(5,9)[OF f] c1 sl ex_slices ex_Q fsub_def fin_binary64)
  have qy: "at3 (ypQ s) 0 0 0 = Fin 2" "at3 (ypQ s) (Suc 0) 0 0 = Fin 3"
    "at3 (ypQ s) 2 0 0 = Fin (3 / 2)" "at3 (ymQ s) 0 (Suc 0) 0 = Fin 2"
    by (simp_all add: get_face_Q_SomeD(13,17)[OF f] c2 sly ex_slices ex_Q fsub_def fin_binary64)
  from get_face_Q_SomeD(1)[OF f] have su: "xmU s = xmU ex_st" "xpU s = xpU ex_st"
    "ymU s = ymU ex_st" "ypU s = ypU ex_st" by auto
  have ssh: "rows3 (xmU s) = 1" "cols3 (xmU s) = 3" "rows3 (xpU s) = 1" "cols3 (xpU s) = 3"
    "rows3 (ymU s) = 2" "cols3 (ymU s) = 2" "rows3 (ypU s) = 2" "cols3 (ypU s) = 2"
    by (simp_all add: su ex_st_def const3_def)
  have hu: "at2 (H u) 0 0 = Fin (1 / 4)"
    by (simp add: uncorrected_depths_H[OF u] ex_slices ex_Q fsub_def fin_binary64)
  have du: "at3 (xpU u) 0 0 0 = Fin (- 1 / 2)" "at3 (xmU u) 0 0 (Suc 0) = Fin (1 / 2)"
    by (simp_all add: face_depth_SomeD(10)[OF calc_depth_SomeD(7)[OF d]]
        face_depth_SomeD(10)[OF calc_depth_SomeD(8)[OF d]] ssh q ex_Q fsub_def fin_binary64)
  have dx: "at3 (xpU ux) 0 0 0 = Fin 0" "at3 (xmU ux) 0 0 (Suc 0) = Fin (1 / 2)"
    using fix_neg_depth_x_cell[OF ux, of 0 0] sh
    by (simp_all add: hu du correct_neg_depth_internal_def fin_binary64)
  have dy: "at3 (ypU u) 0 0 0 = Fin 1" "at3 (ymU u) 0 (Suc 0) 0 = Fin 1"
    by (simp_all add: face_depth_SomeD(10)[OF calc_depth_SomeD(9)[OF d]]
        face_depth_SomeD(10)[OF calc_depth_SomeD(10)[OF d]] ssh qy ex_Q fsub_def fin_binary64)
  from calc_depth_SomeD(1)[OF d] have qu: "xmQ u = xmQ s" "xpQ u = xpQ s" "ypQ u = ypQ s"
    by simp_all
  from fix_neg_depth_x_frame[OF ux] have qx: "xmQ ux = xmQ u" "xpQ ux = xpQ u" "ypQ ux = ypQ u"
    "H ux = H u" "ypU ux = ypU u" "ymU ux = ymU u" by auto
  from fix_neg_depth_y_frame[OF c] have qc: "xmQ c = xmQ ux" "xpQ c = xpQ ux" "xmU c = xmU ux"
    "xpU c = xpU ux" "ypQ c = ypQ ux" by auto
  have dc: "at3 (ypU c) 0 0 0 = Fin 1"
    using fix_neg_depth_y_cell(1)[OF c, of 0 0] sh
    by (simp add: qx hu dy correct_neg_depth_internal_def)
  show "at3 (xpU c) 0 0 0 = Fin 0" "at3 (xpQ c) (Suc 0) 0 0 = Fin 3" "at3 (xpQ c) 2 0 0 = Fin 2"
    "at3 (xmU c) 0 0 (Suc 0) = Fin (1 / 2)" "at3 (xmQ c) (Suc 0) 0 (Suc 0) = Fin 3"
    "at3 (xmQ c) 2 0 (Suc 0) = Fin 2"
    "at3 (ypU c) 0 0 0 = Fin 1" "at3 (ypQ c) (Suc 0) 0 0 = Fin 3" "at3 (ypQ c) 2 0 0 = Fin (3 / 2)"
    by (simp_all add: qc qx qu q qy dx dc)
qed

section \<open>The claims about the whole call\<close>

lemma face_pipeline_all:
  assumes "\<exists>u1. fix_rounding t u = Some u1 \<and> face_vel ar dt q u1 = Some u2
             \<and> face_cons ar u2 b q = Some q2"
    and "j < rows3 u2" "i < cols3 u2"
    and h: "h = (if flt (at3 u 0 j i) t then Fin 0 else at3 u 0 j i)"
  shows "at3 u2 0 j i = h"
    "at3 u2 1 j i = (if flt h dt then Fin 0 else fdiv ar (at3 q 1 j i) h)"
    "at3 u2 2 j i = (if flt h dt then Fin 0 else fdiv ar (at3 q 2 j i) h)"
    "at3 q2 0 j i = fadd ar h (at2 b j i)"
    "at3 q2 1 j i = fmul ar h (if flt h dt then Fin 0 else fdiv ar (at3 q 1 j i) h)"
    "at3 q2 2 j i = fmul ar h (if flt h dt then Fin 0 else fdiv ar (at3 q 2 j i) h)"
proof -
  from assms(1) obtain u1 where
    p: "fix_rounding t u = Some u1" "face_vel ar dt q u1 = Some u2" "face_cons ar u2 b q = Some q2"
    by blast
  note e = face_pipeline[OF p assms(2,3)]
  show 0: "at3 u2 0 j i = h" using e(1) by (simp add: h fix_rounding_err_kernel_def)
  show 1: "at3 u2 1 j i = (if flt h dt then Fin 0 else fdiv ar (at3 q 1 j i) h)"
    using e(2) unfolding 0 by (simp add: recnstrt_face_vel_kernel_def)
  show 2: "at3 u2 2 j i = (if flt h dt then Fin 0 else fdiv ar (at3 q 2 j i) h)"
    using e(3) unfolding 0 by (simp add: recnstrt_face_vel_kernel_def)
  show "at3 q2 0 j i = fadd ar h (at2 b j i)" using e(4) unfolding 0 .
  show "at3 q2 1 j i = fmul ar h (if flt h dt then Fin 0 else fdiv ar (at3 q 1 j i) h)"
    using e(5) unfolding 0 1 by simp
  show "at3 q2 2 j i = fmul ar h (if flt h dt then Fin 0 else fdiv ar (at3 q 2 j i) h)"
    using e(6) unfolding 0 2 .
qed

lemma face_pipeline_recombined:
  assumes "\<exists>u1. fix_rounding t u = Some u1 \<and> face_vel ar dt q u1 = Some u2
             \<and> face_cons ar u2 b q = Some q2"
  shows "\<forall>j<rows3 q2. \<forall>i<cols3 q2.
     (let h = (if flt (at3 u 0 j i) t then Fin 0 else at3 u 0 j i);
          uu = (if flt h dt then Fin 0 else fdiv ar (at3 q 1 j i) h);
          vv = (if flt h dt then Fin 0 else fdiv ar (at3 q 2 j i) h)
      in at3 u2 0 j i = h \<and> at3 u2 1 j i = uu \<and> at3 u2 2 j i = vv
       \<and> at3 q2 0 j i = fadd ar h (at2 b j i)
       \<and> at3 q2 1 j i = fmul ar h uu \<and> at3 q2 2 j i = fmul ar h vv)"
proof (intro allI impI)
  fix j i assume ji: "j < rows3 q2" "i < cols3 q2"
  from assms obtain u1 where
    p: "fix_rounding t u = Some u1" "face_vel ar dt q u1 = Some u2" "face_cons ar u2 b q = Some q2"
    by blast
  have ji': "j < rows3 u2" "i < cols3 u2" using ji face_pipeline_shape(1-4)[OF p] by simp_all
  show "let h = (if flt (at3 u 0 j i) t then Fin 0 else at3 u 0 j i);
          uu = (if flt h dt then Fin 0 else fdiv ar (at3 q 1 j i) h);
          vv = (if flt h dt then Fin 0 else fdiv ar (at3 q 2 j i) h)
      in at3 u2 0 j i = h \<and> at3 u2 1 j i = uu \<and> at3 u2 2 j i = vv
       \<and> at3 q2 0 j i = fadd ar h (at2 b j i)
       \<and> at3 q2 1 j i = fmul ar h uu \<and> at3 q2 2 j i = fmul ar h vv"
    unfolding Let_def by (intro conjI face_pipeline_all[OF assms ji' refl])
qed

lemma face_pipeline_guarded:
  assumes "\<exists>u1. fix_rounding t u = Some u1 \<and> face_vel ar dt q u1 = Some u2
             \<and> face_cons ar u2 b q = Some q2"
  shows "\<forall>j<rows3 u2. \<forall>i<cols3 u2.
     (let h = (if flt (at3 u 0 j i) t then Fin 0 else at3 u 0 j i)
      in at3 u2 0 j i = h
       \<and> (if flt h dt then at3 u2 1 j i = Fin 0 \<and> at3 u2 2 j i = Fin 0
          else at3 u2 1 j i = fdiv ar (at3 q 1 j i) h \<and> at3 u2 2 j i = fdiv ar (at3 q 2 j i) h))"
proof (intro allI impI)
  fix j i assume ji: "j < rows3 u2" "i < cols3 u2"
  note e = face_pipeline_all(1-3)[OF assms ji refl]
  show "let h = (if flt (at3 u 0 j i) t then Fin 0 else at3 u 0 j i)
      in at3 u2 0 j i = h
       \<and> (if flt h dt then at3 u2 1 j i = Fin 0 \<and> at3 u2 2 j i = Fin 0
          else at3 u2 1 j i = fdiv ar (at3 q 1 j i) h \<and> at3 u2 2 j i = fdiv ar (at3 q 2 j i) h)"
    unfolding Let_def using e by simp
qed

text \<open>
  Claim C3.  After a call of \<^verbatim>\<open>reconstruct\<close> that returns, every face of the four
  face arrays holds the recombination of its depth and velocities: \<open>w = h + b\<close>
  with the x-face topography for the x faces and the y-face topography for the y
  faces, \<open>hu = h * u\<close> and \<open>hv = h * v\<close>.  Here \<open>h\<close>, \<open>u\<close> and \<open>v\<close> are the values
  that the face array \<open>U\<close> holds after the call, and they are what lines 176-186
  compute from \<open>c\<close>, the state after line 174: \<open>h\<close> is the corrected depth of
  \<open>c\<close>, or \<open>0\<close> when that is below \<open>tol\<close>, and \<open>u\<close> and \<open>v\<close> are the extrapolated
  momenta of \<open>c\<close> divided by \<open>h\<close>, or \<open>0\<close> when \<open>h\<close> is below \<open>drytol\<close>.  The sum
  and the products are those of the floating-point arithmetic.
\<close>

theorem recombination_consistent:
  assumes "reconstruct ar st rt cfg = Some (st', rt')"
  shows "\<exists>c. corrected_depths ar st rt cfg = Some c
     \<and> (\<forall>j<rows3 (xmQ st'). \<forall>i<cols3 (xmQ st').
          (let h = (if flt (at3 (xmU c) 0 j i) (tol rt) then Fin 0 else at3 (xmU c) 0 j i);
               u = (if flt h (drytol (params cfg)) then Fin 0 else fdiv ar (at3 (xmQ c) 1 j i) h);
               v = (if flt h (drytol (params cfg)) then Fin 0 else fdiv ar (at3 (xmQ c) 2 j i) h)
           in at3 (xmU st') 0 j i = h \<and> at3 (xmU st') 1 j i = u \<and> at3 (xmU st') 2 j i = v
            \<and> at3 (xmQ st') 0 j i = fadd ar h (at2 (xfcenters (topo rt)) j i)
            \<and> at3 (xmQ st') 1 j i = fmul ar h u \<and> at3 (xmQ st') 2 j i = fmul ar h v))
     \<and> (\<forall>j<rows3 (xpQ st'). \<forall>i<cols3 (xpQ st').
          (let h = (if flt (at3 (xpU c) 0 j i) (tol rt) then Fin 0 else at3 (xpU c) 0 j i);
               u = (if flt h (drytol (params cfg)) then Fin 0 else fdiv ar (at3 (xpQ c) 1 j i) h);
               v = (if flt h (drytol (params cfg)) then Fin 0 else fdiv ar (at3 (xpQ c) 2 j i) h)
           in at3 (xpU st') 0 j i = h \<and> at3 (xpU st') 1 j i = u \<and> at3 (xpU st') 2 j i = v
            \<and> at3 (xpQ st') 0 j i = fadd ar h (at2 (xfcenters (topo rt)) j i)
            \<and> at3 (xpQ st') 1 j i = fmul ar h u \<and> at3 (xpQ st') 2 j i = fmul ar h v))
     \<and> (\<forall>j<rows3 (ymQ st'). \<forall>i<cols3 (ymQ st').
          (let h = (if flt (at3 (ymU c) 0 j i) (tol rt) then Fin 0 else at3 (ymU c) 0 j i);
               u = (if flt h (drytol (params cfg)) then Fin 0 else fdiv ar (at3 (ymQ c) 1 j i) h);
               v = (if flt h (drytol (params cfg)) then Fin 0 else fdiv ar (at3 (ymQ c) 2 j i) h)
           in at3 (ymU st') 0 j i = h \<and> at3 (ymU st') 1 j i = u \<and> at3 (ymU st') 2 j i = v
            \<and> at3 (ymQ st') 0 j i = fadd ar h (at2 (yfcenters (topo rt)) j i)
            \<and> at3 (ymQ st') 1 j i = fmul ar h u \<and> at3 (ymQ st') 2 j i = fmul ar h v))
     \<and> (\<forall>j<rows3 (ypQ st'). \<forall>i<cols3 (ypQ st').
          (let h = (if flt (at3 (ypU c) 0 j i) (tol rt) then Fin 0 else at3 (ypU c) 0 j i);
               u = (if flt h (drytol (params cfg)) then Fin 0 else fdiv ar (at3 (ypQ c) 1 j i) h);
               v = (if flt h (drytol (params cfg)) then Fin 0 else fdiv ar (at3 (ypQ c) 2 j i) h)
           in at3 (ypU st') 0 j i = h \<and> at3 (ypU st') 1 j i = u \<and> at3 (ypU st') 2 j i = v
            \<and> at3 (ypQ st') 0 j i = fadd ar h (at2 (yfcenters (topo rt)) j i)
            \<and> at3 (ypQ st') 1 j i = fmul ar h u \<and> at3 (ypQ st') 2 j i = fmul ar h v))"
proof -
  from reconstruct_corrected[OF assms] obtain c where c: "corrected_depths ar st rt cfg = Some c"
    by blast
  show ?thesis
    by (intro exI[of _ c] conjI c
        face_pipeline_recombined[OF reconstruct_face_xm[OF assms c]]
        face_pipeline_recombined[OF reconstruct_face_xp[OF assms c]]
        face_pipeline_recombined[OF reconstruct_face_ym[OF assms c]]
        face_pipeline_recombined[OF reconstruct_face_yp[OF assms c]])
qed

text \<open>
  Claim C3 on \<open>ex_st\<close>.  At the second minus face in x the corrected depth is
  \<open>1/2\<close> and the momenta are \<open>3\<close> and \<open>2\<close>: the call leaves the depth \<open>1/2\<close>, the
  velocities \<open>6\<close> and \<open>4\<close>, the elevation \<open>1/2 + 2\<close> and the momenta \<open>3\<close> and
  \<open>2\<close>.  At the first plus face in x the corrected depth is \<open>0\<close>: the velocities
  are \<open>0\<close>, the elevation is that of the bed, \<open>2\<close>, and the momenta are \<open>0\<close>.  At
  the first plus face in y the depth is \<open>1\<close> over a bed at \<open>1\<close>.
\<close>

theorem recombination_consistent_witness:
  "\<exists>st' rt' c. reconstruct binary64 ex_st ex_rt ex_cfg = Some (st', rt')
     \<and> corrected_depths binary64 ex_st ex_rt ex_cfg = Some c
     \<and> 0 < rows3 (xmQ st') \<and> Suc 0 < cols3 (xmQ st') \<and> 0 < rows3 (xpQ st') \<and> 0 < cols3 (xpQ st')
     \<and> 0 < rows3 (ypQ st') \<and> 0 < cols3 (ypQ st')
     \<and> at3 (xmU c) 0 0 (Suc 0) = Fin (1 / 2) \<and> at3 (xmQ c) 1 0 (Suc 0) = Fin 3
     \<and> at3 (xmQ c) 2 0 (Suc 0) = Fin 2
     \<and> at3 (xmU st') 0 0 (Suc 0) = Fin (1 / 2) \<and> at3 (xmU st') 1 0 (Suc 0) = Fin 6
     \<and> at3 (xmU st') 2 0 (Suc 0) = Fin 4
     \<and> at3 (xmQ st') 0 0 (Suc 0) = Fin (5 / 2) \<and> at3 (xmQ st') 1 0 (Suc 0) = Fin 3
     \<and> at3 (xmQ st') 2 0 (Suc 0) = Fin 2
     \<and> at3 (xpU c) 0 0 0 = Fin 0 \<and> at3 (xpQ c) 1 0 0 = Fin 3 \<and> at3 (xpQ c) 2 0 0 = Fin 2
     \<and> at3 (xpU st') 0 0 0 = Fin 0 \<and> at3 (xpU st') 1 0 0 = Fin 0 \<and> at3 (xpU st') 2 0 0 = Fin 0
     \<and> at3 (xpQ st') 0 0 0 = Fin 2 \<and> at3 (xpQ st') 1 0 0 = Fin 0 \<and> at3 (xpQ st') 2 0 0 = Fin 0
     \<and> at3 (ypU c) 0 0 0 = Fin 1 \<and> at3 (ypQ c) 1 0 0 = Fin 3 \<and> at3 (ypQ c) 2 0 0 = Fin (3 / 2)
     \<and> at3 (ypU st') 0 0 0 = Fin 1 \<and> at3 (ypU st') 1 0 0 = Fin 3
     \<and> at3 (ypU st') 2 0 0 = Fin (3 / 2)
     \<and> at3 (ypQ st') 0 0 0 = Fin 2 \<and> at3 (ypQ st') 1 0 0 = Fin 3
     \<and> at3 (ypQ st') 2 0 0 = Fin (3 / 2)"
proof -
  from reconstruct_ok_shapes[OF ex_shapes(1), of binary64 ex_cfg] obtain st' where
    r: "reconstruct binary64 ex_st ex_rt ex_cfg = Some (st', ex_rt)"
    and sh: "rows3 (xmQ st') = 1" "cols3 (xmQ st') = 3" "rows3 (xpQ st') = 1" "cols3 (xpQ st') = 3"
      "rows3 (ypQ st') = 2" "cols3 (ypQ st') = 2"
    by (auto simp: ex_extents)
  from recombination_consistent[OF r] obtain c where
    c: "corrected_depths binary64 ex_st ex_rt ex_cfg = Some c"
    and xm: "\<forall>j<rows3 (xmQ st'). \<forall>i<cols3 (xmQ st').
          (let h = (if flt (at3 (xmU c) 0 j i) (tol ex_rt) then Fin 0 else at3 (xmU c) 0 j i);
               u = (if flt h (drytol (params ex_cfg)) then Fin 0 else fdiv binary64 (at3 (xmQ c) 1 j i) h);
               v = (if flt h (drytol (params ex_cfg)) then Fin 0 else fdiv binary64 (at3 (xmQ c) 2 j i) h)
           in at3 (xmU st') 0 j i = h \<and> at3 (xmU st') 1 j i = u \<and> at3 (xmU st') 2 j i = v
            \<and> at3 (xmQ st') 0 j i = fadd binary64 h (at2 (xfcenters (topo ex_rt)) j i)
            \<and> at3 (xmQ st') 1 j i = fmul binary64 h u \<and> at3 (xmQ st') 2 j i = fmul binary64 h v)"
    and xp: "\<forall>j<rows3 (xpQ st'). \<forall>i<cols3 (xpQ st').
          (let h = (if flt (at3 (xpU c) 0 j i) (tol ex_rt) then Fin 0 else at3 (xpU c) 0 j i);
               u = (if flt h (drytol (params ex_cfg)) then Fin 0 else fdiv binary64 (at3 (xpQ c) 1 j i) h);
               v = (if flt h (drytol (params ex_cfg)) then Fin 0 else fdiv binary64 (at3 (xpQ c) 2 j i) h)
           in at3 (xpU st') 0 j i = h \<and> at3 (xpU st') 1 j i = u \<and> at3 (xpU st') 2 j i = v
            \<and> at3 (xpQ st') 0 j i = fadd binary64 h (at2 (xfcenters (topo ex_rt)) j i)
            \<and> at3 (xpQ st') 1 j i = fmul binary64 h u \<and> at3 (xpQ st') 2 j i = fmul binary64 h v)"
    and yp: "\<forall>j<rows3 (ypQ st'). \<forall>i<cols3 (ypQ st').
          (let h = (if flt (at3 (ypU c) 0 j i) (tol ex_rt) then Fin 0 else at3 (ypU c) 0 j i);
               u = (if flt h (drytol (params ex_cfg)) then Fin 0 else fdiv binary64 (at3 (ypQ c) 1 j i) h);
               v = (if flt h (drytol (params ex_cfg)) then Fin 0 else fdiv binary64 (at3 (ypQ c) 2 j i) h)
           in at3 (ypU st') 0 j i = h \<and> at3 (ypU st') 1 j i = u \<and> at3 (ypU st') 2 j i = v
            \<and> at3 (ypQ st') 0 j i = fadd binary64 h (at2 (yfcenters (topo ex_rt)) j i)
            \<and> at3 (ypQ st') 1 j i = fmul binary64 h u \<and> at3 (ypQ st') 2 j i = fmul binary64 h v)"
    by blast
  note v = ex_corrected[OF c]
  have a: "at3 (xmU st') 0 0 (Suc 0) = Fin (1 / 2) \<and> at3 (xmU st') 1 0 (Suc 0) = Fin 6
     \<and> at3 (xmU st') 2 0 (Suc 0) = Fin 4
     \<and> at3 (xmQ st') 0 0 (Suc 0) = Fin (5 / 2) \<and> at3 (xmQ st') 1 0 (Suc 0) = Fin 3
     \<and> at3 (xmQ st') 2 0 (Suc 0) = Fin 2"
    using xm[rule_format, of 0 "Suc 0"] sh by (simp add: Let_def v ex_Q fin_binary64)
  have b: "at3 (xpU st') 0 0 0 = Fin 0 \<and> at3 (xpU st') 1 0 0 = Fin 0 \<and> at3 (xpU st') 2 0 0 = Fin 0
     \<and> at3 (xpQ st') 0 0 0 = Fin 2 \<and> at3 (xpQ st') 1 0 0 = Fin 0 \<and> at3 (xpQ st') 2 0 0 = Fin 0"
    using xp[rule_format, of 0 0] sh by (simp add: Let_def v ex_Q fin_binary64)
  have d: "at3 (ypU st') 0 0 0 = Fin 1 \<and> at3 (ypU st') 1 0 0 = Fin 3
     \<and> at3 (ypU st') 2 0 0 = Fin (3 / 2)
     \<and> at3 (ypQ st') 0 0 0 = Fin 2 \<and> at3 (ypQ st') 1 0 0 = Fin 3
     \<and> at3 (ypQ st') 2 0 0 = Fin (3 / 2)"
    using yp[rule_format, of 0 0] sh by (simp add: Let_def v ex_Q fin_binary64)
  show ?thesis
    using r c sh a b d v by (intro exI[of _ st'] exI[of _ ex_rt] exI[of _ c]) simp
qed

text \<open>
  Claim C4.  After a call that returns, at every face of the four face arrays
  the depth is \<open>h\<close>, the corrected depth of \<open>c\<close> (the state after line 174), or
  \<open>0\<close> when that is below \<open>tol\<close>; when \<open>h\<close> is below \<open>drytol\<close> both velocity
  components are \<open>0\<close>, and otherwise they are the face momenta divided by \<open>h\<close>.
  The face momenta are the extrapolated ones, which the face array \<open>Q\<close> holds from
  line 157 until the recombination overwrites them; \<open>c\<close> still has them.
\<close>

theorem face_velocity_guarded:
  assumes "reconstruct ar st rt cfg = Some (st', rt')"
  shows "\<exists>c. corrected_depths ar st rt cfg = Some c
     \<and> (\<forall>j<rows3 (xmU st'). \<forall>i<cols3 (xmU st').
          (let h = (if flt (at3 (xmU c) 0 j i) (tol rt) then Fin 0 else at3 (xmU c) 0 j i)
           in at3 (xmU st') 0 j i = h
            \<and> (if flt h (drytol (params cfg))
               then at3 (xmU st') 1 j i = Fin 0 \<and> at3 (xmU st') 2 j i = Fin 0
               else at3 (xmU st') 1 j i = fdiv ar (at3 (xmQ c) 1 j i) h
                  \<and> at3 (xmU st') 2 j i = fdiv ar (at3 (xmQ c) 2 j i) h)))
     \<and> (\<forall>j<rows3 (xpU st'). \<forall>i<cols3 (xpU st').
          (let h = (if flt (at3 (xpU c) 0 j i) (tol rt) then Fin 0 else at3 (xpU c) 0 j i)
           in at3 (xpU st') 0 j i = h
            \<and> (if flt h (drytol (params cfg))
               then at3 (xpU st') 1 j i = Fin 0 \<and> at3 (xpU st') 2 j i = Fin 0
               else at3 (xpU st') 1 j i = fdiv ar (at3 (xpQ c) 1 j i) h
                  \<and> at3 (xpU st') 2 j i = fdiv ar (at3 (xpQ c) 2 j i) h)))
     \<and> (\<forall>j<rows3 (ymU st'). \<forall>i<cols3 (ymU st').
          (let h = (if flt (at3 (ymU c) 0 j i) (tol rt) then Fin 0 else at3 (ymU c) 0 j i)
           in at3 (ymU st') 0 j i = h
            \<and> (if flt h (drytol (params cfg))
               then at3 (ymU st') 1 j i = Fin 0 \<and> at3 (ymU st') 2 j i = Fin 0
               else at3 (ymU st') 1 j i = fdiv ar (at3 (ymQ c) 1 j i) h
                  \<and> at3 (ymU st') 2 j i = fdiv ar (at3 (ymQ c) 2 j i) h)))
     \<and> (\<forall>j<rows3 (ypU st'). \<forall>i<cols3 (ypU st').
          (let h = (if flt (at3 (ypU c) 0 j i) (tol rt) then Fin 0 else at3 (ypU c) 0 j i)
           in at3 (ypU st') 0 j i = h
            \<and> (if flt h (drytol (params cfg))
               then at3 (ypU st') 1 j i = Fin 0 \<and> at3 (ypU st') 2 j i = Fin 0
               else at3 (ypU st') 1 j i = fdiv ar (at3 (ypQ c) 1 j i) h
                  \<and> at3 (ypU st') 2 j i = fdiv ar (at3 (ypQ c) 2 j i) h)))"
proof -
  from reconstruct_corrected[OF assms] obtain c where c: "corrected_depths ar st rt cfg = Some c"
    by blast
  show ?thesis
    by (intro exI[of _ c] conjI c
        face_pipeline_guarded[OF reconstruct_face_xm[OF assms c]]
        face_pipeline_guarded[OF reconstruct_face_xp[OF assms c]]
        face_pipeline_guarded[OF reconstruct_face_ym[OF assms c]]
        face_pipeline_guarded[OF reconstruct_face_yp[OF assms c]])
qed

text \<open>
  Claim C4 on \<open>ex_st\<close>, where \<open>drytol\<close> is \<open>1/128\<close>.  At the first plus face in x
  the corrected depth is \<open>0\<close>, below \<open>drytol\<close>: both velocities are \<open>0\<close> although
  the momenta are \<open>3\<close> and \<open>2\<close>.  At the second minus face in x the corrected
  depth is \<open>1/2\<close>, not below \<open>drytol\<close>: the velocities are \<open>3 / (1/2) = 6\<close> and
  \<open>2 / (1/2) = 4\<close>.
\<close>

theorem face_velocity_guarded_witness:
  "\<exists>st' rt' c. reconstruct binary64 ex_st ex_rt ex_cfg = Some (st', rt')
     \<and> corrected_depths binary64 ex_st ex_rt ex_cfg = Some c
     \<and> drytol (params ex_cfg) = Fin (1 / 128)
     \<and> 0 < rows3 (xpU st') \<and> 0 < cols3 (xpU st') \<and> 0 < rows3 (xmU st') \<and> Suc 0 < cols3 (xmU st')
     \<and> at3 (xpU c) 0 0 0 = Fin 0 \<and> at3 (xpQ c) 1 0 0 = Fin 3 \<and> at3 (xpQ c) 2 0 0 = Fin 2
     \<and> at3 (xpU st') 0 0 0 = Fin 0 \<and> flt (at3 (xpU st') 0 0 0) (drytol (params ex_cfg))
     \<and> at3 (xpU st') 1 0 0 = Fin 0 \<and> at3 (xpU st') 2 0 0 = Fin 0
     \<and> at3 (xmU c) 0 0 (Suc 0) = Fin (1 / 2) \<and> at3 (xmQ c) 1 0 (Suc 0) = Fin 3
     \<and> at3 (xmQ c) 2 0 (Suc 0) = Fin 2
     \<and> at3 (xmU st') 0 0 (Suc 0) = Fin (1 / 2)
     \<and> fle (drytol (params ex_cfg)) (at3 (xmU st') 0 0 (Suc 0))
     \<and> at3 (xmU st') 1 0 (Suc 0) = Fin 6 \<and> at3 (xmU st') 2 0 (Suc 0) = Fin 4"
proof -
  from reconstruct_ok_shapes[OF ex_shapes(1), of binary64 ex_cfg] obtain st' where
    r: "reconstruct binary64 ex_st ex_rt ex_cfg = Some (st', ex_rt)"
    and sh: "rows3 (xmU st') = 1" "cols3 (xmU st') = 3" "rows3 (xpU st') = 1" "cols3 (xpU st') = 3"
    by (auto simp: ex_extents)
  from face_velocity_guarded[OF r] obtain c where
    c: "corrected_depths binary64 ex_st ex_rt ex_cfg = Some c"
    and xm: "\<forall>j<rows3 (xmU st'). \<forall>i<cols3 (xmU st').
          (let h = (if flt (at3 (xmU c) 0 j i) (tol ex_rt) then Fin 0 else at3 (xmU c) 0 j i)
           in at3 (xmU st') 0 j i = h
            \<and> (if flt h (drytol (params ex_cfg))
               then at3 (xmU st') 1 j i = Fin 0 \<and> at3 (xmU st') 2 j i = Fin 0
               else at3 (xmU st') 1 j i = fdiv binary64 (at3 (xmQ c) 1 j i) h
                  \<and> at3 (xmU st') 2 j i = fdiv binary64 (at3 (xmQ c) 2 j i) h))"
    and xp: "\<forall>j<rows3 (xpU st'). \<forall>i<cols3 (xpU st').
          (let h = (if flt (at3 (xpU c) 0 j i) (tol ex_rt) then Fin 0 else at3 (xpU c) 0 j i)
           in at3 (xpU st') 0 j i = h
            \<and> (if flt h (drytol (params ex_cfg))
               then at3 (xpU st') 1 j i = Fin 0 \<and> at3 (xpU st') 2 j i = Fin 0
               else at3 (xpU st') 1 j i = fdiv binary64 (at3 (xpQ c) 1 j i) h
                  \<and> at3 (xpU st') 2 j i = fdiv binary64 (at3 (xpQ c) 2 j i) h))"
    by blast
  note v = ex_corrected[OF c]
  have a: "at3 (xmU st') 0 0 (Suc 0) = Fin (1 / 2) \<and> at3 (xmU st') 1 0 (Suc 0) = Fin 6
     \<and> at3 (xmU st') 2 0 (Suc 0) = Fin 4"
    using xm[rule_format, of 0 "Suc 0"] sh by (simp add: Let_def v ex_Q fin_binary64)
  have b: "at3 (xpU st') 0 0 0 = Fin 0 \<and> at3 (xpU st') 1 0 0 = Fin 0 \<and> at3 (xpU st') 2 0 0 = Fin 0"
    using xp[rule_format, of 0 0] sh by (simp add: Let_def v ex_Q fin_binary64)
  show ?thesis
    using r c sh a b v
    by (intro exI[of _ st'] exI[of _ ex_rt] exI[of _ c]) (simp add: ex_Q fle_def)
qed

text \<open>
  Claim C9.  A call of \<^verbatim>\<open>reconstruct\<close> that returns leaves the conservative array
  \<open>Q\<close>, the number of ghost cells and the runtime object with its three topography
  arrays as they were.
\<close>

theorem inputs_not_mutated:
  assumes "reconstruct ar st rt cfg = Some (st', rt')"
  shows "Q st' = Q st \<and> rt' = rt \<and> topo rt' = topo rt \<and> ngh st' = ngh st"
  using reconstruct_frame[OF assms] by simp

text \<open>Claim C9 on \<open>ex_st\<close>.\<close>

theorem inputs_not_mutated_witness:
  "\<exists>st' rt'. reconstruct binary64 ex_st ex_rt ex_cfg = Some (st', rt')
     \<and> Q st' = Q ex_st \<and> topo rt' = topo ex_rt"
proof -
  from reconstruct_ok[OF ex_shapes(1), of binary64 ex_cfg] obtain st' where
    r: "reconstruct binary64 ex_st ex_rt ex_cfg = Some (st', ex_rt)" by blast
  from inputs_not_mutated[OF r] r show ?thesis by simp
qed

text \<open>
  Claim C8, at the input \<open>ex_st\<close>: the call returns, the center depth \<open>H\<close> is
  recomputed (\<open>2 - 7/4\<close> at the first cell), and \<open>U\<close> still holds the \<open>7\<close> it
  held before the call in all three components.  The docstring of \<^verbatim>\<open>reconstruct\<close>
  lists \<^verbatim>\<open>states.U\<close> among the quantities it updates; its body writes
  \<^verbatim>\<open>states.H\<close> and the face arrays only, and computes no velocity at the centers.
\<close>

theorem center_velocities_not_computed:
  "\<exists>st' rt'. reconstruct binary64 ex_st ex_rt ex_cfg = Some (st', rt')
     \<and> U st' = U ex_st \<and> at3 (U st') 0 0 0 = Fin 7 \<and> at3 (U st') 1 0 0 = Fin 7
     \<and> at3 (U st') 2 0 0 = Fin 7
     \<and> at2 (H st') 0 0 = Fin (1 / 4)"
proof -
  from reconstruct_ok[OF ex_shapes(1), of binary64 ex_cfg] obtain st' where
    r: "reconstruct binary64 ex_st ex_rt ex_cfg = Some (st', ex_rt)" by blast
  have u: "U st' = U ex_st" using reconstruct_frame(2)[OF r] .
  have "at2 (H st') 0 0 = Fin (1 / 4)"
    by (simp add: reconstruct_H[OF r] ybg_def yed_def xbg_def xed_def ny_def nx_def
        sl_start_def norm_bound_def ex_st_def ex_rt_def const2_def fsub_def fin_binary64)
  then show ?thesis using r u by (simp add: ex_st_def const3_def)
qed

lemma face_pipeline_round:
  assumes "\<exists>u1. fix_rounding t u = Some u1 \<and> face_vel ar dt q u1 = Some u2 \<and> face_cons ar u2 b q = Some q2"
  shows "\<forall>j<rows3 u2. \<forall>i<cols3 u2.
     at3 u2 0 j i = (if flt (at3 u 0 j i) t then Fin 0 else at3 u 0 j i)"
proof (intro allI impI)
  fix j i assume ji: "j < rows3 u2" "i < cols3 u2"
  from assms obtain u1 where
    p: "fix_rounding t u = Some u1" "face_vel ar dt q u1 = Some u2" "face_cons ar u2 b q = Some q2"
    by blast
  show "at3 u2 0 j i = (if flt (at3 u 0 j i) t then Fin 0 else at3 u 0 j i)"
    using face_pipeline(1)[OF p ji] by (simp add: fix_rounding_err_kernel_def)
qed

lemma face_pipeline_not_neg:
  assumes "\<exists>u1. fix_rounding t u = Some u1 \<and> face_vel ar dt q u1 = Some u2 \<and> face_cons ar u2 b q = Some q2"
    and "fle (Fin 0) t"
  shows "\<forall>j<rows3 u2. \<forall>i<cols3 u2. \<not> flt (at3 u2 0 j i) (Fin 0)"
proof (intro allI impI)
  fix j i assume ji: "j < rows3 u2" "i < cols3 u2"
  from assms obtain u1 where
    p: "fix_rounding t u = Some u1" "face_vel ar dt q u1 = Some u2" "face_cons ar u2 b q = Some q2"
    by blast
  show "\<not> flt (at3 u2 0 j i) (Fin 0)"
    using face_pipeline(1)[OF p ji] fix_rounding_not_neg[OF assms(2)] by simp
qed

text \<open>
  Claim C5, as amended.  After a call that returns, every depth of the four face
  arrays is the corrected depth (the one of the state \<open>c\<close> after line 174) when
  that is not below \<open>tol\<close>, and \<open>0\<close> when it is.  The center depth \<open>H\<close> is not
  snapped: it is the one of \<open>c\<close>.
\<close>

theorem face_depths_snapped:
  assumes "reconstruct ar st rt cfg = Some (st', rt')"
  shows "\<exists>c. corrected_depths ar st rt cfg = Some c \<and> H st' = H c
     \<and> (\<forall>j<rows3 (xmU st'). \<forall>i<cols3 (xmU st').
          at3 (xmU st') 0 j i = (if flt (at3 (xmU c) 0 j i) (tol rt) then Fin 0 else at3 (xmU c) 0 j i))
     \<and> (\<forall>j<rows3 (xpU st'). \<forall>i<cols3 (xpU st').
          at3 (xpU st') 0 j i = (if flt (at3 (xpU c) 0 j i) (tol rt) then Fin 0 else at3 (xpU c) 0 j i))
     \<and> (\<forall>j<rows3 (ymU st'). \<forall>i<cols3 (ymU st').
          at3 (ymU st') 0 j i = (if flt (at3 (ymU c) 0 j i) (tol rt) then Fin 0 else at3 (ymU c) 0 j i))
     \<and> (\<forall>j<rows3 (ypU st'). \<forall>i<cols3 (ypU st').
          at3 (ypU st') 0 j i = (if flt (at3 (ypU c) 0 j i) (tol rt) then Fin 0 else at3 (ypU c) 0 j i))"
proof -
  from reconstruct_corrected[OF assms] obtain c where c: "corrected_depths ar st rt cfg = Some c"
    and h: "H st' = H c" by blast
  show ?thesis
    by (intro exI[of _ c] conjI c h 
        face_pipeline_round[OF reconstruct_face_xm[OF assms c]]
        face_pipeline_round[OF reconstruct_face_xp[OF assms c]]
        face_pipeline_round[OF reconstruct_face_ym[OF assms c]]
        face_pipeline_round[OF reconstruct_face_yp[OF assms c]])
qed

text \<open>Claim C5 as amended on \<open>ex_st\<close>, at the first plus face in x.\<close>

theorem face_depths_snapped_witness:
  "\<exists>st' rt' c. reconstruct binary64 ex_st ex_rt ex_cfg = Some (st', rt')
     \<and> corrected_depths binary64 ex_st ex_rt ex_cfg = Some c
     \<and> 0 < rows3 (xpU st') \<and> 0 < cols3 (xpU st')
     \<and> at3 (xpU st') 0 0 0
         = (if flt (at3 (xpU c) 0 0 0) (Fin (1 / 1024)) then Fin 0 else at3 (xpU c) 0 0 0)"
proof -
  from reconstruct_ok_shapes[OF ex_shapes(1), of binary64 ex_cfg] obtain st' where
    r: "reconstruct binary64 ex_st ex_rt ex_cfg = Some (st', ex_rt)"
    and sh: "rows3 (xpU st') = 1" "cols3 (xpU st') = 3"
    by (auto simp: ex_extents)
  have d: "tol ex_rt = Fin (1 / 1024)" by (simp add: ex_rt_def)
  from face_depths_snapped[OF r] obtain c where
    c: "corrected_depths binary64 ex_st ex_rt ex_cfg = Some c"
    and v: "\<forall>j<rows3 (xpU st'). \<forall>i<cols3 (xpU st').
          at3 (xpU st') 0 j i = (if flt (at3 (xpU c) 0 j i) (tol ex_rt) then Fin 0 else at3 (xpU c) 0 j i)"
    by blast
  from v[rule_format, of 0 0] sh have "at3 (xpU st') 0 0 0
      = (if flt (at3 (xpU c) 0 0 0) (tol ex_rt) then Fin 0 else at3 (xpU c) 0 0 0)"
    by simp
  then show ?thesis using r c sh unfolding d by (intro exI[of _ st'] exI[of _ ex_rt] exI[of _ c]) simp
qed

lemma flat_dry_center:
  assumes "reconstruct binary64 flat_st dry_rt cfg = Some (st', rt')"
  shows "at2 (H st') 0 0 = Fin (- 1)"
  by (simp add: reconstruct_H[OF assms] ybg_def yed_def xbg_def xed_def ny_def nx_def
      sl_start_def norm_bound_def flat_st_def ex_st_def dry_rt_def const2_def fsub_def fin_binary64)

text \<open>
  Claim C5 as stated fails at the centers.  On the flat field \<open>flat_st\<close> over the
  bed \<open>dry_rt\<close> the center depth of the first cell is \<open>-1\<close> after the call: below
  \<open>tol = 1/1024\<close> and not \<open>0\<close>.
\<close>

theorem center_depth_not_snapped:
  "\<exists>st' rt'. reconstruct binary64 flat_st dry_rt ex_cfg = Some (st', rt')
     \<and> 0 < rows2 (H st') \<and> 0 < cols2 (H st')
     \<and> flt (at2 (H st') 0 0) (tol dry_rt) \<and> at2 (H st') 0 0 \<noteq> Fin 0"
proof -
  from reconstruct_ok_shapes[OF ex_shapes(3), of binary64 ex_cfg] obtain st' where
    r: "reconstruct binary64 flat_st dry_rt ex_cfg = Some (st', dry_rt)"
    and sh: "rows2 (H st') = 1" "cols2 (H st') = 2"
    by (auto simp: ex_extents)
  show ?thesis using r sh flat_dry_center[OF r] by (simp add: dry_rt_def)
qed

text \<open>
  Claim C2, as amended.  After a call that returns, with \<open>tol \<ge> 0\<close>, no depth of
  the four face arrays is negative.
\<close>

theorem face_depths_not_negative:
  assumes "reconstruct ar st rt cfg = Some (st', rt')" and "fle (Fin 0) (tol rt)"
  shows "(\<forall>j<rows3 (xmU st'). \<forall>i<cols3 (xmU st'). \<not> flt (at3 (xmU st') 0 j i) (Fin 0))
     \<and> (\<forall>j<rows3 (xpU st'). \<forall>i<cols3 (xpU st'). \<not> flt (at3 (xpU st') 0 j i) (Fin 0))
     \<and> (\<forall>j<rows3 (ymU st'). \<forall>i<cols3 (ymU st'). \<not> flt (at3 (ymU st') 0 j i) (Fin 0))
     \<and> (\<forall>j<rows3 (ypU st'). \<forall>i<cols3 (ypU st'). \<not> flt (at3 (ypU st') 0 j i) (Fin 0))"
proof -
  from reconstruct_corrected[OF assms(1)] obtain c where c: "corrected_depths ar st rt cfg = Some c"
    by blast
  show ?thesis
    by (intro conjI
        face_pipeline_not_neg[OF reconstruct_face_xm[OF assms(1) c] assms(2)]
        face_pipeline_not_neg[OF reconstruct_face_xp[OF assms(1) c] assms(2)]
        face_pipeline_not_neg[OF reconstruct_face_ym[OF assms(1) c] assms(2)]
        face_pipeline_not_neg[OF reconstruct_face_yp[OF assms(1) c] assms(2)])
qed

text \<open>
  Claim C2 as stated fails at the centers.  On the flat field \<open>flat_st\<close> over the
  bed \<open>dry_rt\<close>, with \<open>tol\<close> and \<open>drytol\<close> positive, the center depth of the first
  cell is negative after the call.
\<close>

theorem center_depth_negative:
  "\<exists>st' rt'. reconstruct binary64 flat_st dry_rt ex_cfg = Some (st', rt')
     \<and> fle (Fin 0) (tol dry_rt) \<and> fle (Fin 0) (drytol (params ex_cfg))
     \<and> 0 < rows2 (H st') \<and> 0 < cols2 (H st') \<and> flt (at2 (H st') 0 0) (Fin 0)"
proof -
  from reconstruct_ok_shapes[OF ex_shapes(3), of binary64 ex_cfg] obtain st' where
    r: "reconstruct binary64 flat_st dry_rt ex_cfg = Some (st', dry_rt)"
    and sh: "rows2 (H st') = 1" "cols2 (H st') = 2"
    by (auto simp: ex_extents)
  show ?thesis using r sh flat_dry_center[OF r] by (simp add: dry_rt_def ex_cfg_def fle_def)
qed

text \<open>Claim C2 as amended on \<open>ex_st\<close>, at a face in x and a face in y.\<close>

theorem face_depths_not_negative_witness:
  "\<exists>st' rt'. reconstruct binary64 ex_st ex_rt ex_cfg = Some (st', rt') \<and> fle (Fin 0) (tol ex_rt)
     \<and> 0 < rows3 (xmU st') \<and> 0 < cols3 (xmU st') \<and> \<not> flt (at3 (xmU st') 0 0 0) (Fin 0)
     \<and> 0 < rows3 (ypU st') \<and> 0 < cols3 (ypU st') \<and> \<not> flt (at3 (ypU st') 0 0 0) (Fin 0)"
proof -
  from reconstruct_ok_shapes[OF ex_shapes(1), of binary64 ex_cfg] obtain st' where
    r: "reconstruct binary64 ex_st ex_rt ex_cfg = Some (st', ex_rt)"
    and sh: "rows3 (xmU st') = 1" "cols3 (xmU st') = 3" "rows3 (ypU st') = 2" "cols3 (ypU st') = 2"
    by (auto simp: ex_extents)
  have t: "fle (Fin 0) (tol ex_rt)" by (simp add: ex_rt_def fle_def)
  from face_depths_not_negative[OF r t] sh
  have "\<not> flt (at3 (xmU st') 0 0 0) (Fin 0)" "\<not> flt (at3 (ypU st') 0 0 0) (Fin 0)"
    by simp_all
  then show ?thesis using r t sh by simp
qed

lemma flat_values:
  "theta (params ex_cfg) = Fin (5 / 4)"
  "\<forall>k<cols3 (Q flat_st).
     at3 (Q flat_st) 0 (sl_start (rows3 (Q flat_st)) (sl_range (ybg flat_st) (yed flat_st)) + 0) k = Fin 0"
  "\<forall>k<rows3 (Q flat_st).
     at3 (Q flat_st) 0 k (sl_start (cols3 (Q flat_st)) (sl_range (xbg flat_st) (xed flat_st)) + 0) = Fin 0"
  "at2 (xfcenters (topo dry_rt)) 0 0 = Fin 1" "at2 (xfcenters (topo wet_rt)) 0 0 = Fin (- 1)"
  "at2 (xfcenters (topo wet_rt)) 0 (Suc 0) = Fin (- 1)"
  "at2 (yfcenters (topo wet_rt)) 0 0 = Fin (- 1)" "at2 (yfcenters (topo wet_rt)) (Suc 0) 0 = Fin (- 1)"
  by (simp_all add: ex_cfg_def flat_st_def dry_rt_def wet_rt_def const2_def)

lemma float_0: "is_float binary64 0"
  by (rule float_binary64) simp_all

lemma flat_run:
  assumes "shapes_ok flat_st rt"
  shows "\<exists>slpx slpy s u ux uy. get_slopes binary64 flat_st ex_cfg = Some (slpx, slpy)
     \<and> get_face_Q binary64 flat_st slpx slpy = Some s \<and> uncorrected_depths binary64 flat_st rt ex_cfg = Some u
     \<and> fix_neg_depth_x binary64 u = Some ux \<and> fix_neg_depth_y binary64 ux = Some uy
     \<and> cols3 (xmQ s) = 3 \<and> cols3 (xpQ s) = 3 \<and> rows3 (ymQ s) = 2 \<and> rows3 (ypQ s) = 2
     \<and> rows2 (H u) = 1 \<and> cols2 (H u) = 2 \<and> rows3 (xpU u) = 1 \<and> cols3 (xpU u) = 3"
proof -
  from uncorrected_depths_ok[OF assms, of binary64 ex_cfg] obtain u where
    u: "uncorrected_depths binary64 flat_st rt ex_cfg = Some u" and uo: "shapes_ok u rt" by blast
  from uncorrected_depths_SomeD[OF u] obtain slpx slpy s where
    g: "get_slopes binary64 flat_st ex_cfg = Some (slpx, slpy)" "get_face_Q binary64 flat_st slpx slpy = Some s"
    and c: "calc_depth binary64 s rt = Some u" by blast
  from fix_neg_depth_x_ok[OF uo] obtain ux where ux: "fix_neg_depth_x binary64 u = Some ux"
    and uxo: "shapes_ok ux rt" by blast
  from fix_neg_depth_y_ok[OF uxo] obtain uy where uy: "fix_neg_depth_y binary64 ux = Some uy" by blast
  from uncorrected_depths_frame[OF u] have e: "ny u = 1" "nx u = 2"
    by (simp_all add: ny_def nx_def ex_extents[unfolded ny_def nx_def])
  from calc_depth_SomeD(1)[OF c] have q: "xmQ u = xmQ s" "xpQ u = xpQ s" "ymQ u = ymQ s"
    "ypQ u = ypQ s" by simp_all
  have "cols3 (xmQ s) = 3" "cols3 (xpQ s) = 3" "rows3 (ymQ s) = 2" "rows3 (ypQ s) = 2"
    "rows2 (H u) = 1" "cols2 (H u) = 2" "rows3 (xpU u) = 1" "cols3 (xpU u) = 3"
    using shapes_okD(7,8,11,14,19,20,22,25)[OF uo] e q by simp_all
  then show ?thesis using g u ux uy by blast
qed


text \<open>
  Claim C7, as amended.  For a finite value \<open>c\<close> of the format and a finite
  \<open>theta\<close> the limiter applied to three values equal to \<open>c\<close> returns the slope
  \<open>0\<close>.  When a component of \<open>Q\<close> equals \<open>c\<close> all along a grid line in x, the
  minus and plus values of that component at every x face of the line are \<open>c\<close>;
  likewise along a grid line in y.  When the face depth \<open>c - b\<close> is negative at
  neither face of an interior cell of such a line, the corrector of that direction
  leaves the two depths of the cell as they were computed.
\<close>

theorem flat_field:
  assumes ar: "ieee ar" and cf: "is_float ar c"
  shows "minmod_slope_kernel ar (Fin c) (Fin c) (Fin c) (Fin t) = Fin 0
   \<and> (get_slopes ar st cfg = Some (slpx, slpy) \<and> get_face_Q ar st slpx slpy = Some s
        \<and> theta (params cfg) = Fin t
        \<and> (\<forall>k<cols3 (Q st).
              at3 (Q st) d (sl_start (rows3 (Q st)) (sl_range (ybg st) (yed st)) + j) k = Fin c)
      \<longrightarrow> (\<forall>i<cols3 (xmQ s). at3 (xmQ s) d j i = Fin c)
        \<and> (\<forall>i<cols3 (xpQ s). at3 (xpQ s) d j i = Fin c))
   \<and> (get_slopes ar st cfg = Some (slpx, slpy) \<and> get_face_Q ar st slpx slpy = Some s
        \<and> theta (params cfg) = Fin t
        \<and> (\<forall>k<rows3 (Q st).
              at3 (Q st) d k (sl_start (cols3 (Q st)) (sl_range (xbg st) (xed st)) + i) = Fin c)
      \<longrightarrow> (\<forall>j<rows3 (ymQ s). at3 (ymQ s) d j i = Fin c)
        \<and> (\<forall>j<rows3 (ypQ s). at3 (ypQ s) d j i = Fin c))
   \<and> (uncorrected_depths ar st rt cfg = Some u \<and> fix_neg_depth_x ar u = Some ux
        \<and> theta (params cfg) = Fin t \<and> j < rows2 (H u) \<and> i < cols2 (H u)
        \<and> (\<forall>k<cols3 (Q st).
              at3 (Q st) 0 (sl_start (rows3 (Q st)) (sl_range (ybg st) (yed st)) + j) k = Fin c)
        \<and> \<not> flt (fsub ar (Fin c) (at2 (xfcenters (topo rt)) j i)) (Fin 0)
        \<and> \<not> flt (fsub ar (Fin c) (at2 (xfcenters (topo rt)) j (Suc i))) (Fin 0)
      \<longrightarrow> at3 (xpU ux) 0 j i = fsub ar (Fin c) (at2 (xfcenters (topo rt)) j i)
        \<and> at3 (xmU ux) 0 j (Suc i) = fsub ar (Fin c) (at2 (xfcenters (topo rt)) j (Suc i)))
   \<and> (uncorrected_depths ar st rt cfg = Some u \<and> fix_neg_depth_x ar u = Some ux
        \<and> fix_neg_depth_y ar ux = Some uy
        \<and> theta (params cfg) = Fin t \<and> j < rows2 (H u) \<and> i < cols2 (H u)
        \<and> (\<forall>k<rows3 (Q st).
              at3 (Q st) 0 k (sl_start (cols3 (Q st)) (sl_range (xbg st) (xed st)) + i) = Fin c)
        \<and> \<not> flt (fsub ar (Fin c) (at2 (yfcenters (topo rt)) j i)) (Fin 0)
        \<and> \<not> flt (fsub ar (Fin c) (at2 (yfcenters (topo rt)) (Suc j) i)) (Fin 0)
      \<longrightarrow> at3 (ypU uy) 0 j i = fsub ar (Fin c) (at2 (yfcenters (topo rt)) j i)
        \<and> at3 (ymU uy) 0 (Suc j) i = fsub ar (Fin c) (at2 (yfcenters (topo rt)) (Suc j) i))"
proof (intro conjI impI)
  show "minmod_slope_kernel ar (Fin c) (Fin c) (Fin c) (Fin t) = Fin 0" by (rule minmod_flat[OF ar])
next
  assume a: "get_slopes ar st cfg = Some (slpx, slpy) \<and> get_face_Q ar st slpx slpy = Some s
        \<and> theta (params cfg) = Fin t
        \<and> (\<forall>k<cols3 (Q st).
              at3 (Q st) d (sl_start (rows3 (Q st)) (sl_range (ybg st) (yed st)) + j) k = Fin c)"
  then have g: "get_slopes ar st cfg = Some (slpx, slpy)" and f: "get_face_Q ar st slpx slpy = Some s"
    and t: "theta (params cfg) = Fin t"
    and flat: "\<forall>k<cols3 (Q st).
              at3 (Q st) d (sl_start (rows3 (Q st)) (sl_range (ybg st) (yed st)) + j) k = Fin c"
    by blast+
  show "\<forall>i<cols3 (xmQ s). at3 (xmQ s) d j i = Fin c" by (rule xface_flat(1)[OF ar cf g f t flat])
  show "\<forall>i<cols3 (xpQ s). at3 (xpQ s) d j i = Fin c" by (rule xface_flat(2)[OF ar cf g f t flat])
next
  assume a: "get_slopes ar st cfg = Some (slpx, slpy) \<and> get_face_Q ar st slpx slpy = Some s
        \<and> theta (params cfg) = Fin t
        \<and> (\<forall>k<rows3 (Q st).
              at3 (Q st) d k (sl_start (cols3 (Q st)) (sl_range (xbg st) (xed st)) + i) = Fin c)"
  then have g: "get_slopes ar st cfg = Some (slpx, slpy)" and f: "get_face_Q ar st slpx slpy = Some s"
    and t: "theta (params cfg) = Fin t"
    and flat: "\<forall>k<rows3 (Q st).
              at3 (Q st) d k (sl_start (cols3 (Q st)) (sl_range (xbg st) (xed st)) + i) = Fin c"
    by blast+
  show "\<forall>j<rows3 (ymQ s). at3 (ymQ s) d j i = Fin c" by (rule yface_flat(1)[OF ar cf g f t flat])
  show "\<forall>j<rows3 (ypQ s). at3 (ypQ s) d j i = Fin c" by (rule yface_flat(2)[OF ar cf g f t flat])
next
  assume a: "uncorrected_depths ar st rt cfg = Some u \<and> fix_neg_depth_x ar u = Some ux
        \<and> theta (params cfg) = Fin t \<and> j < rows2 (H u) \<and> i < cols2 (H u)
        \<and> (\<forall>k<cols3 (Q st).
              at3 (Q st) 0 (sl_start (rows3 (Q st)) (sl_range (ybg st) (yed st)) + j) k = Fin c)
        \<and> \<not> flt (fsub ar (Fin c) (at2 (xfcenters (topo rt)) j i)) (Fin 0)
        \<and> \<not> flt (fsub ar (Fin c) (at2 (xfcenters (topo rt)) j (Suc i))) (Fin 0)"
  then have h: "uncorrected_depths ar st rt cfg = Some u" "fix_neg_depth_x ar u = Some ux"
    "theta (params cfg) = Fin t" "j < rows2 (H u)" "i < cols2 (H u)"
    "\<forall>k<cols3 (Q st).
              at3 (Q st) 0 (sl_start (rows3 (Q st)) (sl_range (ybg st) (yed st)) + j) k = Fin c"
    "\<not> flt (fsub ar (Fin c) (at2 (xfcenters (topo rt)) j i)) (Fin 0)"
    "\<not> flt (fsub ar (Fin c) (at2 (xfcenters (topo rt)) j (Suc i))) (Fin 0)"
    by blast+
  show "at3 (xpU ux) 0 j i = fsub ar (Fin c) (at2 (xfcenters (topo rt)) j i)"
    by (rule flat_idle_x(1)[OF ar cf h])
  show "at3 (xmU ux) 0 j (Suc i) = fsub ar (Fin c) (at2 (xfcenters (topo rt)) j (Suc i))"
    by (rule flat_idle_x(2)[OF ar cf h])
next
  assume a: "uncorrected_depths ar st rt cfg = Some u \<and> fix_neg_depth_x ar u = Some ux
        \<and> fix_neg_depth_y ar ux = Some uy
        \<and> theta (params cfg) = Fin t \<and> j < rows2 (H u) \<and> i < cols2 (H u)
        \<and> (\<forall>k<rows3 (Q st).
              at3 (Q st) 0 k (sl_start (cols3 (Q st)) (sl_range (xbg st) (xed st)) + i) = Fin c)
        \<and> \<not> flt (fsub ar (Fin c) (at2 (yfcenters (topo rt)) j i)) (Fin 0)
        \<and> \<not> flt (fsub ar (Fin c) (at2 (yfcenters (topo rt)) (Suc j) i)) (Fin 0)"
  then have h: "uncorrected_depths ar st rt cfg = Some u" "fix_neg_depth_x ar u = Some ux"
    "fix_neg_depth_y ar ux = Some uy"
    "theta (params cfg) = Fin t" "j < rows2 (H u)" "i < cols2 (H u)"
    "\<forall>k<rows3 (Q st).
              at3 (Q st) 0 k (sl_start (cols3 (Q st)) (sl_range (xbg st) (xed st)) + i) = Fin c"
    "\<not> flt (fsub ar (Fin c) (at2 (yfcenters (topo rt)) j i)) (Fin 0)"
    "\<not> flt (fsub ar (Fin c) (at2 (yfcenters (topo rt)) (Suc j) i)) (Fin 0)"
    by blast+
  show "at3 (ypU uy) 0 j i = fsub ar (Fin c) (at2 (yfcenters (topo rt)) j i)"
    by (rule flat_idle_y(1)[OF ar cf h])
  show "at3 (ymU uy) 0 (Suc j) i = fsub ar (Fin c) (at2 (yfcenters (topo rt)) (Suc j) i)"
    by (rule flat_idle_y(2)[OF ar cf h])
qed


text \<open>
  Claim C7 as amended on the flat field \<open>flat_st\<close> (elevation \<open>0\<close>) over the bed
  \<open>wet_rt\<close> (elevation \<open>-1\<close>), at the first cell: every face value is \<open>0\<close> and
  the face depths stay \<open>1\<close>.
\<close>

theorem flat_field_witness:
  "\<exists>slpx slpy s u ux uy. get_slopes binary64 flat_st ex_cfg = Some (slpx, slpy)
     \<and> get_face_Q binary64 flat_st slpx slpy = Some s \<and> uncorrected_depths binary64 flat_st wet_rt ex_cfg = Some u
     \<and> fix_neg_depth_x binary64 u = Some ux \<and> fix_neg_depth_y binary64 ux = Some uy
     \<and> ieee binary64 \<and> is_float binary64 0
     \<and> minmod_slope_kernel binary64 (Fin 0) (Fin 0) (Fin 0) (Fin (5 / 4)) = Fin 0
     \<and> at3 (xmQ s) 0 0 0 = Fin 0 \<and> at3 (xpQ s) 0 0 0 = Fin 0
     \<and> at3 (ymQ s) 0 0 0 = Fin 0 \<and> at3 (ypQ s) 0 0 0 = Fin 0
     \<and> at3 (xpU ux) 0 0 0 = Fin 1 \<and> at3 (xmU ux) 0 0 (Suc 0) = Fin 1
     \<and> at3 (ypU uy) 0 0 0 = Fin 1 \<and> at3 (ymU uy) 0 (Suc 0) 0 = Fin 1"
proof -
  from flat_run[OF ex_shapes(4)] obtain slpx slpy s u ux uy where
    r: "get_slopes binary64 flat_st ex_cfg = Some (slpx, slpy)" "get_face_Q binary64 flat_st slpx slpy = Some s"
      "uncorrected_depths binary64 flat_st wet_rt ex_cfg = Some u" "fix_neg_depth_x binary64 u = Some ux"
      "fix_neg_depth_y binary64 ux = Some uy"
    and sh: "cols3 (xmQ s) = 3" "cols3 (xpQ s) = 3" "rows3 (ymQ s) = 2" "rows3 (ypQ s) = 2"
      "rows2 (H u) = 1" "cols2 (H u) = 2"
    by blast
  note th = flat_field[OF ieee_binary64 float_0, of "5 / 4" flat_st ex_cfg slpx slpy s 0 0 0 wet_rt u ux uy]
  have k: "minmod_slope_kernel binary64 (Fin 0) (Fin 0) (Fin 0) (Fin (5 / 4)) = Fin 0"
    using th by blast
  have x: "(\<forall>i<cols3 (xmQ s). at3 (xmQ s) 0 0 i = Fin 0)
         \<and> (\<forall>i<cols3 (xpQ s). at3 (xpQ s) 0 0 i = Fin 0)"
    using th r(1,2) flat_values(1,2) by blast
  have y: "(\<forall>j<rows3 (ymQ s). at3 (ymQ s) 0 j 0 = Fin 0)
         \<and> (\<forall>j<rows3 (ypQ s). at3 (ypQ s) 0 j 0 = Fin 0)"
    using th r(1,2) flat_values(1,3) by blast
  have n: "\<not> flt (fsub binary64 (Fin 0) (at2 (xfcenters (topo wet_rt)) 0 0)) (Fin 0)"
    "\<not> flt (fsub binary64 (Fin 0) (at2 (xfcenters (topo wet_rt)) 0 (Suc 0))) (Fin 0)"
    "\<not> flt (fsub binary64 (Fin 0) (at2 (yfcenters (topo wet_rt)) 0 0)) (Fin 0)"
    "\<not> flt (fsub binary64 (Fin 0) (at2 (yfcenters (topo wet_rt)) (Suc 0) 0)) (Fin 0)"
    by (simp_all add: flat_values fsub_def fin_binary64)
  have b: "0 < rows2 (H u)" "0 < cols2 (H u)" using sh by simp_all
  have cx: "at3 (xpU ux) 0 0 0 = fsub binary64 (Fin 0) (at2 (xfcenters (topo wet_rt)) 0 0)
        \<and> at3 (xmU ux) 0 0 (Suc 0) = fsub binary64 (Fin 0) (at2 (xfcenters (topo wet_rt)) 0 (Suc 0))"
    using th r(3,4) flat_values(1,2) b n(1,2) by blast
  have cy: "at3 (ypU uy) 0 0 0 = fsub binary64 (Fin 0) (at2 (yfcenters (topo wet_rt)) 0 0)
        \<and> at3 (ymU uy) 0 (Suc 0) 0 = fsub binary64 (Fin 0) (at2 (yfcenters (topo wet_rt)) (Suc 0) 0)"
    using th r(3,4,5) flat_values(1,3) b n(3,4) by blast
  have v: "at3 (xmQ s) 0 0 0 = Fin 0" "at3 (xpQ s) 0 0 0 = Fin 0"
    "at3 (ymQ s) 0 0 0 = Fin 0" "at3 (ypQ s) 0 0 0 = Fin 0"
    using x y sh by simp_all
  have w: "at3 (xpU ux) 0 0 0 = Fin 1" "at3 (xmU ux) 0 0 (Suc 0) = Fin 1"
    "at3 (ypU uy) 0 0 0 = Fin 1" "at3 (ymU uy) 0 (Suc 0) 0 = Fin 1"
    using cx cy by (simp_all add: flat_values fsub_def fin_binary64)
  show ?thesis using r k v w ieee_binary64 float_0 by blast
qed

text \<open>
  Claim C7 as stated fails in its last part.  On the same flat field over the bed
  \<open>dry_rt\<close> (elevation \<open>1\<close>) the plus depth at the left face of the first cell is
  \<open>0 - 1\<close>, negative, and the corrector of lines 166-169 fires: it sets that
  depth to \<open>0\<close>.
\<close>

theorem flat_field_correction_fires:
  "\<exists>u ux. uncorrected_depths binary64 flat_st dry_rt ex_cfg = Some u \<and> fix_neg_depth_x binary64 u = Some ux
     \<and> (\<forall>d j i. at3 (Q flat_st) d j i = Fin 0)
     \<and> 0 < rows2 (H u) \<and> 0 < cols2 (H u)
     \<and> flt (at3 (xpU u) 0 0 0) (Fin 0) \<and> at3 (xpU u) 0 0 0 = Fin (- 1)
     \<and> at3 (xpU ux) 0 0 0 = Fin 0"
proof -
  from flat_run[OF ex_shapes(3)] obtain slpx slpy s u ux uy where
    r: "get_slopes binary64 flat_st ex_cfg = Some (slpx, slpy)" "get_face_Q binary64 flat_st slpx slpy = Some s"
      "uncorrected_depths binary64 flat_st dry_rt ex_cfg = Some u" "fix_neg_depth_x binary64 u = Some ux"
    and sh: "rows2 (H u) = 1" "cols2 (H u) = 2" "rows3 (xpU u) = 1" "cols3 (xpU u) = 3"
    by blast
  from uncorrected_face_depth[OF r(3)] r(1,2) have
    "\<forall>j<rows3 (xpU u). \<forall>i<cols3 (xpU u). i < cols3 (xpQ s) \<and>
          at3 (xpU u) 0 j i = fsub binary64 (at3 (xpQ s) 0 j i) (at2 (xfcenters (topo dry_rt)) j i)"
    by auto
  from this[rule_format, of 0 0] sh
  have "0 < cols3 (xpQ s)"
    and "at3 (xpU u) 0 0 0 = fsub binary64 (at3 (xpQ s) 0 0 0) (at2 (xfcenters (topo dry_rt)) 0 0)"
    by simp_all
  moreover have "at3 (xpQ s) 0 0 0 = Fin 0"
    using xface_flat(2)[OF ieee_binary64 float_0 r(1,2) flat_values(1,2)] \<open>0 < cols3 (xpQ s)\<close> by simp
  ultimately have hl: "at3 (xpU u) 0 0 0 = Fin (- 1)" by (simp add: flat_values fsub_def fin_binary64)
  have "at3 (xpU ux) 0 0 0 = Fin 0"
    using fix_neg_depth_x_cell(1)[OF r(4), of 0 0] sh hl
    by (simp add: correct_neg_depth_internal_def)
  moreover have "\<forall>d j i. at3 (Q flat_st) d j i = Fin 0" by (simp add: flat_st_def)
  ultimately show ?thesis using r(3,4) sh hl by simp
qed

end
